(* ===== verification/Prelude.thy ===== *)
theory Prelude
  imports Main
begin

text \<open>
  Shared vocabulary of the development.  Go functions that may fail, panic or change state
  are functions \<open>'s \<Rightarrow> 'a res \<times> 's\<close>: \<open>Ret\<close> is a normal return, \<open>Fail\<close> a
  non-nil \<open>error\<close> result and \<open>Panic\<close> a run-time panic.  A Go \<open>int\<close> (64 bits on the
  supported platforms) is a HOL \<open>int\<close> in the range of \<open>int64\<close>; arithmetic that can leave
  the range is written with \<open>wrap64\<close>.
\<close>

named_theorems go_simps "evaluation rules of the effect combinators"

subsection \<open>Errors\<close>

text \<open>Reasons for which the scanner of package fmt stops.\<close>

datatype scan_error =
    SEOF | SUnexpectedEOF | SUnexpectedNewline | SExpectedInteger | SIntRange | SIntOverflow
  | SNewlineMismatch | SExpectedSpace | SNewlineInInput | SNoMatch | SExpectedNewline
  | STooFewOperands | SMissingVerb | SBadVerb

text \<open>The prefixes that \<open>fmt.Errorf\<close> puts before an inner error, named after their text.\<close>

datatype (plugins only: code size) conn_ctx =
    FailedToSend string | FailedSending string | FailedToScan string | ScanningVerb
  | RunningHook string | ReadingQueryIDs | UnmarshalTarget string | ReadingResponse
  | SendingResponseToChannel | SendingStatusToChannel | ScanningStatus | ParsingAnnounce
  | ReadingNodeLine | UnmarshalNodeID | ReadingNode | DecodingNode | UnmarshalNode
  | ReadingIDLine | UnmarshalIDLine

datatype (plugins only: code size) handler_ctx =
    SendingTooOld | SendingTooNew | SendingOkay | SendingOkayStatus
  | ListingRecent | CheckingNode | LookingForNode | LookingUpParent | FindingDescendants
  | FindingLocally | DuringSubscribe | DuringUnsubscribe

datatype (plugins only: code size) sync_ctx =
    FetchAncestry | CheckingLocalStore | FetchAncestorAuthor | ValidatingAncestor
  | InsertingAncestor | ValidatingAfterAncestry
  | FetchingLeaves | ListingLocalLeaves | GettingLocalNode | AnnouncingLocalNodes
  | CheckingLeaf | FetchingLeafAncestry | FetchingAuthor | ValidatingNode | AddingNode
  | LookingForAuthor | QueryingAuthor | ValidatingAuthor | InsertingAuthor

datatype ctx = InConn conn_ctx | InHandler handler_ctx | InSync sync_ctx

text \<open>
  \<open>Wrapped\<close> is \<open>fmt.Errorf\<close> with \<open>%w\<close> (the inner error stays visible to
  \<open>errors.As\<close>), \<open>Flattened\<close> is \<open>%v\<close> (only its text survives).  \<open>External\<close> is an
  error value made by code outside the repository.
\<close>

datatype (plugins only: code size) err =
    Scan scan_error
  | External string
  | CorruptBase64
  | UnsolicitedMessage int
  | StatusError int
  | NonStatus
  | TimedOut string
  | StatusOkNotResponse
  | ShortScan string nat nat
  | NoVerb
  | NoHandler string
  | ItemCount nat nat
  | IDMismatch
  | AncestryOfUnknown
  | UnsupportedType
  | AuthorCount nat
  | Wrapped ctx err
  | Flattened ctx err

datatype panic = MakeSliceLen | SliceBounds

datatype 'a res = Ret 'a | Fail err | Panic panic

type_synonym ('s, 'a) go = "'s \<Rightarrow> 'a res \<times> 's"

subsection \<open>Sequencing\<close>

definition ret :: "'a \<Rightarrow> ('s, 'a) go" where
  "ret a s = (Ret a, s)"

definition fail :: "err \<Rightarrow> ('s, 'a) go" where
  "fail e s = (Fail e, s)"

definition panic :: "panic \<Rightarrow> ('s, 'a) go" where
  "panic p s = (Panic p, s)"

text \<open>\<open>seqM m f\<close>: run \<open>m\<close>; on a normal return go on with \<open>f\<close>, otherwise stop.\<close>

definition seqM :: "('s, 'a) go \<Rightarrow> ('a \<Rightarrow> ('s, 'b) go) \<Rightarrow> ('s, 'b) go" where
  "seqM m f s =
     (case m s of
        (Ret a, s') \<Rightarrow> f a s'
      | (Fail e, s') \<Rightarrow> (Fail e, s')
      | (Panic p, s') \<Rightarrow> (Panic p, s'))"

text \<open>\<open>onErr w m\<close>: \<open>if err != nil { return w(err) }\<close>.\<close>

definition onErr :: "(err \<Rightarrow> err) \<Rightarrow> ('s, 'a) go \<Rightarrow> ('s, 'a) go" where
  "onErr w m s =
     (case m s of
        (Ret a, s') \<Rightarrow> (Ret a, s')
      | (Fail e, s') \<Rightarrow> (Fail (w e), s')
      | (Panic p, s') \<Rightarrow> (Panic p, s'))"

text \<open>An error result of a call that has no effect.\<close>

definition lift_sum :: "(string \<Rightarrow> err) \<Rightarrow> string + 'a \<Rightarrow> ('s, 'a) go" where
  "lift_sum w x = (case x of Inl e \<Rightarrow> fail (w e) | Inr a \<Rightarrow> ret a)"

lemma ret_apply [simp, go_simps]: "ret a s = (Ret a, s)"
  by (simp add: ret_def)

lemma fail_apply [simp, go_simps]: "fail e s = (Fail e, s)"
  by (simp add: fail_def)

lemma panic_apply [simp, go_simps]: "panic p s = (Panic p, s)"
  by (simp add: panic_def)

lemma seqM_Ret [go_simps]: "m s = (Ret a, s') \<Longrightarrow> seqM m f s = f a s'"
  by (simp add: seqM_def)

lemma seqM_Fail [go_simps]: "m s = (Fail e, s') \<Longrightarrow> seqM m f s = (Fail e, s')"
  by (simp add: seqM_def)

lemma seqM_Panic [go_simps]: "m s = (Panic p, s') \<Longrightarrow> seqM m f s = (Panic p, s')"
  by (simp add: seqM_def)

lemma onErr_Ret [go_simps]: "m s = (Ret a, s') \<Longrightarrow> onErr w m s = (Ret a, s')"
  by (simp add: onErr_def)

lemma onErr_Fail [go_simps]: "m s = (Fail e, s') \<Longrightarrow> onErr w m s = (Fail (w e), s')"
  by (simp add: onErr_def)

lemma onErr_Panic [go_simps]: "m s = (Panic p, s') \<Longrightarrow> onErr w m s = (Panic p, s')"
  by (simp add: onErr_def)

lemma seqM_ret [simp]: "seqM (ret a) f = f a"
  by (rule ext) (simp add: seqM_def)

lemma seqM_fail [simp]: "seqM (fail e) f = fail e"
  by (rule ext) (simp add: seqM_def)

lemma seqM_panic [simp]: "seqM (panic p) f = panic p"
  by (rule ext) (simp add: seqM_def)

lemma onErr_ret [simp]: "onErr w (ret a) = ret a"
  by (rule ext) (simp add: onErr_def)

lemma onErr_fail [simp]: "onErr w (fail e) = fail (w e)"
  by (rule ext) (simp add: onErr_def)

lemma seqM_assoc: "seqM (seqM m f) g = seqM m (\<lambda>a. seqM (f a) g)"
  by (rule ext) (auto simp: seqM_def split: prod.splits res.splits)

lemma seqM_RetE:
  assumes "seqM m f s = (Ret b, s')"
  obtains a t where "m s = (Ret a, t)" "f a t = (Ret b, s')"
  using assms by (auto simp: seqM_def split: prod.splits res.splits)

lemma onErr_RetD: "onErr w m s = (Ret a, s') \<Longrightarrow> m s = (Ret a, s')"
  by (auto simp: onErr_def split: prod.splits res.splits)

lemma lift_sum_Inl [simp, go_simps]: "lift_sum w (Inl e) = fail (w e)"
  by (simp add: lift_sum_def)

lemma lift_sum_Inr [simp, go_simps]: "lift_sum w (Inr a) = ret a"
  by (simp add: lift_sum_def)

subsection \<open>Relations between the states before and after\<close>

text \<open>
  \<open>relates R m\<close>: whatever \<open>m\<close> returns, the state before and the state after it are
  related by \<open>R\<close>.  For a preorder \<open>R\<close> this is closed under sequencing, so it can be
  shown of a whole operation from its parts: invariants (\<open>R s t = (I s \<longrightarrow> I t)\<close>), growing
  output and shrinking input are all of this form.
\<close>

definition relates :: "('s \<Rightarrow> 's \<Rightarrow> bool) \<Rightarrow> ('s, 'a) go \<Rightarrow> bool" where
  "relates R m \<longleftrightarrow> (\<forall>s. R s (snd (m s)))"

lemma relatesI: "(\<And>s. R s (snd (m s))) \<Longrightarrow> relates R m"
  by (simp add: relates_def)

lemma relatesD: "relates R m \<Longrightarrow> R s (snd (m s))"
  by (simp add: relates_def)

locale run_relation =
  fixes R :: "'s \<Rightarrow> 's \<Rightarrow> bool"
  assumes R_refl: "R s s"
    and R_trans: "R s t \<Longrightarrow> R t u \<Longrightarrow> R s u"
begin

lemma rel_pure: "relates R (Pair r)"
  by (simp add: relates_def R_refl)

lemma rel_ret: "relates R (ret a)"
  by (simp add: relates_def R_refl)

lemma rel_fail: "relates R (fail e)"
  by (simp add: relates_def R_refl)

lemma rel_panic: "relates R (panic p)"
  by (simp add: relates_def R_refl)

lemma rel_seqM:
  assumes "relates R m" and "\<And>a. relates R (f a)"
  shows "relates R (seqM m f)"
proof (rule relatesI)
  fix s
  obtain r t where m: "m s = (r, t)" by (cases "m s")
  then have "R s t" using relatesD [OF assms(1), of s] by simp
  moreover have "R t (snd (f a t))" for a by (rule relatesD [OF assms(2)])
  ultimately show "R s (snd (seqM m f s))"
    using m by (cases r) (auto simp: seqM_def intro: R_trans)
qed

lemma rel_onErr:
  assumes "relates R m"
  shows "relates R (onErr w m)"
proof (rule relatesI)
  fix s
  obtain r t where m: "m s = (r, t)" by (cases "m s")
  then have "R s t" using relatesD [OF assms(1), of s] by simp
  then show "R s (snd (onErr w m s))" using m by (cases r) (auto simp: onErr_def)
qed

lemma rel_if: "relates R m \<Longrightarrow> relates R m' \<Longrightarrow> relates R (if b then m else m')"
  by simp

lemma rel_lift_sum: "relates R (lift_sum w x)"
  by (cases x) (simp_all add: rel_ret rel_fail)

lemma rel_case_option:
  "relates R m \<Longrightarrow> (\<And>x. relates R (f x)) \<Longrightarrow> relates R (case y of None \<Rightarrow> m | Some x \<Rightarrow> f x)"
  by (cases y) simp_all

lemmas rel_rules =
  rel_pure rel_ret rel_fail rel_panic rel_seqM rel_onErr rel_if rel_lift_sum rel_case_option

end

subsection \<open>Go integers and slices\<close>

definition int64 :: "int \<Rightarrow> bool" where
  "int64 x \<longleftrightarrow> - (2 ^ 63) \<le> x \<and> x < 2 ^ 63"

definition wrap64 :: "int \<Rightarrow> int" where
  "wrap64 x = (x + 2 ^ 63) mod 2 ^ 64 - 2 ^ 63"

lemma wrap64_int64 [simp]: "int64 (wrap64 x)"
  by (simp add: int64_def wrap64_def)

lemma wrap64_id [simp]: "int64 x \<Longrightarrow> wrap64 x = x"
  by (simp add: int64_def wrap64_def)

text \<open>
  \<open>make([]T, n)\<close> panics unless \<open>n\<close> elements of the given size fit the address space of
  the run-time system (\<open>maxAlloc\<close>, \<open>2^48\<close> bytes on linux/amd64).
\<close>

definition makeslice_ok :: "int \<Rightarrow> int \<Rightarrow> bool" where
  "makeslice_ok elemsize n \<longleftrightarrow> 0 \<le> n \<and> elemsize * n \<le> 2 ^ 48"

text \<open>\<open>xs[low:]\<close> panics unless \<open>0 \<le> low \<le> len(xs)\<close>.\<close>

definition slice_from :: "int \<Rightarrow> 'a list \<Rightarrow> ('s, 'a list) go" where
  "slice_from low xs =
     (if 0 \<le> low \<and> low \<le> int (length xs) then ret (drop (nat low) xs) else panic SliceBounds)"

lemma makeslice_neg [simp]: "n < 0 \<Longrightarrow> \<not> makeslice_ok e n"
  by (simp add: makeslice_ok_def)

subsection \<open>Lists\<close>

lemma takeWhile_append_stop:
  assumes "\<forall>x\<in>set xs. P x" and "case ys of [] \<Rightarrow> True | y # _ \<Rightarrow> \<not> P y"
  shows "takeWhile P (xs @ ys) = xs" and "dropWhile P (xs @ ys) = ys"
  using assms by (cases ys; auto simp: takeWhile_append dropWhile_append)+

end
