(* ===== verification/Utf8.thy ===== *)
theory Utf8
  imports Prelude
begin

text \<open>
  Runes and UTF-8, as \<open>bufio.Reader.ReadRune\<close> and the scanner's buffer of package fmt use
  them.  A rune is a natural number; a Go string is a list of bytes (HOL \<open>char\<close>s).  Bytes
  that are not valid UTF-8 decode, one at a time, to the rune U+FFFD.
\<close>

type_synonym rune = nat

definition bytes :: "string \<Rightarrow> nat list" where
  "bytes s = map of_char s"

definition cont :: "nat \<Rightarrow> bool" where
  "cont b \<longleftrightarrow> 128 \<le> b \<and> b < 192"

text \<open>The admissible second byte after a lead byte (package unicode/utf8, acceptRanges).\<close>

definition second_ok :: "nat \<Rightarrow> nat \<Rightarrow> bool" where
  "second_ok b0 b1 \<longleftrightarrow>
     (if b0 = 224 then 160 \<le> b1 \<and> b1 < 192
      else if b0 = 237 then 128 \<le> b1 \<and> b1 < 160
      else if b0 = 240 then 144 \<le> b1 \<and> b1 < 192
      else if b0 = 244 then 128 \<le> b1 \<and> b1 < 144
      else 194 \<le> b0 \<and> b0 < 244 \<and> cont b1)"

definition runeError :: rune where
  "runeError = 65533"

fun utf8 :: "nat list \<Rightarrow> rune list" where
  "utf8 [] = []"
| "utf8 (b0 # bs) =
     (if b0 < 128 then b0 # utf8 bs
      else (case bs of
          [] \<Rightarrow> [runeError]
        | b1 # bs1 \<Rightarrow>
            (if \<not> second_ok b0 b1 then runeError # utf8 bs
             else if b0 < 224 then ((b0 mod 32) * 64 + b1 mod 64) # utf8 bs1
             else (case bs1 of
                 [] \<Rightarrow> runeError # utf8 bs
               | b2 # bs2 \<Rightarrow>
                   (if \<not> cont b2 then runeError # utf8 bs
                    else if b0 < 240
                    then ((b0 mod 16) * 4096 + (b1 mod 64) * 64 + b2 mod 64) # utf8 bs2
                    else (case bs2 of
                        [] \<Rightarrow> runeError # utf8 bs
                      | b3 # bs3 \<Rightarrow>
                          (if \<not> cont b3 then runeError # utf8 bs
                           else ((b0 mod 8) * 262144 + (b1 mod 64) * 4096
                                   + (b2 mod 64) * 64 + b3 mod 64) # utf8 bs3)))))))"

text \<open>What \<open>ReadRune\<close> delivers for the bytes of a string.\<close>

definition runes :: "string \<Rightarrow> rune list" where
  "runes s = utf8 (bytes s)"

text \<open>\<open>writeRune\<close>: the UTF-8 encoding of a rune.\<close>

definition encode_rune :: "rune \<Rightarrow> string" where
  "encode_rune r =
     (let r = (if (55296 \<le> r \<and> r < 57344) \<or> 1114111 < r then runeError else r) in
      map char_of
       (if r < 128 then [r]
        else if r < 2048 then [192 + r div 64, 128 + r mod 64]
        else if r < 65536 then [224 + r div 4096, 128 + (r div 64) mod 64, 128 + r mod 64]
        else [240 + r div 262144, 128 + (r div 4096) mod 64, 128 + (r div 64) mod 64,
              128 + r mod 64]))"

definition encode :: "rune list \<Rightarrow> string" where
  "encode rs = concat (map encode_rune rs)"

subsection \<open>ASCII text\<close>

definition ascii :: "string \<Rightarrow> bool" where
  "ascii s \<longleftrightarrow> list_all (\<lambda>c. (of_char c :: nat) < 128) s"

lemma ascii_simps [simp]:
  "ascii []"
  "ascii (c # s) \<longleftrightarrow> (of_char c :: nat) < 128 \<and> ascii s"
  "ascii (s @ t) \<longleftrightarrow> ascii s \<and> ascii t"
  by (simp_all add: ascii_def)

lemma runes_Nil [simp]: "runes [] = []"
  by (simp add: runes_def bytes_def)

lemma runes_Cons [simp]: "(of_char c :: nat) < 128 \<Longrightarrow> runes (c # s) = of_char c # runes s"
  by (simp add: runes_def bytes_def)

lemma runes_append: "ascii s \<Longrightarrow> runes (s @ t) = runes s @ runes t"
  by (induction s) auto

lemma runes_ascii: "ascii s \<Longrightarrow> runes s = map of_char s"
  by (induction s) auto

lemma encode_ascii: "ascii s \<Longrightarrow> encode (map of_char s) = s"
  by (induction s) (auto simp: encode_def encode_rune_def Let_def)

lemma encode_runes: "ascii s \<Longrightarrow> encode (runes s) = s"
  by (simp add: runes_ascii encode_ascii)

lemma runes_eq_Nil: "ascii s \<Longrightarrow> runes s = [] \<longleftrightarrow> s = []"
  by (simp add: runes_ascii)

end
