(* ===== verification/Fmt_Print.thy ===== *)
theory Fmt_Print
  imports Utf8
begin

text \<open>
  The part of package fmt's printing that the repository uses: \<open>Fprintf\<close> and
  \<open>Sprintf\<close> with the verbs \<open>%d\<close> and \<open>%s\<close> over integers and strings.  Values whose
  type only matters for the text of a diagnostic (\<open>%!d(string=hi)\<close> and its kin) print as
  package fmt documents it.
\<close>

datatype farg = FInt int | FStr string

subsection \<open>Decimal numbers\<close>

definition digit :: "nat \<Rightarrow> char" where
  "digit d = char_of (48 + d)"

fun dec :: "nat \<Rightarrow> string" where
  "dec n = (if n < 10 then [digit n] else dec (n div 10) @ [digit (n mod 10)])"

declare dec.simps [simp del]

definition itoa :: "int \<Rightarrow> string" where
  "itoa i = (if i < 0 then CHR ''-'' # dec (nat (- i)) else dec (nat i))"

subsection \<open>Formats\<close>

fun extra_args :: "farg list \<Rightarrow> string" where
  "extra_args [] = []"
| "extra_args [FInt i] = ''int='' @ itoa i"
| "extra_args [FStr s] = ''string='' @ s"
| "extra_args (FInt i # xs) = ''int='' @ itoa i @ '', '' @ extra_args xs"
| "extra_args (FStr s # xs) = ''string='' @ s @ '', '' @ extra_args xs"

fun print_arg :: "char \<Rightarrow> farg \<Rightarrow> string" where
  "print_arg v (FInt i) =
     (if v = CHR ''d'' then itoa i else ''%!'' @ [v] @ ''(int='' @ itoa i @ '')'')"
| "print_arg v (FStr s) =
     (if v = CHR ''s'' then s else ''%!'' @ [v] @ ''(string='' @ s @ '')'')"

fun sprintf :: "string \<Rightarrow> farg list \<Rightarrow> string" where
  "sprintf [] xs = (if xs = [] then [] else ''%!(EXTRA '' @ extra_args xs @ '')'')"
| "sprintf [c] xs =
     (if c = CHR ''%'' then ''%!(NOVERB)'' else [c]) @ sprintf [] xs"
| "sprintf (c # v # f) xs =
     (if c \<noteq> CHR ''%'' then c # sprintf (v # f) xs
      else if v = CHR ''%'' then CHR ''%'' # sprintf f xs
      else (case xs of
          [] \<Rightarrow> ''%!'' @ [v] @ ''(MISSING)'' @ sprintf f []
        | x # xs' \<Rightarrow> print_arg v x @ sprintf f xs'))"

subsection \<open>Facts about decimal text\<close>

lemma of_char_digit [simp]: "d < 10 \<Longrightarrow> (of_char (digit d) :: nat) = 48 + d"
  by (simp add: digit_def)

lemma dec_less10: "n < 10 \<Longrightarrow> dec n = [digit n]"
  by (simp add: dec.simps [of n])

lemma dec_step: "\<not> n < 10 \<Longrightarrow> dec n = dec (n div 10) @ [digit (n mod 10)]"
  by (simp add: dec.simps [of n])

lemma dec_digits: "\<forall>c\<in>set (dec n). 48 \<le> (of_char c :: nat) \<and> (of_char c :: nat) < 58"
proof (induction n rule: dec.induct)
  case (1 n)
  then show ?case by (cases "n < 10") (auto simp: dec_less10 dec_step)
qed

lemma dec_not_Nil [simp]: "dec n \<noteq> []"
  by (cases "n < 10") (simp_all add: dec_less10 dec_step)

lemma ascii_dec [simp]: "ascii (dec n)"
  using dec_digits [of n] by (force simp: ascii_def list_all_iff)

lemma ascii_itoa [simp]: "ascii (itoa i)"
  by (simp add: itoa_def)

lemma itoa_not_Nil [simp]: "itoa i \<noteq> []"
  by (simp add: itoa_def)

end
