(* ===== verification/Fmt_Scan.thy ===== *)
theory Fmt_Scan
  imports Fmt_Print
begin

text \<open>
  The part of package fmt's scanning that the repository uses: \<open>Fscanf\<close> with \<open>%d\<close> and
  \<open>%s\<close>, and \<open>Fscanln\<close> of one string.  The input is the list of runes that
  \<open>ReadRune\<close> delivers up to the end of the stream; what a failing scan has consumed stays
  consumed.  \<open>UnreadRune\<close> is returning the longer list.  The scanner's limit of
  \<open>2^30\<close> runes per call is not modelled.
\<close>

text \<open>\<open>isSpace\<close> of fmt/scan.go.\<close>

definition isSpace :: "rune \<Rightarrow> bool" where
  "isSpace r \<longleftrightarrow>
     (9 \<le> r \<and> r \<le> 13) \<or> r = 32 \<or> r = 133 \<or> r = 160 \<or> r = 5760
     \<or> (8192 \<le> r \<and> r \<le> 8202) \<or> r = 8232 \<or> r = 8233 \<or> r = 8239 \<or> r = 8287 \<or> r = 12288"

definition isDigit :: "rune \<Rightarrow> bool" where
  "isDigit r \<longleftrightarrow> 48 \<le> r \<and> r < 58"

subsection \<open>Operands\<close>

text \<open>\<open>SkipSpace\<close> for \<open>Fscanf\<close> and \<open>Fscanln\<close>, where a newline is not a space.\<close>

fun SkipSpace :: "(rune list, unit) go" where
  "SkipSpace [] = (Ret (), [])"
| "SkipSpace (r # rs) =
     (if r = 13 \<and> (case rs of [] \<Rightarrow> False | r' # _ \<Rightarrow> r' = 10) then SkipSpace rs
      else if r = 10 then (Fail (Scan SUnexpectedNewline), rs)
      else if isSpace r then SkipSpace rs
      else (Ret (), r # rs))"

definition notEOF :: "(rune list, unit) go" where
  "notEOF rs = (if rs = [] then (Fail (Scan SEOF), rs) else (Ret (), rs))"

text \<open>\<open>token(true, notSpace)\<close>: the next word.\<close>

definition scan_word :: "(rune list, string) go" where
  "scan_word =
     seqM SkipSpace (\<lambda>_. seqM notEOF (\<lambda>_. \<lambda>rs.
       (Ret (encode (takeWhile (\<lambda>r. \<not> isSpace r) rs)), dropWhile (\<lambda>r. \<not> isSpace r) rs)))"

text \<open>\<open>accept(sign)\<close>: whether a minus sign was read.\<close>

definition accept_sign :: "(rune list, bool) go" where
  "accept_sign rs =
     (case rs of
        [] \<Rightarrow> (Ret False, [])
      | r # rs' \<Rightarrow> if r = 45 then (Ret True, rs') else if r = 43 then (Ret False, rs')
                  else (Ret False, rs))"

text \<open>\<open>scanNumber\<close> followed by the decimal value of the digits.\<close>

definition digits_val :: "rune list \<Rightarrow> nat" where
  "digits_val ds = foldl (\<lambda>v d. 10 * v + (d - 48)) 0 ds"

definition scan_digits :: "(rune list, nat) go" where
  "scan_digits =
     seqM notEOF (\<lambda>_. \<lambda>rs.
       if isDigit (hd rs)
       then (Ret (digits_val (takeWhile isDigit rs)), dropWhile isDigit rs)
       else (Fail (Scan SExpectedInteger), rs))"

text \<open>\<open>scanInt\<close>: \<open>ParseInt\<close> into 64 bits, then the width of the operand.\<close>

definition scan_int :: "nat \<Rightarrow> (rune list, int) go" where
  "scan_int bits =
     seqM SkipSpace (\<lambda>_. seqM notEOF (\<lambda>_. seqM accept_sign (\<lambda>neg. seqM scan_digits (\<lambda>n.
       let i = (if neg then - int n else int n) in
       if \<not> int64 i then fail (Scan SIntRange)
       else if - (2 ^ (bits - 1)) \<le> i \<and> i < 2 ^ (bits - 1) then ret i
       else fail (Scan SIntOverflow)))))"

definition scan_uint :: "nat \<Rightarrow> (rune list, int) go" where
  "scan_uint bits =
     seqM SkipSpace (\<lambda>_. seqM notEOF (\<lambda>_. seqM scan_digits (\<lambda>n.
       if 2 ^ 64 \<le> n then fail (Scan SIntRange)
       else if n < 2 ^ bits then ret (int n)
       else fail (Scan SIntOverflow))))"

text \<open>The types of operand pointers, and the values stored through them.\<close>

datatype operand = KInt nat | KUint nat | KString

datatype sval = VInt int | VStr string

fun scanOne :: "rune \<Rightarrow> operand \<Rightarrow> (rune list, sval) go" where
  "scanOne v (KInt bits) =
     (if v = 100 then seqM (scan_int bits) (\<lambda>i. ret (VInt i)) else fail (Scan SBadVerb))"
| "scanOne v (KUint bits) =
     (if v = 100 then seqM (scan_uint bits) (\<lambda>i. ret (VInt i)) else fail (Scan SBadVerb))"
| "scanOne v KString =
     (if v = 115 \<or> v = 118 then seqM scan_word (\<lambda>w. ret (VStr w)) else fail (Scan SBadVerb))"

subsection \<open>Formats\<close>

definition skipBlank :: "rune list \<Rightarrow> rune list" where
  "skipBlank = dropWhile (\<lambda>r. isSpace r \<and> r \<noteq> 10)"

text \<open>A newline of the format: spaces, then a newline or the end of the input.\<close>

definition match_newline :: "(rune list, unit) go" where
  "match_newline rs =
     (case skipBlank rs of
        [] \<Rightarrow> (Ret (), [])
      | r # rs' \<Rightarrow> if r = 10 then (Ret (), rs') else (Fail (Scan SNewlineMismatch), rs'))"

fun match_newlines :: "nat \<Rightarrow> (rune list, unit) go" where
  "match_newlines 0 = ret ()"
| "match_newlines (Suc n) = seqM match_newline (\<lambda>_. match_newlines n)"

text \<open>Spaces of the format that stand alone match at least one space of the input.\<close>

definition match_spaces :: "(rune list, unit) go" where
  "match_spaces rs =
     (case rs of
        [] \<Rightarrow> (Ret (), [])
      | r # rs' \<Rightarrow>
          if \<not> isSpace r then (Fail (Scan SExpectedSpace), rs')
          else if r = 10 then (Fail (Scan SNewlineInInput), rs')
          else (Ret (), skipBlank rs'))"

text \<open>One run of space characters of the format (the first half of \<open>advance\<close>).\<close>

definition advance_space :: "rune list \<Rightarrow> (rune list, unit) go" where
  "advance_space run =
     (let newlines = length (filter (\<lambda>r. r = 10) run); trailing = (last run \<noteq> 10) in
      seqM (match_newlines newlines) (\<lambda>_.
        if \<not> trailing then ret ()
        else if newlines = 0 then match_spaces
        else (\<lambda>rs. (Ret (), skipBlank rs))))"

text \<open>A literal of the format (the second half of \<open>advance\<close>).\<close>

definition advance_literal :: "rune \<Rightarrow> (rune list, unit) go" where
  "advance_literal c rs =
     (case rs of
        [] \<Rightarrow> (Fail (Scan SUnexpectedEOF), [])
      | r # rs' \<Rightarrow> if r = c then (Ret (), rs') else (Fail (Scan SNoMatch), rs))"

function doScanf :: "rune list \<Rightarrow> operand list \<Rightarrow> (rune list, sval list) go" where
  "doScanf [] ks = ret []"
| "doScanf (c # fmt) ks =
     (if isSpace c
      then seqM (advance_space (takeWhile isSpace (c # fmt))) (\<lambda>_. doScanf (dropWhile isSpace fmt) ks)
      else if c \<noteq> 37 then seqM (advance_literal c) (\<lambda>_. doScanf fmt ks)
      else (case fmt of
          [] \<Rightarrow> fail (Scan SMissingVerb)
        | v # fmt' \<Rightarrow>
            if v = 37 then seqM (advance_literal 37) (\<lambda>_. doScanf fmt' ks)
            else seqM SkipSpace (\<lambda>_.
              case ks of
                [] \<Rightarrow> fail (Scan STooFewOperands)
              | k # ks' \<Rightarrow>
                  seqM (scanOne v k) (\<lambda>x. seqM (doScanf fmt' ks') (\<lambda>xs. ret (x # xs))))))"
  by pat_completeness auto
termination
  by (relation "measure (\<lambda>(fmt, ks). length fmt)") (auto simp: less_Suc_eq_le length_dropWhile_le)

text \<open>The result lists the operands that were stored: its length is the count \<open>n\<close>.\<close>

definition Fscanf :: "string \<Rightarrow> operand list \<Rightarrow> (rune list, sval list) go" where
  "Fscanf format ks = doScanf (runes format) ks"

text \<open>\<open>Fscanln\<close> of one string: a word, then spaces up to a newline or the end.\<close>

fun expect_newline :: "(rune list, unit) go" where
  "expect_newline [] = (Ret (), [])"
| "expect_newline (r # rs) =
     (if r = 10 then (Ret (), rs)
      else if isSpace r then expect_newline rs
      else (Fail (Scan SExpectedNewline), rs))"

definition Fscanln :: "(rune list, string) go" where
  "Fscanln = seqM scan_word (\<lambda>w. seqM expect_newline (\<lambda>_. ret w))"

end
