(* ===== verification/Fmt_Laws.thy ===== *)
theory Fmt_Laws
  imports Fmt_Scan
begin

text \<open>
  The laws of package fmt the protocol rests on: an operand that was printed is scanned
  back, and scanning stops where the operand ends.  The interface \<open>token\<close> states the
  law once; it is interpreted for integers of every operand type and for words.
\<close>

subsection \<open>What printing writes, scanning reads\<close>

text \<open>An operand ends where the rest of the input starts with a space (or is empty).\<close>

definition delimited :: "rune list \<Rightarrow> bool" where
  "delimited rest \<longleftrightarrow> (case rest of [] \<Rightarrow> True | r # _ \<Rightarrow> isSpace r)"

definition no_digit :: "rune list \<Rightarrow> bool" where
  "no_digit rest \<longleftrightarrow> (case rest of [] \<Rightarrow> True | r # _ \<Rightarrow> \<not> isDigit r)"

text \<open>A word: non-empty ASCII text without spaces.\<close>

definition word :: "string \<Rightarrow> bool" where
  "word w \<longleftrightarrow> w \<noteq> [] \<and> ascii w \<and> list_all (\<lambda>c. \<not> isSpace (of_char c)) w"

definition fits :: "operand \<Rightarrow> int \<Rightarrow> bool" where
  "fits k i \<longleftrightarrow>
     (case k of
        KInt b \<Rightarrow> b \<le> 64 \<and> - (2 ^ (b - 1)) \<le> i \<and> i < 2 ^ (b - 1)
      | KUint b \<Rightarrow> b \<le> 64 \<and> 0 \<le> i \<and> i < 2 ^ b
      | KString \<Rightarrow> False)"

lemma isSpace_digit [simp]: "isDigit r \<Longrightarrow> \<not> isSpace r"
  by (auto simp: isDigit_def isSpace_def)

lemma delimited_no_digit [simp]: "delimited rest \<Longrightarrow> no_digit rest"
  by (cases rest) (auto simp: delimited_def no_digit_def isDigit_def isSpace_def)

lemma delimited_simps [simp]:
  "delimited []" "delimited (10 # rs)" "delimited (32 # rs)"
  by (simp_all add: delimited_def isSpace_def)

lemma no_digit_simps [simp]:
  "no_digit []" "no_digit (10 # rs)" "no_digit (32 # rs)" "no_digit (46 # rs)"
  by (simp_all add: no_digit_def isDigit_def)

lemma SkipSpace_stop [simp]: "\<not> isSpace r \<Longrightarrow> r \<noteq> 10 \<Longrightarrow> r \<noteq> 13 \<Longrightarrow> SkipSpace (r # rs) = (Ret (), r # rs)"
  by (cases rs) simp_all

lemma notEOF_Cons [simp]: "notEOF (r # rs) = (Ret (), r # rs)"
  by (simp add: notEOF_def)

lemma digits_val_append: "digits_val (ds @ [d]) = 10 * digits_val ds + (d - 48)"
  by (simp add: digits_val_def)

lemma digits_val_dec: "digits_val (runes (dec n)) = n"
proof (induction n rule: dec.induct)
  case (1 n)
  show ?case
  proof (cases "n < 10")
    case True
    then show ?thesis by (simp add: dec_less10 digits_val_def)
  next
    case False
    then have "runes (dec n) = runes (dec (n div 10)) @ [48 + n mod 10]"
      by (simp add: dec_step runes_append)
    with False 1 show ?thesis by (simp add: digits_val_append)
  qed
qed

lemma isDigit_dec: "\<forall>r\<in>set (runes (dec n)). isDigit r"
  using dec_digits [of n] by (auto simp: runes_ascii isDigit_def)

lemma runes_dec_not_Nil [simp]: "runes (dec n) \<noteq> []"
  by (simp add: runes_eq_Nil)

lemma runes_dec_Cons:
  obtains d ds where "runes (dec n) = d # ds" "isDigit d"
  using isDigit_dec [of n] by (cases "runes (dec n)") auto

lemma scan_digits_dec:
  assumes "no_digit rest"
  shows "scan_digits (runes (dec n) @ rest) = (Ret n, rest)"
proof -
  obtain d ds where d: "runes (dec n) = d # ds" "isDigit d" by (rule runes_dec_Cons)
  have "takeWhile isDigit (runes (dec n) @ rest) = runes (dec n)"
    and "dropWhile isDigit (runes (dec n) @ rest) = rest"
    using isDigit_dec assms by (auto intro!: takeWhile_append_stop simp: no_digit_def split: list.splits)
  moreover have "notEOF (runes (dec n) @ rest) = (Ret (), runes (dec n) @ rest)"
    and "isDigit (hd (runes (dec n) @ rest))"
    using d by simp_all
  ultimately show ?thesis
    by (simp add: scan_digits_def seqM_def digits_val_dec)
qed

lemma skip_digits [simp]: "SkipSpace (runes (dec n) @ rest) = (Ret (), runes (dec n) @ rest)"
proof -
  obtain d ds where d: "runes (dec n) = d # ds" "isDigit d" by (rule runes_dec_Cons)
  then show ?thesis by (simp add: isDigit_def isSpace_def)
qed

lemma notEOF_digits [simp]: "notEOF (runes (dec n) @ rest) = (Ret (), runes (dec n) @ rest)"
  by (simp add: notEOF_def)

lemma accept_sign_digits [simp]:
  "accept_sign (runes (dec n) @ rest) = (Ret False, runes (dec n) @ rest)"
proof -
  obtain d ds where d: "runes (dec n) = d # ds" "isDigit d" by (rule runes_dec_Cons)
  then show ?thesis by (simp add: accept_sign_def isDigit_def)
qed

lemma runes_itoa:
  "runes (itoa i) = (if i < 0 then 45 # runes (dec (nat (- i))) else runes (dec (nat i)))"
  by (simp add: itoa_def)

lemma isSpace_minus [simp]: "\<not> isSpace 45"
  by (simp add: isSpace_def)

lemma accept_minus [simp]: "accept_sign (45 # rs) = (Ret True, rs)"
  by (simp add: accept_sign_def)

lemma fits_int64: "fits (KInt b) i \<Longrightarrow> int64 i"
proof -
  assume "fits (KInt b) i"
  then have b: "b \<le> 64" and i: "- (2 ^ (b - 1)) \<le> i" "i < 2 ^ (b - 1)"
    by (simp_all add: fits_def)
  have "(2::int) ^ (b - 1) \<le> 2 ^ 63"
    using b by (intro power_increasing) auto
  with i show ?thesis by (simp add: int64_def)
qed

lemma scan_int_itoa:
  assumes "fits (KInt b) i" and "no_digit rest"
  shows "scan_int b (runes (itoa i) @ rest) = (Ret i, rest)"
  using assms fits_int64 [OF assms(1)]
  by (simp add: scan_int_def seqM_def runes_itoa scan_digits_dec Let_def fits_def)

lemma scan_uint_itoa:
  assumes "fits (KUint b) i" and "no_digit rest"
  shows "scan_uint b (runes (itoa i) @ rest) = (Ret i, rest)"
proof -
  from assms(1) have b: "b \<le> 64" and i: "0 \<le> i" "i < 2 ^ b"
    by (simp_all add: fits_def)
  have n: "nat i < 2 ^ b" using i by (simp add: nat_less_iff)
  also have "(2::nat) ^ b \<le> 2 ^ 64" using b by (intro power_increasing) auto
  finally have "\<not> 2 ^ 64 \<le> nat i" by simp
  with n i assms(2) show ?thesis
    by (simp add: scan_uint_def seqM_def runes_itoa scan_digits_dec)
qed

lemma scan_word_word:
  assumes "word w" and "delimited rest"
  shows "scan_word (runes w @ rest) = (Ret w, rest)"
proof -
  from assms(1) have a: "ascii w" and ns: "\<forall>r\<in>set (runes w). \<not> isSpace r" and ne: "runes w \<noteq> []"
    by (auto simp: word_def runes_ascii list_all_iff)
  obtain r rs where r: "runes w = r # rs" using ne by (cases "runes w") auto
  then have "\<not> isSpace r" using ns by simp
  then have "r \<noteq> 10" and "r \<noteq> 13" by (auto simp: isSpace_def)
  with r \<open>\<not> isSpace r\<close>
  have skip: "SkipSpace (runes w @ rest) = (Ret (), runes w @ rest)" by simp
  have "takeWhile (\<lambda>r. \<not> isSpace r) (runes w @ rest) = runes w"
    and "dropWhile (\<lambda>r. \<not> isSpace r) (runes w @ rest) = rest"
    using ns assms(2)
    by (auto intro!: takeWhile_append_stop simp: delimited_def split: list.splits)
  with skip a ne show ?thesis
    by (simp add: scan_word_def seqM_def notEOF_def encode_runes)
qed

subsection \<open>The interface of a token\<close>

text \<open>
  \<open>put\<close> prints a value, \<open>get\<close> scans it, \<open>valid\<close> are the values the format can carry and
  \<open>stop\<close> says where the input after the token may begin.
\<close>

locale token =
  fixes put :: "'a \<Rightarrow> string"
    and get :: "(rune list, 'a) go"
    and valid :: "'a \<Rightarrow> bool"
    and stop :: "rune list \<Rightarrow> bool"
  assumes put_ascii: "valid x \<Longrightarrow> ascii (put x)"
    and get_put: "valid x \<Longrightarrow> stop rest \<Longrightarrow> get (runes (put x) @ rest) = (Ret x, rest)"
begin

lemma get_put_string: "valid x \<Longrightarrow> stop (runes s) \<Longrightarrow> get (runes (put x @ s)) = (Ret x, runes s)"
  by (simp add: runes_append put_ascii get_put)

lemma put_inject:
  assumes "valid x" "valid y" "stop []" "put x = put y"
  shows "x = y"
  using get_put [OF assms(1,3)] get_put [OF assms(2,3)] assms(4) by simp

end

interpretation int_token: token itoa "scan_int b" "fits (KInt b)" no_digit for b
  by unfold_locales (simp_all add: scan_int_itoa)

interpretation uint_token: token itoa "scan_uint b" "fits (KUint b)" no_digit for b
  by unfold_locales (simp_all add: scan_uint_itoa)

interpretation word_token: token "\<lambda>w. w" scan_word word delimited
  by unfold_locales (simp_all add: scan_word_word word_def)

lemma scanOne_int:
  assumes "fits k i" and "no_digit rest"
  shows "scanOne 100 k (runes (itoa i) @ rest) = (Ret (VInt i), rest)"
proof (cases k)
  case (KInt b)
  with assms show ?thesis by (simp add: seqM_def int_token.get_put)
next
  case (KUint b)
  with assms show ?thesis by (simp add: seqM_def uint_token.get_put)
next
  case KString
  with assms show ?thesis by (simp add: fits_def)
qed

lemma scanOne_word:
  assumes "word w" and "delimited rest"
  shows "scanOne 115 KString (runes w @ rest) = (Ret (VStr w), rest)"
  using assms by (simp add: seqM_def word_token.get_put)

lemma Fscanln_word: "word w \<Longrightarrow> Fscanln (runes w @ 10 # rest) = (Ret w, rest)"
  by (simp add: Fscanln_def seqM_def word_token.get_put)

end
