(* ===== verification/Base64.thy ===== *)
theory Base64
  imports Fmt_Laws
begin

text \<open>
  \<open>base64.RawURLEncoding\<close> of the standard library: the URL-safe alphabet without padding.
  The decoder skips carriage returns and newlines, is not strict about the unused bits of
  the last character, and rejects a single left-over character.
\<close>

text \<open>The character of six bits: \<open>A-Z\<close>, \<open>a-z\<close>, \<open>0-9\<close>, \<open>-\<close>, \<open>_\<close>.\<close>

definition enc6 :: "nat \<Rightarrow> char" where
  "enc6 n =
     char_of (if n < 26 then 65 + n else if n < 52 then 71 + n else if n < 62 then n - 4
              else if n = 62 then 45 else 95)"

definition dec6 :: "char \<Rightarrow> nat option" where
  "dec6 c =
     (let b = (of_char c :: nat) in
      if 65 \<le> b \<and> b < 91 then Some (b - 65)
      else if 97 \<le> b \<and> b < 123 then Some (b - 71)
      else if 48 \<le> b \<and> b < 58 then Some (b + 4)
      else if b = 45 then Some 62
      else if b = 95 then Some 63
      else None)"

fun sextets :: "nat list \<Rightarrow> nat list" where
  "sextets [] = []"
| "sextets [a] = [a div 4, (a mod 4) * 16]"
| "sextets [a, b] = [a div 4, (a mod 4) * 16 + b div 16, (b mod 16) * 4]"
| "sextets (a # b # c # bs) =
     [a div 4, (a mod 4) * 16 + b div 16, (b mod 16) * 4 + c div 64, c mod 64] @ sextets bs"

definition EncodeToString :: "string \<Rightarrow> string" where
  "EncodeToString data = map enc6 (sextets (bytes data))"

fun octets :: "nat list \<Rightarrow> nat list option" where
  "octets [] = Some []"
| "octets [a] = None"
| "octets [a, b] = Some [a * 4 + b div 16]"
| "octets [a, b, c] = Some [a * 4 + b div 16, (b mod 16) * 16 + c div 4]"
| "octets (a # b # c # d # xs) =
     map_option (\<lambda>ys. [a * 4 + b div 16, (b mod 16) * 16 + c div 4, (c mod 4) * 64 + d] @ ys)
       (octets xs)"

text \<open>\<open>those\<close> of the library: all characters decode, or none do.\<close>

definition DecodeString :: "string \<Rightarrow> string option" where
  "DecodeString s =
     Option.bind (those (map dec6 (filter (\<lambda>c. c \<noteq> CHR 0x0A \<and> c \<noteq> CHR 0x0D) s)))
       (\<lambda>xs. map_option (map char_of) (octets xs))"

subsection \<open>Round trip\<close>

lemma alphabet_char:
  assumes "n < 64"
  shows "dec6 (enc6 n) = Some n \<and> (of_char (enc6 n) :: nat) < 128
    \<and> \<not> isSpace (of_char (enc6 n)) \<and> enc6 n \<noteq> CHR 0x0A \<and> enc6 n \<noteq> CHR 0x0D"
proof -
  define b where "b = (of_char (enc6 n) :: nat)"
  have b: "b = (if n < 26 then 65 + n else if n < 52 then 71 + n else if n < 62 then n - 4
              else if n = 62 then 45 else 95)"
    using assms by (simp add: b_def enc6_def)
  have "dec6 (enc6 n) = Some n"
    using assms by (auto simp: dec6_def b_def [symmetric] Let_def b)
  moreover have "b < 128 \<and> \<not> isSpace b \<and> b \<noteq> 10 \<and> b \<noteq> 13"
    using assms by (auto simp: isSpace_def b)
  ultimately show ?thesis
    by (auto simp: b_def)
qed

lemma sextets_bound: "\<forall>b\<in>set bs. b < 256 \<Longrightarrow> \<forall>x\<in>set (sextets bs). x < 64"
proof (induction bs rule: sextets.induct)
  case (4 a b c bs)
  then have "a div 4 < 64" "b div 16 < 16" "c div 64 < 4" by auto
  moreover have "a mod 4 < 4" "b mod 16 < 16" "c mod 64 < 64" by simp_all
  ultimately show ?case using 4 by auto
next
  case (3 a b)
  then have "a div 4 < 64" "b div 16 < 16" by auto
  moreover have "a mod 4 < 4" "b mod 16 < 16" by simp_all
  ultimately show ?case by auto
next
  case (2 a)
  then have "a div 4 < 64" by auto
  moreover have "a mod 4 < 4" by simp
  ultimately show ?case by auto
qed simp

lemma join_split:
  fixes x y k :: nat
  assumes "y < k"
  shows "(x * k + y) div k = x" and "(x * k + y) mod k = y"
  using assms by simp_all

lemma octets_sextets: "\<forall>b\<in>set bs. b < 256 \<Longrightarrow> octets (sextets bs) = Some bs"
proof (induction bs rule: sextets.induct)
  case (4 a b c bs)
  then have "b div 16 < 16" "c div 64 < 4" by auto
  with 4 show ?case by (simp add: join_split)
next
  case (3 a b)
  then have "b div 16 < 16" by auto
  then show ?case by (simp add: join_split)
qed simp_all

lemma those_map_Some: "\<forall>x\<in>set xs. f (g x) = Some x \<Longrightarrow> those (map f (map g xs)) = Some xs"
  by (induction xs) auto

lemma bytes_bound: "\<forall>b\<in>set (bytes s). b < 256"
  by (auto simp: bytes_def)

lemma char_of_bytes: "map char_of (bytes s) = s"
  by (simp add: bytes_def comp_def)

lemma DecodeString_EncodeToString: "DecodeString (EncodeToString data) = Some data"
proof -
  let ?xs = "sextets (bytes data)"
  have x: "\<forall>x\<in>set ?xs. x < 64"
    by (rule sextets_bound) (rule bytes_bound)
  have "filter (\<lambda>c. c \<noteq> CHR 0x0A \<and> c \<noteq> CHR 0x0D) (map enc6 ?xs) = map enc6 ?xs"
    using x alphabet_char by (auto simp: filter_id_conv)
  moreover have "those (map dec6 (map enc6 ?xs)) = Some ?xs"
    using x alphabet_char by (intro those_map_Some) blast
  ultimately show ?thesis
    by (simp add: DecodeString_def EncodeToString_def octets_sextets bytes_bound char_of_bytes)
qed

lemma EncodeToString_Nil: "EncodeToString data = [] \<longleftrightarrow> data = []"
  by (cases "bytes data" rule: sextets.cases) (auto simp: EncodeToString_def bytes_def)

lemma word_EncodeToString: "data \<noteq> [] \<Longrightarrow> word (EncodeToString data)"
  using sextets_bound [OF bytes_bound, of data] alphabet_char
  by (auto simp: word_def ascii_def list_all_iff EncodeToString_Nil)
     (auto simp: EncodeToString_def)

interpretation base64_token:
  token EncodeToString "seqM scan_word (\<lambda>w. case DecodeString w of None \<Rightarrow> fail CorruptBase64 | Some d \<Rightarrow> ret d)"
    "\<lambda>data. data \<noteq> []" delimited
proof
  fix data :: string and rest
  assume d: "data \<noteq> []"
  then show "ascii (EncodeToString data)" using word_EncodeToString by (simp add: word_def)
  assume "delimited rest"
  with d show "seqM scan_word (\<lambda>w. case DecodeString w of None \<Rightarrow> fail CorruptBase64 | Some d \<Rightarrow> ret d)
      (runes (EncodeToString data) @ rest) = (Ret data, rest)"
    by (simp add: seqM_def scan_word_word word_EncodeToString DecodeString_EncodeToString)
qed

end
