(* ===== verification/Forest.thy ===== *)
theory Forest
  imports Base64
begin

text \<open>
  The parts of forest-go and forest-ex that the repository calls.  Their code is not in the
  repository, so they are parameters: a record of functions that the definitions using them
  take as an argument.  What a theorem needs of them is a named predicate below, and stands
  as a hypothesis in the theorem.
\<close>

text \<open>
  The dynamic type of a \<open>forest.Node\<close>, as the type switches distinguish it, with the fields
  read after the switch: \<open>Author\<close> of a community, \<open>Author\<close> and \<open>CommunityID\<close> of a reply.
\<close>

datatype 'h node_kind = IdentityNode | CommunityNode 'h | ReplyNode 'h 'h | OtherNode

record ('h, 'n) forest =
  MarshalText :: "'h \<Rightarrow> string"
  HashString :: "'h \<Rightarrow> string"
  UnmarshalText :: "string \<Rightarrow> string + 'h"
  Equals :: "'h \<Rightarrow> 'h \<Rightarrow> bool"
  NullHash :: 'h
  ID :: "'n \<Rightarrow> 'h"
  ParentID :: "'n \<Rightarrow> 'h"
  TreeDepth :: "'n \<Rightarrow> int"
  CreatedAt :: "'n \<Rightarrow> int"
  nodeKind :: "'n \<Rightarrow> 'h node_kind"
  MarshalBinary :: "'n \<Rightarrow> string"
  UnmarshalBinaryNode :: "string \<Rightarrow> string + 'n"
  NodeTypeOperand :: operand \<comment> \<open>the integer type below \<open>fields.NodeType\<close>\<close>
  NodeTypeCommunity :: int

text \<open>
  Documented behaviour of the text form of an identifier: non-empty, printable without
  spaces, and parsed back to the same identifier.
\<close>

definition hash_ok :: "('h, 'n) forest \<Rightarrow> 'h \<Rightarrow> bool" where
  "hash_ok F h \<longleftrightarrow>
     word (MarshalText F h) \<and> UnmarshalText F (MarshalText F h) = Inr h \<and>
     word (HashString F h) \<and> UnmarshalText F (HashString F h) = Inr h"

text \<open>
  Documented behaviour of the binary form of a node: non-empty, and parsed back to the same
  node; an identifier equals itself.
\<close>

definition node_ok :: "('h, 'n) forest \<Rightarrow> 'n \<Rightarrow> bool" where
  "node_ok F n \<longleftrightarrow>
     hash_ok F (ID F n) \<and> Equals F (ID F n) (ID F n) \<and>
     MarshalBinary F n \<noteq> [] \<and> UnmarshalBinaryNode F (MarshalBinary F n) = Inr n"

text \<open>\<open>Equals\<close> decides equality of identifiers.\<close>

definition equals_ok :: "('h, 'n) forest \<Rightarrow> bool" where
  "equals_ok F \<longleftrightarrow> (\<forall>a b. Equals F a b \<longleftrightarrow> a = b)"

lemma equals_okD [simp]: "equals_ok F \<Longrightarrow> Equals F a b \<longleftrightarrow> a = b"
  by (simp add: equals_ok_def)

subsection \<open>A concrete instance\<close>

text \<open>
  A small instance, used by the witnesses only: identifiers are numbers printed in decimal,
  a node is a record of its own identifier, parent, author, community, depth and time.
\<close>

datatype demo_node = DemoNode
  (demo_id: nat) (demo_parent: nat) (demo_kind: "nat node_kind") (demo_depth: int) (demo_time: int)

definition demo_parse :: "string \<Rightarrow> string + nat" where
  "demo_parse s =
     (case scan_uint 64 (runes s) of (Ret i, []) \<Rightarrow> Inr (nat i) | _ \<Rightarrow> Inl ''bad id'')"

definition demo_forest :: "(demo_node \<Rightarrow> string) \<Rightarrow> (string \<Rightarrow> string + demo_node) \<Rightarrow> (nat, demo_node) forest" where
  "demo_forest mb ub =
     \<lparr>MarshalText = dec, HashString = dec, UnmarshalText = demo_parse,
      Equals = (=), NullHash = 0, ID = demo_id, ParentID = demo_parent, TreeDepth = demo_depth,
      CreatedAt = demo_time, nodeKind = demo_kind, MarshalBinary = mb, UnmarshalBinaryNode = ub,
      NodeTypeOperand = KUint 8, NodeTypeCommunity = 2\<rparr>"

lemma word_dec: "word (dec n)"
  using isDigit_dec [of n] by (auto simp: word_def runes_ascii list_all_iff)

lemma demo_parse_dec: "n < 2 ^ 64 \<Longrightarrow> demo_parse (dec n) = Inr n"
  using scan_uint_itoa [of 64 "int n" "[]"]
  by (simp add: demo_parse_def itoa_def fits_def)

lemma demo_hash_ok: "n < 2 ^ 64 \<Longrightarrow> hash_ok (demo_forest mb ub) n"
  by (simp add: hash_ok_def demo_forest_def word_dec demo_parse_dec)

lemma demo_equals_ok: "equals_ok (demo_forest mb ub)"
  by (simp add: equals_ok_def demo_forest_def)

text \<open>An instance with one node, of the given kind.\<close>

definition one_node :: demo_node where
  "one_node = DemoNode 7 0 IdentityNode 0 0"

definition one_forest :: "(nat, demo_node) forest" where
  "one_forest = demo_forest (\<lambda>_. ''n'') (\<lambda>_. Inr one_node)"

lemma one_hash_ok [simp]: "n < 2 ^ 64 \<Longrightarrow> hash_ok one_forest n"
  by (simp add: one_forest_def demo_hash_ok)

lemma one_node_ok [simp]: "node_ok one_forest one_node"
  using one_hash_ok [of 7] by (simp add: node_ok_def one_forest_def demo_forest_def one_node_def)

lemma one_equals_ok [simp]: "equals_ok one_forest"
  by (simp add: one_forest_def demo_equals_ok)

lemma one_operand [simp]: "NodeTypeOperand one_forest = KUint 8"
  by (simp add: one_forest_def demo_forest_def)

end
