(* ===== verification/Conn.thy ===== *)
theory Conn
  imports Forest
begin

text \<open>
  The connection of sprout.go: verbs and formats, the state of a \<open>Conn\<close>, message
  identifiers, the table of pending requests, and every \<open>Send\<close> operation.

  \<open>BufferedConn\<close> holds the runes still to be read, \<open>written\<close> the bytes handed to the
  transport.  \<open>writeFaults\<close> is the environment's choice for the coming writes: \<open>None\<close>
  succeeds, \<open>Some k\<close> fails after \<open>k\<close> bytes; once the list is used up writes succeed.
  A channel is a number; \<open>answered\<close> lists the values sent on response channels (each of
  which is closed right after), in order.
\<close>

subsection \<open>Verbs, formats, status codes\<close>

definition CurrentMajor :: int where "CurrentMajor = 0"
definition CurrentMinor :: int where "CurrentMinor = 0"

definition VersionVerb :: string where "VersionVerb = ''version''"
definition ListVerb :: string where "ListVerb = ''list''"
definition QueryVerb :: string where "QueryVerb = ''query''"
definition AncestryVerb :: string where "AncestryVerb = ''ancestry''"
definition LeavesOfVerb :: string where "LeavesOfVerb = ''leaves_of''"
definition SubscribeVerb :: string where "SubscribeVerb = ''subscribe''"
definition UnsubscribeVerb :: string where "UnsubscribeVerb = ''unsubscribe''"
definition AnnounceVerb :: string where "AnnounceVerb = ''announce''"
definition ResponseVerb :: string where "ResponseVerb = ''response''"
definition StatusVerb :: string where "StatusVerb = ''status''"

lemmas verb_defs =
  VersionVerb_def ListVerb_def QueryVerb_def AncestryVerb_def LeavesOfVerb_def
  SubscribeVerb_def UnsubscribeVerb_def AnnounceVerb_def ResponseVerb_def StatusVerb_def

definition formats :: "string \<Rightarrow> string" where
  "formats verb =
     (if verb = VersionVerb then '' %d %d.%d\<newline>''
      else if verb = ListVerb then '' %d %d %d\<newline>''
      else if verb = QueryVerb then '' %d %d\<newline>''
      else if verb = AncestryVerb then '' %d %s %d\<newline>''
      else if verb = LeavesOfVerb then '' %d %s %d\<newline>''
      else if verb = SubscribeVerb then '' %d %s\<newline>''
      else if verb = UnsubscribeVerb then '' %d %s\<newline>''
      else if verb = AnnounceVerb then '' %d %d\<newline>''
      else if verb = ResponseVerb then '' %d %d\<newline>''
      else if verb = StatusVerb then '' %d %d\<newline>''
      else [])"

lemma formats_simps [simp]:
  "formats VersionVerb = '' %d %d.%d\<newline>''" "formats ListVerb = '' %d %d %d\<newline>''"
  "formats QueryVerb = '' %d %d\<newline>''" "formats AncestryVerb = '' %d %s %d\<newline>''"
  "formats LeavesOfVerb = '' %d %s %d\<newline>''" "formats SubscribeVerb = '' %d %s\<newline>''"
  "formats UnsubscribeVerb = '' %d %s\<newline>''" "formats AnnounceVerb = '' %d %d\<newline>''"
  "formats ResponseVerb = '' %d %d\<newline>''" "formats StatusVerb = '' %d %d\<newline>''"
  by (simp_all add: formats_def verb_defs)

definition StatusOk :: int where "StatusOk = 0"
definition ErrorMalformed :: int where "ErrorMalformed = 1"
definition ErrorProtocolTooOld :: int where "ErrorProtocolTooOld = 2"
definition ErrorProtocolTooNew :: int where "ErrorProtocolTooNew = 3"
definition ErrorUnknownNode :: int where "ErrorUnknownNode = 4"

lemmas status_defs =
  StatusOk_def ErrorMalformed_def ErrorProtocolTooOld_def ErrorProtocolTooNew_def
  ErrorUnknownNode_def

definition StatusCode_String :: "int \<Rightarrow> string" where
  "StatusCode_String s =
     (let description =
        (if s = StatusOk then ''ok''
         else if s = ErrorMalformed then ''malformed protocol message''
         else if s = ErrorProtocolTooOld then ''protocol too old''
         else if s = ErrorProtocolTooNew then ''protocol too new''
         else if s = ErrorUnknownNode then ''referenced unknown node''
         else [])
      in sprintf ''status code %d (%s)'' [FInt s, FStr description])"

definition Status_Error :: "int \<Rightarrow> string" where
  "Status_Error code = sprintf ''%s'' [FStr (StatusCode_String code)]"

subsection \<open>State\<close>

text \<open>What travels over a response channel: a \<open>Status\<close> or a \<open>Response\<close>.\<close>

datatype 'n reply = StatusReply int | ResponseReply "'n list"

record 'n conn =
  Major :: int
  Minor :: int
  nextMessageID :: int
  PendingStatus :: "int \<rightharpoonup> nat"
  nextChan :: nat
  BufferedConn :: "rune list"
  written :: string
  writeFaults :: "nat option list"
  answered :: "(nat \<times> 'n reply) list"

definition NewConn :: "rune list \<Rightarrow> nat option list \<Rightarrow> 'n conn" where
  "NewConn transport faults =
     \<lparr>Major = CurrentMajor, Minor = CurrentMinor, nextMessageID = 0,
      PendingStatus = Map.empty, nextChan = 0, BufferedConn = transport, written = [],
      writeFaults = faults, answered = []\<rparr>"

text \<open>One \<open>Write\<close> call on the transport.\<close>

definition writeConn :: "string \<Rightarrow> (('n, 'x) conn_scheme, unit) go" where
  "writeConn bs s =
     (case writeFaults s of
        [] \<Rightarrow> (Ret (), s\<lparr>written := written s @ bs\<rparr>)
      | None # fs \<Rightarrow> (Ret (), s\<lparr>written := written s @ bs, writeFaults := fs\<rparr>)
      | Some k # fs \<Rightarrow>
          (Fail (External ''write''), s\<lparr>written := written s @ take k bs, writeFaults := fs\<rparr>))"

subsection \<open>Messages out\<close>

definition getNextMessageID :: "(('n, 'x) conn_scheme, int) go" where
  "getNextMessageID s = (Ret (nextMessageID s), s\<lparr>nextMessageID := wrap64 (nextMessageID s + 1)\<rparr>)"

definition writeMessageWithID ::
    "int \<Rightarrow> string \<Rightarrow> string \<Rightarrow> farg list \<Rightarrow> (('n, 'x) conn_scheme, int) go" where
  "writeMessageWithID messageID verb format fmtArgs =
     onErr (Flattened (InConn (FailedToSend verb)))
       (seqM (writeConn (sprintf format (FInt messageID # fmtArgs))) (\<lambda>_. ret messageID))"

definition writeMessage :: "string \<Rightarrow> string \<Rightarrow> farg list \<Rightarrow> (('n, 'x) conn_scheme, int) go" where
  "writeMessage verb format fmtArgs =
     seqM getNextMessageID (\<lambda>messageID. writeMessageWithID messageID verb format fmtArgs)"

text \<open>The three results of an asynchronous send: the channel, the identifier, the error.\<close>

type_synonym async = "nat \<times> int \<times> err option"

text \<open>\<open>make(chan interface{})\<close> followed by \<open>PendingStatus.Store\<close>.\<close>

definition storePending :: "int \<Rightarrow> (('n, 'x) conn_scheme, nat) go" where
  "storePending messageID s =
     (Ret (nextChan s),
      s\<lparr>nextChan := Suc (nextChan s), PendingStatus := (PendingStatus s)(messageID \<mapsto> nextChan s)\<rparr>)"

text \<open>The error result of a call as a value.\<close>

definition errorOf :: "('s, 'a) go \<Rightarrow> ('s, err option) go" where
  "errorOf m s =
     (case m s of
        (Ret _, s') \<Rightarrow> (Ret None, s')
      | (Fail e, s') \<Rightarrow> (Ret (Some e), s')
      | (Panic p, s') \<Rightarrow> (Panic p, s'))"

definition writeMessageAsync ::
    "string \<Rightarrow> string \<Rightarrow> farg list \<Rightarrow> (('n, 'x) conn_scheme, async) go" where
  "writeMessageAsync verb format fmtArgs =
     seqM getNextMessageID (\<lambda>messageID.
     seqM (storePending messageID) (\<lambda>responseChan.
     seqM (errorOf (writeMessageWithID messageID verb format fmtArgs)) (\<lambda>err.
       ret (responseChan, messageID, err))))"

definition Cancel :: "int \<Rightarrow> (('n, 'x) conn_scheme, unit) go" where
  "Cancel messageID s = (Ret (), s\<lparr>PendingStatus := (PendingStatus s)(messageID := None)\<rparr>)"

subsection \<open>Waiting for the answer\<close>

text \<open>Which case of the \<open>select\<close> statement fires.\<close>

datatype 'n wakeup = Received "'n reply" | TimeoutFired

definition handleExpectedStatus ::
    "string \<Rightarrow> 'n wakeup \<Rightarrow> async \<Rightarrow> (('n, 'x) conn_scheme, unit) go" where
  "handleExpectedStatus op wake a =
     (case a of (statusChan, messageID, err) \<Rightarrow>
       (case err of
          Some e \<Rightarrow> fail (Wrapped (InConn (FailedSending op)) e)
        | None \<Rightarrow>
            (case wake of
               Received (StatusReply code) \<Rightarrow>
                 if code \<noteq> StatusOk then fail (StatusError code) else ret ()
             | Received (ResponseReply _) \<Rightarrow> fail NonStatus
             | TimeoutFired \<Rightarrow> seqM (Cancel messageID) (\<lambda>_. fail (TimedOut op)))))"

definition handleExpectedResponse ::
    "string \<Rightarrow> 'n wakeup \<Rightarrow> async \<Rightarrow> (('n, 'x) conn_scheme, 'n list) go" where
  "handleExpectedResponse op wake a =
     (case a of (resultChan, messageID, err) \<Rightarrow>
       (case err of
          Some e \<Rightarrow> fail (Wrapped (InConn (FailedSending op)) e)
        | None \<Rightarrow>
            (case wake of
               Received (ResponseReply nodes) \<Rightarrow> ret nodes
             | Received (StatusReply code) \<Rightarrow>
                 if code \<noteq> StatusOk then fail (StatusError code) else fail StatusOkNotResponse
             | TimeoutFired \<Rightarrow> seqM (Cancel messageID) (\<lambda>_. fail (TimedOut op)))))"

end
