(* ===== verification/Send.thy ===== *)
theory Send
  imports Conn
begin

text \<open>
  The \<open>Send\<close> operations of a \<open>Conn\<close> (sprout.go), asynchronous and synchronous, and the
  text they put on the wire.  A synchronous operation takes as its last argument the case
  of the \<open>select\<close> statement that fires (\<open>wakeup\<close>), which stands for its timeout channel.
\<close>

subsection \<open>Text of nodes and identifiers\<close>

definition stringifyNodeIDs :: "('h, 'n) forest \<Rightarrow> 'h list \<Rightarrow> string" where
  "stringifyNodeIDs F nodeIds = concat (map (\<lambda>nodeId. MarshalText F nodeId @ ''\<newline>'') nodeIds)"

definition nodeLineFormat :: string where
  "nodeLineFormat = ''%s %s\<newline>''"

definition nodeLine :: "('h, 'n) forest \<Rightarrow> 'n \<Rightarrow> string" where
  "nodeLine F n =
     sprintf nodeLineFormat
       [FStr (MarshalText F (ID F n)), FStr (EncodeToString (MarshalBinary F n))]"

definition stringifyNodes :: "('h, 'n) forest \<Rightarrow> 'n list \<Rightarrow> string" where
  "stringifyNodes F nodes = concat (map (nodeLine F) nodes)"

subsection \<open>Asynchronous operations\<close>

definition SendVersionAsync :: "(('n, 'x) conn_scheme, async) go" where
  "SendVersionAsync s =
     writeMessageAsync VersionVerb (VersionVerb @ formats VersionVerb)
       [FInt (Major s), FInt (Minor s)] s"

definition SendListAsync :: "int \<Rightarrow> int \<Rightarrow> (('n, 'x) conn_scheme, async) go" where
  "SendListAsync nodeType quantity =
     writeMessageAsync ListVerb (ListVerb @ formats ListVerb) [FInt nodeType, FInt quantity]"

definition SendQueryAsync :: "('h, 'n) forest \<Rightarrow> 'h list \<Rightarrow> (('n, 'x) conn_scheme, async) go" where
  "SendQueryAsync F nodeIds =
     writeMessageAsync QueryVerb (QueryVerb @ formats QueryVerb @ ''%s'')
       [FInt (int (length nodeIds)), FStr (stringifyNodeIDs F nodeIds)]"

definition SendAncestryAsync :: "('h, 'n) forest \<Rightarrow> 'h \<Rightarrow> int \<Rightarrow> (('n, 'x) conn_scheme, async) go" where
  "SendAncestryAsync F nodeID levels =
     writeMessageAsync AncestryVerb (AncestryVerb @ formats AncestryVerb)
       [FStr (HashString F nodeID), FInt levels]"

definition SendLeavesOfAsync :: "('h, 'n) forest \<Rightarrow> 'h \<Rightarrow> int \<Rightarrow> (('n, 'x) conn_scheme, async) go" where
  "SendLeavesOfAsync F nodeId quantity =
     writeMessageAsync LeavesOfVerb (LeavesOfVerb @ formats LeavesOfVerb)
       [FStr (HashString F nodeId), FInt quantity]"

definition subscribeOpIDAsync ::
    "('h, 'n) forest \<Rightarrow> string \<Rightarrow> 'h \<Rightarrow> (('n, 'x) conn_scheme, async) go" where
  "subscribeOpIDAsync F op community =
     writeMessageAsync op (op @ formats op) [FStr (HashString F community)]"

definition subscribeOpAsync ::
    "('h, 'n) forest \<Rightarrow> string \<Rightarrow> 'n \<Rightarrow> (('n, 'x) conn_scheme, async) go" where
  "subscribeOpAsync F op community = subscribeOpIDAsync F op (ID F community)"

definition SendSubscribeAsync :: "('h, 'n) forest \<Rightarrow> 'n \<Rightarrow> (('n, 'x) conn_scheme, async) go" where
  "SendSubscribeAsync F community = subscribeOpAsync F SubscribeVerb community"

definition SendUnsubscribeAsync :: "('h, 'n) forest \<Rightarrow> 'n \<Rightarrow> (('n, 'x) conn_scheme, async) go" where
  "SendUnsubscribeAsync F community = subscribeOpAsync F UnsubscribeVerb community"

definition SendSubscribeByIDAsync :: "('h, 'n) forest \<Rightarrow> 'h \<Rightarrow> (('n, 'x) conn_scheme, async) go" where
  "SendSubscribeByIDAsync F community = subscribeOpIDAsync F SubscribeVerb community"

definition SendUnsubscribeByIDAsync :: "('h, 'n) forest \<Rightarrow> 'h \<Rightarrow> (('n, 'x) conn_scheme, async) go" where
  "SendUnsubscribeByIDAsync F community = subscribeOpIDAsync F UnsubscribeVerb community"

definition SendAnnounceAsync :: "('h, 'n) forest \<Rightarrow> 'n list \<Rightarrow> (('n, 'x) conn_scheme, async) go" where
  "SendAnnounceAsync F nodes =
     writeMessageAsync AnnounceVerb (AnnounceVerb @ formats AnnounceVerb @ ''%s'')
       [FInt (int (length nodes)), FStr (stringifyNodes F nodes)]"

subsection \<open>Answers\<close>

definition SendResponse :: "('h, 'n) forest \<Rightarrow> int \<Rightarrow> 'n list \<Rightarrow> (('n, 'x) conn_scheme, unit) go" where
  "SendResponse F msgID nodes =
     seqM (writeMessageWithID msgID ResponseVerb (ResponseVerb @ formats ResponseVerb @ ''%s'')
             [FInt (int (length nodes)), FStr (concat (map (nodeLine F) nodes))])
       (\<lambda>_. ret ())"

definition SendStatus :: "int \<Rightarrow> int \<Rightarrow> (('n, 'x) conn_scheme, unit) go" where
  "SendStatus targetMessageID errorCode =
     seqM (writeMessageWithID targetMessageID StatusVerb (StatusVerb @ formats StatusVerb)
             [FInt errorCode])
       (\<lambda>_. ret ())"

subsection \<open>Synchronous operations\<close>

definition SendVersion :: "'n wakeup \<Rightarrow> (('n, 'x) conn_scheme, unit) go" where
  "SendVersion wake = seqM SendVersionAsync (handleExpectedStatus VersionVerb wake)"

definition SendList :: "int \<Rightarrow> int \<Rightarrow> 'n wakeup \<Rightarrow> (('n, 'x) conn_scheme, 'n list) go" where
  "SendList nodeType quantity wake =
     seqM (SendListAsync nodeType quantity) (handleExpectedResponse ListVerb wake)"

definition SendQuery :: "('h, 'n) forest \<Rightarrow> 'h list \<Rightarrow> 'n wakeup \<Rightarrow> (('n, 'x) conn_scheme, 'n list) go" where
  "SendQuery F nodeIds wake = seqM (SendQueryAsync F nodeIds) (handleExpectedResponse QueryVerb wake)"

definition SendAncestry ::
    "('h, 'n) forest \<Rightarrow> 'h \<Rightarrow> int \<Rightarrow> 'n wakeup \<Rightarrow> (('n, 'x) conn_scheme, 'n list) go" where
  "SendAncestry F nodeID levels wake =
     seqM (SendAncestryAsync F nodeID levels) (handleExpectedResponse AncestryVerb wake)"

definition SendLeavesOf ::
    "('h, 'n) forest \<Rightarrow> 'h \<Rightarrow> int \<Rightarrow> 'n wakeup \<Rightarrow> (('n, 'x) conn_scheme, 'n list) go" where
  "SendLeavesOf F nodeId quantity wake =
     seqM (SendLeavesOfAsync F nodeId quantity) (handleExpectedResponse LeavesOfVerb wake)"

definition subscribeOpID ::
    "('h, 'n) forest \<Rightarrow> string \<Rightarrow> 'h \<Rightarrow> 'n wakeup \<Rightarrow> (('n, 'x) conn_scheme, unit) go" where
  "subscribeOpID F op community wake =
     seqM (subscribeOpIDAsync F op community) (handleExpectedStatus op wake)"

definition subscribeOp ::
    "('h, 'n) forest \<Rightarrow> string \<Rightarrow> 'n \<Rightarrow> 'n wakeup \<Rightarrow> (('n, 'x) conn_scheme, unit) go" where
  "subscribeOp F op community wake = subscribeOpID F op (ID F community) wake"

definition SendSubscribe :: "('h, 'n) forest \<Rightarrow> 'n \<Rightarrow> 'n wakeup \<Rightarrow> (('n, 'x) conn_scheme, unit) go" where
  "SendSubscribe F community wake = subscribeOp F SubscribeVerb community wake"

definition SendUnsubscribe :: "('h, 'n) forest \<Rightarrow> 'n \<Rightarrow> 'n wakeup \<Rightarrow> (('n, 'x) conn_scheme, unit) go" where
  "SendUnsubscribe F community wake = subscribeOp F UnsubscribeVerb community wake"

definition SendSubscribeByID :: "('h, 'n) forest \<Rightarrow> 'h \<Rightarrow> 'n wakeup \<Rightarrow> (('n, 'x) conn_scheme, unit) go" where
  "SendSubscribeByID F community wake = subscribeOpID F SubscribeVerb community wake"

definition SendUnsubscribeByID :: "('h, 'n) forest \<Rightarrow> 'h \<Rightarrow> 'n wakeup \<Rightarrow> (('n, 'x) conn_scheme, unit) go" where
  "SendUnsubscribeByID F community wake = subscribeOpID F UnsubscribeVerb community wake"

definition SendAnnounce :: "('h, 'n) forest \<Rightarrow> 'n list \<Rightarrow> 'n wakeup \<Rightarrow> (('n, 'x) conn_scheme, unit) go" where
  "SendAnnounce F nodes wake =
     seqM (SendAnnounceAsync F nodes) (handleExpectedStatus AnnounceVerb wake)"

end
