(* ===== verification/Receive.thy ===== *)
theory Receive
  imports Send
begin

text \<open>
  The read side of a \<open>Conn\<close> (sprout.go): \<open>ReadMessage\<close> with one definition per case of
  its switch, the readers of node and identifier lists, and the delivery of answers.  The
  \<open>On...\<close> fields of a \<open>Conn\<close> are the record \<open>hooks\<close>; a field that is \<open>None\<close> is nil.
\<close>

record ('h, 'n, 's) hooks =
  onVersion :: "(int \<Rightarrow> int \<Rightarrow> int \<Rightarrow> ('s, unit) go) option"
  onList :: "(int \<Rightarrow> int \<Rightarrow> int \<Rightarrow> ('s, unit) go) option"
  onQuery :: "(int \<Rightarrow> 'h list \<Rightarrow> ('s, unit) go) option"
  onAncestry :: "(int \<Rightarrow> 'h \<Rightarrow> int \<Rightarrow> ('s, unit) go) option"
  onLeavesOf :: "(int \<Rightarrow> 'h \<Rightarrow> int \<Rightarrow> ('s, unit) go) option"
  onSubscribe :: "(int \<Rightarrow> 'h \<Rightarrow> ('s, unit) go) option"
  onUnsubscribe :: "(int \<Rightarrow> 'h \<Rightarrow> ('s, unit) go) option"
  onAnnounce :: "(int \<Rightarrow> 'n list \<Rightarrow> ('s, unit) go) option"

text \<open>A scan of \<open>s.BufferedConn\<close>.\<close>

definition onInput :: "(rune list, 'a) go \<Rightarrow> (('n, 'x) conn_scheme, 'a) go" where
  "onInput m s = (case m (BufferedConn s) of (r, rest) \<Rightarrow> (r, s\<lparr>BufferedConn := rest\<rparr>))"

text \<open>The value stored through an operand pointer.\<close>

fun vint :: "sval \<Rightarrow> int" where
  "vint (VInt i) = i"
| "vint (VStr s) = 0"

fun vstr :: "sval \<Rightarrow> string" where
  "vstr (VStr s) = s"
| "vstr (VInt i) = []"

text \<open>The operand type \<open>int\<close>, and the types with underlying type \<open>int\<close>.\<close>

abbreviation KGoInt :: operand where "KGoInt \<equiv> KInt 64"

definition scanOp :: "string \<Rightarrow> operand list \<Rightarrow> (('n, 'x) conn_scheme, sval list) go" where
  "scanOp verb operands =
     seqM (onErr (Flattened (InConn (FailedToScan verb)))
             (onInput (Fscanf (formats verb) operands)))
       (\<lambda>vs. if length vs < length operands
             then fail (ShortScan verb (length vs) (length operands)) else ret vs)"

subsection \<open>Lists of nodes and identifiers\<close>

definition NodeFromBase64URL :: "('h, 'n) forest \<Rightarrow> string \<Rightarrow> ('s, 'n) go" where
  "NodeFromBase64URL F inp =
     (case DecodeString inp of
        None \<Rightarrow> fail (Flattened (InConn DecodingNode) CorruptBase64)
      | Some b \<Rightarrow>
          lift_sum (\<lambda>e. Flattened (InConn UnmarshalNode) (External e)) (UnmarshalBinaryNode F b))"

text \<open>The body of the loop of \<open>readNodeLines\<close>.\<close>

definition readNodeLine :: "('h, 'n) forest \<Rightarrow> (rune list, 'n) go" where
  "readNodeLine F =
     seqM (onErr (Flattened (InConn ReadingNodeLine)) (Fscanf nodeLineFormat [KString, KString]))
       (\<lambda>vs. if length vs \<noteq> 2 then fail (ItemCount 2 (length vs)) else
     seqM (lift_sum (\<lambda>e. Flattened (InConn UnmarshalNodeID) (External e))
             (UnmarshalText F (vstr (vs ! 0)))) (\<lambda>id.
     seqM (onErr (Flattened (InConn ReadingNode)) (NodeFromBase64URL F (vstr (vs ! 1)))) (\<lambda>node.
       if \<not> Equals F (ID F node) id then fail IDMismatch else ret node)))"

text \<open>The body of the loop of \<open>readNodeIDs\<close>.\<close>

definition readNodeID :: "('h, 'n) forest \<Rightarrow> (rune list, 'h) go" where
  "readNodeID F =
     seqM (onErr (Flattened (InConn ReadingIDLine)) Fscanln) (\<lambda>idString.
       lift_sum (\<lambda>e. Flattened (InConn UnmarshalIDLine) (External e)) (UnmarshalText F idString))"

text \<open>A loop that fills a slice of the given length and stops at the first error.\<close>

fun fillSlice :: "nat \<Rightarrow> ('s, 'a) go \<Rightarrow> ('s, 'a list) go" where
  "fillSlice 0 body = ret []"
| "fillSlice (Suc n) body = seqM body (\<lambda>x. seqM (fillSlice n body) (\<lambda>xs. ret (x # xs)))"

definition readNodeLines :: "('h, 'n) forest \<Rightarrow> int \<Rightarrow> (rune list, 'n list) go" where
  "readNodeLines F count =
     (if makeslice_ok 16 count then fillSlice (nat count) (readNodeLine F)
      else panic MakeSliceLen)"

definition readNodeIDs :: "('h, 'n) forest \<Rightarrow> int \<Rightarrow> (rune list, 'h list) go" where
  "readNodeIDs F count =
     (if makeslice_ok 8 count then fillSlice (nat count) (readNodeID F)
      else panic MakeSliceLen)"

subsection \<open>Delivery of answers\<close>

definition sendToWaitingChannel :: "'n reply \<Rightarrow> int \<Rightarrow> (('n, 'x) conn_scheme, unit) go" where
  "sendToWaitingChannel data messageID s =
     (case PendingStatus s messageID of
        None \<Rightarrow> (Fail (UnsolicitedMessage messageID), s)
      | Some statusChan \<Rightarrow>
          (Ret (), s\<lparr>PendingStatus := (PendingStatus s)(messageID := None),
                     answered := answered s @ [(statusChan, data)]\<rparr>))"

subsection \<open>The cases of the switch\<close>

definition runHook :: "string \<Rightarrow> 'f option \<Rightarrow> ('f \<Rightarrow> ('s, unit) go) \<Rightarrow> ('s, unit) go" where
  "runHook verb hook call =
     (case hook of
        None \<Rightarrow> fail (NoHandler verb)
      | Some f \<Rightarrow> onErr (Wrapped (InConn (RunningHook verb))) (call f))"

definition unmarshalTarget :: "('h, 'n) forest \<Rightarrow> string \<Rightarrow> string \<Rightarrow> ('s, 'h) go" where
  "unmarshalTarget F verb nodeIDString =
     lift_sum (\<lambda>e. Wrapped (InConn (UnmarshalTarget verb)) (External e)) (UnmarshalText F nodeIDString)"

definition readVersion :: "('h, 'n, ('n, 'x) conn_scheme) hooks \<Rightarrow> (('n, 'x) conn_scheme, unit) go" where
  "readVersion H =
     seqM (scanOp VersionVerb [KGoInt, KGoInt, KGoInt]) (\<lambda>vs.
       runHook VersionVerb (onVersion H) (\<lambda>f. f (vint (vs ! 0)) (vint (vs ! 1)) (vint (vs ! 2))))"

definition readList ::
    "('h, 'n) forest \<Rightarrow> ('h, 'n, ('n, 'x) conn_scheme) hooks \<Rightarrow> (('n, 'x) conn_scheme, unit) go" where
  "readList F H =
     seqM (scanOp ListVerb [KGoInt, NodeTypeOperand F, KGoInt]) (\<lambda>vs.
       runHook ListVerb (onList H) (\<lambda>f. f (vint (vs ! 0)) (vint (vs ! 1)) (vint (vs ! 2))))"

definition readQuery ::
    "('h, 'n) forest \<Rightarrow> ('h, 'n, ('n, 'x) conn_scheme) hooks \<Rightarrow> (('n, 'x) conn_scheme, unit) go" where
  "readQuery F H =
     seqM (scanOp QueryVerb [KGoInt, KGoInt]) (\<lambda>vs.
     seqM (onErr (Wrapped (InConn ReadingQueryIDs)) (onInput (readNodeIDs F (vint (vs ! 1))))) (\<lambda>ids.
       runHook QueryVerb (onQuery H) (\<lambda>f. f (vint (vs ! 0)) ids)))"

definition readAncestry ::
    "('h, 'n) forest \<Rightarrow> ('h, 'n, ('n, 'x) conn_scheme) hooks \<Rightarrow> (('n, 'x) conn_scheme, unit) go" where
  "readAncestry F H =
     seqM (scanOp AncestryVerb [KGoInt, KString, KGoInt]) (\<lambda>vs.
     seqM (unmarshalTarget F AncestryVerb (vstr (vs ! 1))) (\<lambda>id.
       runHook AncestryVerb (onAncestry H) (\<lambda>f. f (vint (vs ! 0)) id (vint (vs ! 2)))))"

definition readLeavesOf ::
    "('h, 'n) forest \<Rightarrow> ('h, 'n, ('n, 'x) conn_scheme) hooks \<Rightarrow> (('n, 'x) conn_scheme, unit) go" where
  "readLeavesOf F H =
     seqM (scanOp LeavesOfVerb [KGoInt, KString, KGoInt]) (\<lambda>vs.
     seqM (unmarshalTarget F LeavesOfVerb (vstr (vs ! 1))) (\<lambda>id.
       runHook LeavesOfVerb (onLeavesOf H) (\<lambda>f. f (vint (vs ! 0)) id (vint (vs ! 2)))))"

definition readResponse :: "('h, 'n) forest \<Rightarrow> (('n, 'x) conn_scheme, unit) go" where
  "readResponse F =
     seqM (scanOp ResponseVerb [KGoInt, KGoInt]) (\<lambda>vs.
     seqM (onErr (Wrapped (InConn ReadingResponse)) (onInput (readNodeLines F (vint (vs ! 1))))) (\<lambda>nodes.
       onErr (Wrapped (InConn SendingResponseToChannel))
         (sendToWaitingChannel (ResponseReply nodes) (vint (vs ! 0)))))"

definition readSubscription ::
    "('h, 'n) forest \<Rightarrow> ('h, 'n, ('n, 'x) conn_scheme) hooks \<Rightarrow> string \<Rightarrow> (('n, 'x) conn_scheme, unit) go" where
  "readSubscription F H verb =
     seqM (scanOp verb [KGoInt, KString]) (\<lambda>vs.
     seqM (unmarshalTarget F verb (vstr (vs ! 1))) (\<lambda>id.
       let hook = (if verb = UnsubscribeVerb then onUnsubscribe H else onSubscribe H)
       in runHook verb hook (\<lambda>f. f (vint (vs ! 0)) id)))"

definition readStatus :: "(('n, 'x) conn_scheme, unit) go" where
  "readStatus =
     seqM (onErr (Wrapped (InConn ScanningStatus)) (scanOp StatusVerb [KGoInt, KGoInt])) (\<lambda>vs.
       onErr (Wrapped (InConn SendingStatusToChannel))
         (sendToWaitingChannel (StatusReply (vint (vs ! 1))) (vint (vs ! 0))))"

definition readAnnounce ::
    "('h, 'n) forest \<Rightarrow> ('h, 'n, ('n, 'x) conn_scheme) hooks \<Rightarrow> (('n, 'x) conn_scheme, unit) go" where
  "readAnnounce F H =
     seqM (scanOp AnnounceVerb [KGoInt, KGoInt]) (\<lambda>vs.
     seqM (onErr (Wrapped (InConn ParsingAnnounce)) (onInput (readNodeLines F (vint (vs ! 1))))) (\<lambda>nodes.
       runHook AnnounceVerb (onAnnounce H) (\<lambda>f. f (vint (vs ! 0)) nodes)))"

text \<open>\<open>ReadMessage\<close>: a verb that no case names falls through the switch.\<close>

definition ReadMessage ::
    "('h, 'n) forest \<Rightarrow> ('h, 'n, ('n, 'x) conn_scheme) hooks \<Rightarrow> (('n, 'x) conn_scheme, unit) go" where
  "ReadMessage F H =
     seqM (onErr (Wrapped (InConn ScanningVerb)) (onInput (Fscanf ''%s'' [KString]))) (\<lambda>vs.
       if length vs < 1 then fail NoVerb else
       let verb = vstr (vs ! 0) in
       if verb = VersionVerb then readVersion H
       else if verb = ListVerb then readList F H
       else if verb = QueryVerb then readQuery F H
       else if verb = AncestryVerb then readAncestry F H
       else if verb = LeavesOfVerb then readLeavesOf F H
       else if verb = ResponseVerb then readResponse F
       else if verb = SubscribeVerb \<or> verb = UnsubscribeVerb then readSubscription F H verb
       else if verb = StatusVerb then readStatus
       else if verb = AnnounceVerb then readAnnounce F H
       else ret ())"

end
