(* ===== verification/Wire.thy ===== *)
theory Wire
  imports Receive
begin

text \<open>
  The wire format as a specification: \<open>message\<close> is what one protocol message says,
  \<open>render\<close> its text, \<open>dispatch\<close> what receiving it does.  The \<open>Send\<close> operations write
  \<open>render\<close> of their message, and \<open>ReadMessage\<close> on such text is \<open>dispatch\<close> and leaves
  the rest of the input unread.
\<close>

subsection \<open>Scanning with the formats of the protocol\<close>

text \<open>Input that starts with something other than a space.\<close>

definition ink :: "rune list \<Rightarrow> bool" where
  "ink rs \<longleftrightarrow> (case rs of [] \<Rightarrow> False | r # _ \<Rightarrow> \<not> isSpace r)"

lemma ink_SkipSpace: "ink rs \<Longrightarrow> SkipSpace rs = (Ret (), rs)"
  by (cases rs) (auto simp: ink_def isSpace_def)

lemma ink_skipBlank: "ink rs \<Longrightarrow> skipBlank rs = rs"
  by (cases rs) (auto simp: ink_def skipBlank_def)

lemma ink_itoa [simp]: "ink (runes (itoa i) @ rest)"
proof -
  have "ink (runes (dec n) @ rest)" for n
    by (rule runes_dec_Cons [of n]) (simp add: ink_def)
  then show ?thesis by (simp add: runes_itoa) (simp add: ink_def)
qed

lemma ink_word: "word w \<Longrightarrow> ink (runes w @ rest)"
  by (cases w) (auto simp: word_def ink_def)

lemma isSpace_format [simp]:
  "isSpace 32" "isSpace 10" "\<not> isSpace 37" "\<not> isSpace 100" "\<not> isSpace 115" "\<not> isSpace 46"
  by (simp_all add: isSpace_def)

lemma match_spaces_ink: "ink rs \<Longrightarrow> match_spaces (32 # rs) = (Ret (), rs)"
  by (simp add: match_spaces_def ink_skipBlank)

lemma advance_one_space: "advance_space [32] = match_spaces"
  by (rule ext) (simp add: advance_space_def seqM_def)

lemma advance_newline: "advance_space [10] (10 # rs) = (Ret (), rs)"
  by (simp add: advance_space_def seqM_def match_newline_def skipBlank_def)

lemmas scan_rules =
  advance_one_space advance_newline match_spaces_ink ink_SkipSpace ink_word
  scanOne_int scanOne_word advance_literal_def

lemma Fscanf_version:
  assumes "fits k1 a" "fits k2 b" "fits k3 c"
  shows "Fscanf '' %d %d.%d\<newline>'' [k1, k2, k3]
     (32 # runes (itoa a) @ 32 # runes (itoa b) @ 46 # runes (itoa c) @ 10 # rest)
   = (Ret [VInt a, VInt b, VInt c], rest)"
  using assms by (simp add: Fscanf_def seqM_def scan_rules del: scanOne.simps)

lemma Fscanf_int3:
  assumes "fits k1 a" "fits k2 b" "fits k3 c"
  shows "Fscanf '' %d %d %d\<newline>'' [k1, k2, k3]
     (32 # runes (itoa a) @ 32 # runes (itoa b) @ 32 # runes (itoa c) @ 10 # rest)
   = (Ret [VInt a, VInt b, VInt c], rest)"
  using assms by (simp add: Fscanf_def seqM_def scan_rules del: scanOne.simps)

lemma Fscanf_int2:
  assumes "fits k1 a" "fits k2 b"
  shows "Fscanf '' %d %d\<newline>'' [k1, k2]
     (32 # runes (itoa a) @ 32 # runes (itoa b) @ 10 # rest)
   = (Ret [VInt a, VInt b], rest)"
  using assms by (simp add: Fscanf_def seqM_def scan_rules del: scanOne.simps)

lemma Fscanf_int_word_int:
  assumes "fits k1 a" "word w" "fits k3 c"
  shows "Fscanf '' %d %s %d\<newline>'' [k1, KString, k3]
     (32 # runes (itoa a) @ 32 # runes w @ 32 # runes (itoa c) @ 10 # rest)
   = (Ret [VInt a, VStr w, VInt c], rest)"
  using assms by (simp add: Fscanf_def seqM_def scan_rules del: scanOne.simps)

lemma Fscanf_int_word:
  assumes "fits k1 a" "word w"
  shows "Fscanf '' %d %s\<newline>'' [k1, KString]
     (32 # runes (itoa a) @ 32 # runes w @ 10 # rest)
   = (Ret [VInt a, VStr w], rest)"
  using assms by (simp add: Fscanf_def seqM_def scan_rules del: scanOne.simps)

lemma Fscanf_word2:
  assumes "word v" "word w"
  shows "Fscanf ''%s %s\<newline>'' [KString, KString] (runes v @ 32 # runes w @ 10 # rest)
   = (Ret [VStr v, VStr w], rest)"
  using assms by (simp add: Fscanf_def seqM_def scan_rules del: scanOne.simps)

lemma Fscanf_verb:
  assumes "word v" "delimited rest"
  shows "Fscanf ''%s'' [KString] (runes v @ rest) = (Ret [VStr v], rest)"
  using assms by (simp add: Fscanf_def seqM_def scan_rules del: scanOne.simps)

subsection \<open>The interface of a frame\<close>

text \<open>
  A frame delimits itself: the reader takes exactly what the writer wrote, whatever follows.
  Frames can be repeated, which is how the lists of nodes and identifiers are sent.
\<close>

locale frame =
  fixes put :: "'a \<Rightarrow> string"
    and get :: "(rune list, 'a) go"
    and valid :: "'a \<Rightarrow> bool"
  assumes put_ascii: "valid x \<Longrightarrow> ascii (put x)"
    and get_put: "valid x \<Longrightarrow> get (runes (put x) @ rest) = (Ret x, rest)"
begin

lemma ascii_all: "list_all valid xs \<Longrightarrow> ascii (concat (map put xs))"
  by (induction xs) (simp_all add: put_ascii)

lemma fill_put:
  "list_all valid xs \<Longrightarrow>
   fillSlice (length xs) get (runes (concat (map put xs)) @ rest) = (Ret xs, rest)"
proof (induction xs)
  case Nil
  then show ?case by simp
next
  case (Cons x xs)
  then show ?case by (simp add: runes_append put_ascii seqM_def get_put)
qed

end

lemma node_line_words:
  assumes "node_ok F n"
  shows "word (MarshalText F (ID F n))" and "word (EncodeToString (MarshalBinary F n))"
  using assms by (simp_all add: node_ok_def hash_ok_def word_EncodeToString)

lemma runes_nodeLine:
  assumes "node_ok F n"
  shows "runes (nodeLine F n) @ rest =
    runes (MarshalText F (ID F n)) @ 32 # runes (EncodeToString (MarshalBinary F n)) @ 10 # rest"
  using node_line_words [OF assms]
  by (simp add: nodeLine_def nodeLineFormat_def runes_append word_def)

lemma NodeFromBase64URL_encoded:
  "node_ok F n \<Longrightarrow> NodeFromBase64URL F (EncodeToString (MarshalBinary F n)) = ret n"
  by (simp add: NodeFromBase64URL_def node_ok_def DecodeString_EncodeToString)

interpretation node_line: frame "nodeLine F" "readNodeLine F" "node_ok F" for F :: "('h, 'n) forest"
proof
  fix n :: 'n and rest
  assume n: "node_ok F n"
  note w = node_line_words [OF n]
  show "ascii (nodeLine F n)"
    using w by (simp add: nodeLine_def nodeLineFormat_def word_def)
  have "Fscanf nodeLineFormat [KString, KString] (runes (nodeLine F n) @ rest)
    = (Ret [VStr (MarshalText F (ID F n)), VStr (EncodeToString (MarshalBinary F n))], rest)"
    unfolding runes_nodeLine [OF n] nodeLineFormat_def by (rule Fscanf_word2 [OF w])
  then show "readNodeLine F (runes (nodeLine F n) @ rest) = (Ret n, rest)"
    using n unfolding readNodeLine_def
    by (simp add: seqM_def [of "onErr _ _"] onErr_Ret NodeFromBase64URL_encoded)
      (simp add: node_ok_def hash_ok_def)
qed

interpretation id_line: frame "\<lambda>h. MarshalText F h @ ''\<newline>''" "readNodeID F" "hash_ok F"
  for F :: "('h, 'n) forest"
proof
  fix h :: 'h and rest
  assume h: "hash_ok F h"
  then have w: "word (MarshalText F h)" by (simp add: hash_ok_def)
  then show "ascii (MarshalText F h @ ''\<newline>'')" by (simp add: word_def)
  have "runes (MarshalText F h @ ''\<newline>'') = runes (MarshalText F h) @ [10]"
    using w by (simp add: word_def runes_append)
  then show "readNodeID F (runes (MarshalText F h @ ''\<newline>'') @ rest) = (Ret h, rest)"
    using h by (simp add: readNodeID_def seqM_def onErr_def Fscanln_word w) (simp add: hash_ok_def)
qed

subsection \<open>Messages\<close>

datatype ('h, 'n) message =
    VersionMsg int int int
  | ListMsg int int int
  | QueryMsg int "'h list"
  | AncestryMsg int 'h int
  | LeavesOfMsg int 'h int
  | SubscribeMsg int 'h
  | UnsubscribeMsg int 'h
  | AnnounceMsg int "'n list"
  | ResponseMsg int "'n list"
  | StatusMsg int int

fun render :: "('h, 'n) forest \<Rightarrow> ('h, 'n) message \<Rightarrow> string" where
  "render F (VersionMsg i major minor) =
     ''version '' @ itoa i @ '' '' @ itoa major @ ''.'' @ itoa minor @ ''\<newline>''"
| "render F (ListMsg i t q) = ''list '' @ itoa i @ '' '' @ itoa t @ '' '' @ itoa q @ ''\<newline>''"
| "render F (QueryMsg i hs) =
     ''query '' @ itoa i @ '' '' @ itoa (int (length hs)) @ ''\<newline>''
       @ concat (map (\<lambda>h. MarshalText F h @ ''\<newline>'') hs)"
| "render F (AncestryMsg i h l) =
     ''ancestry '' @ itoa i @ '' '' @ HashString F h @ '' '' @ itoa l @ ''\<newline>''"
| "render F (LeavesOfMsg i h q) =
     ''leaves_of '' @ itoa i @ '' '' @ HashString F h @ '' '' @ itoa q @ ''\<newline>''"
| "render F (SubscribeMsg i h) = ''subscribe '' @ itoa i @ '' '' @ HashString F h @ ''\<newline>''"
| "render F (UnsubscribeMsg i h) = ''unsubscribe '' @ itoa i @ '' '' @ HashString F h @ ''\<newline>''"
| "render F (AnnounceMsg i ns) =
     ''announce '' @ itoa i @ '' '' @ itoa (int (length ns)) @ ''\<newline>'' @ concat (map (nodeLine F) ns)"
| "render F (ResponseMsg i ns) =
     ''response '' @ itoa i @ '' '' @ itoa (int (length ns)) @ ''\<newline>'' @ concat (map (nodeLine F) ns)"
| "render F (StatusMsg i c) = ''status '' @ itoa i @ '' '' @ itoa c @ ''\<newline>''"

text \<open>The messages that a \<open>Conn\<close> can carry.\<close>

fun message_ok :: "('h, 'n) forest \<Rightarrow> ('h, 'n) message \<Rightarrow> bool" where
  "message_ok F (VersionMsg i major minor) \<longleftrightarrow> int64 i \<and> int64 major \<and> int64 minor"
| "message_ok F (ListMsg i t q) \<longleftrightarrow> int64 i \<and> fits (NodeTypeOperand F) t \<and> int64 q"
| "message_ok F (QueryMsg i hs) \<longleftrightarrow>
     int64 i \<and> makeslice_ok 8 (int (length hs)) \<and> list_all (hash_ok F) hs"
| "message_ok F (AncestryMsg i h l) \<longleftrightarrow> int64 i \<and> hash_ok F h \<and> int64 l"
| "message_ok F (LeavesOfMsg i h q) \<longleftrightarrow> int64 i \<and> hash_ok F h \<and> int64 q"
| "message_ok F (SubscribeMsg i h) \<longleftrightarrow> int64 i \<and> hash_ok F h"
| "message_ok F (UnsubscribeMsg i h) \<longleftrightarrow> int64 i \<and> hash_ok F h"
| "message_ok F (AnnounceMsg i ns) \<longleftrightarrow>
     int64 i \<and> makeslice_ok 16 (int (length ns)) \<and> list_all (node_ok F) ns"
| "message_ok F (ResponseMsg i ns) \<longleftrightarrow>
     int64 i \<and> makeslice_ok 16 (int (length ns)) \<and> list_all (node_ok F) ns"
| "message_ok F (StatusMsg i c) \<longleftrightarrow> int64 i \<and> int64 c"

fun dispatch ::
    "('h, 'n, ('n, 'x) conn_scheme) hooks \<Rightarrow> ('h, 'n) message \<Rightarrow> (('n, 'x) conn_scheme, unit) go" where
  "dispatch H (VersionMsg i major minor) = runHook VersionVerb (onVersion H) (\<lambda>f. f i major minor)"
| "dispatch H (ListMsg i t q) = runHook ListVerb (onList H) (\<lambda>f. f i t q)"
| "dispatch H (QueryMsg i hs) = runHook QueryVerb (onQuery H) (\<lambda>f. f i hs)"
| "dispatch H (AncestryMsg i h l) = runHook AncestryVerb (onAncestry H) (\<lambda>f. f i h l)"
| "dispatch H (LeavesOfMsg i h q) = runHook LeavesOfVerb (onLeavesOf H) (\<lambda>f. f i h q)"
| "dispatch H (SubscribeMsg i h) = runHook SubscribeVerb (onSubscribe H) (\<lambda>f. f i h)"
| "dispatch H (UnsubscribeMsg i h) = runHook UnsubscribeVerb (onUnsubscribe H) (\<lambda>f. f i h)"
| "dispatch H (AnnounceMsg i ns) = runHook AnnounceVerb (onAnnounce H) (\<lambda>f. f i ns)"
| "dispatch H (ResponseMsg i ns) =
     onErr (Wrapped (InConn SendingResponseToChannel)) (sendToWaitingChannel (ResponseReply ns) i)"
| "dispatch H (StatusMsg i c) =
     onErr (Wrapped (InConn SendingStatusToChannel)) (sendToWaitingChannel (StatusReply c) i)"

subsection \<open>Receiving a rendered message\<close>

lemma onInput_Ret:
  "m (BufferedConn s) = (r, rest) \<Longrightarrow> onInput m s = (r, s\<lparr>BufferedConn := rest\<rparr>)"
  by (simp add: onInput_def)

lemma word_verbs [simp]:
  "word VersionVerb" "word ListVerb" "word QueryVerb" "word AncestryVerb" "word LeavesOfVerb"
  "word SubscribeVerb" "word UnsubscribeVerb" "word AnnounceVerb" "word ResponseVerb" "word StatusVerb"
  by (simp_all add: verb_defs word_def isSpace_def)

text \<open>The switch of \<open>ReadMessage\<close>, verb by verb.\<close>

definition readCase ::
    "('h, 'n) forest \<Rightarrow> ('h, 'n, ('n, 'x) conn_scheme) hooks \<Rightarrow> string \<Rightarrow> (('n, 'x) conn_scheme, unit) go" where
  "readCase F H verb =
     (if verb = VersionVerb then readVersion H
      else if verb = ListVerb then readList F H
      else if verb = QueryVerb then readQuery F H
      else if verb = AncestryVerb then readAncestry F H
      else if verb = LeavesOfVerb then readLeavesOf F H
      else if verb = ResponseVerb then readResponse F
      else if verb = SubscribeVerb \<or> verb = UnsubscribeVerb then readSubscription F H verb
      else if verb = StatusVerb then readStatus
      else if verb = AnnounceVerb then readAnnounce F H
      else ret ())"

lemma readCase_simps [simp]:
  "readCase F H VersionVerb = readVersion H"
  "readCase F H ListVerb = readList F H"
  "readCase F H QueryVerb = readQuery F H"
  "readCase F H AncestryVerb = readAncestry F H"
  "readCase F H LeavesOfVerb = readLeavesOf F H"
  "readCase F H ResponseVerb = readResponse F"
  "readCase F H SubscribeVerb = readSubscription F H SubscribeVerb"
  "readCase F H UnsubscribeVerb = readSubscription F H UnsubscribeVerb"
  "readCase F H StatusVerb = readStatus"
  "readCase F H AnnounceVerb = readAnnounce F H"
  by (simp_all add: readCase_def verb_defs)

lemma ReadMessage_readCase:
  "ReadMessage F H =
     seqM (onErr (Wrapped (InConn ScanningVerb)) (onInput (Fscanf ''%s'' [KString]))) (\<lambda>vs.
       if length vs < 1 then fail NoVerb else readCase F H (vstr (vs ! 0)))"
  unfolding ReadMessage_def readCase_def Let_def by (rule refl)

lemma ReadMessage_verb:
  assumes "word v" and "delimited rest"
  shows "ReadMessage F H (s\<lparr>BufferedConn := runes v @ rest\<rparr>) = readCase F H v (s\<lparr>BufferedConn := rest\<rparr>)"
proof -
  have "onInput (Fscanf ''%s'' [KString]) (s\<lparr>BufferedConn := runes v @ rest\<rparr>)
    = (Ret [VStr v], s\<lparr>BufferedConn := rest\<rparr>)"
    using Fscanf_verb [OF assms] by (simp add: onInput_Ret)
  then show ?thesis
    by (simp add: ReadMessage_def readCase_def seqM_def onErr_def)
qed

lemma scanOp_Ret:
  assumes "Fscanf (formats verb) ks (BufferedConn s) = (Ret vs, rest)" and "length vs = length ks"
  shows "scanOp verb ks s = (Ret vs, s\<lparr>BufferedConn := rest\<rparr>)"
  using assms by (simp add: scanOp_def seqM_def onErr_def onInput_Ret)

lemma fits_GoInt [simp]: "fits KGoInt i \<longleftrightarrow> int64 i"
  by (simp add: fits_def int64_def)

lemma int64_length: "makeslice_ok e (int n) \<Longrightarrow> 0 < e \<Longrightarrow> int64 (int n)"
proof -
  assume a: "makeslice_ok e (int n)" "0 < e"
  then have "1 * int n \<le> e * int n" by (intro mult_right_mono) auto
  with a have "int n \<le> 2 ^ 48" by (simp add: makeslice_ok_def)
  then show ?thesis by (simp add: int64_def)
qed

lemma read_three_ints:
  assumes "fits k1 a" "fits k2 b" "fits k3 c" and "formats verb = '' %d %d %d\<newline>''"
  shows "scanOp verb [k1, k2, k3]
      (s\<lparr>BufferedConn := 32 # runes (itoa a) @ 32 # runes (itoa b) @ 32 # runes (itoa c) @ 10 # rest\<rparr>)
    = (Ret [VInt a, VInt b, VInt c], s\<lparr>BufferedConn := rest\<rparr>)"
  using assms by (subst scanOp_Ret) (auto simp: Fscanf_int3)

lemma read_two_ints:
  assumes "fits k1 a" "fits k2 b" and "formats verb = '' %d %d\<newline>''"
  shows "scanOp verb [k1, k2]
      (s\<lparr>BufferedConn := 32 # runes (itoa a) @ 32 # runes (itoa b) @ 10 # rest\<rparr>)
    = (Ret [VInt a, VInt b], s\<lparr>BufferedConn := rest\<rparr>)"
  using assms by (subst scanOp_Ret) (auto simp: Fscanf_int2)

lemma read_int_word_int:
  assumes "fits k1 a" "word w" "fits k3 c" and "formats verb = '' %d %s %d\<newline>''"
  shows "scanOp verb [k1, KString, k3]
      (s\<lparr>BufferedConn := 32 # runes (itoa a) @ 32 # runes w @ 32 # runes (itoa c) @ 10 # rest\<rparr>)
    = (Ret [VInt a, VStr w, VInt c], s\<lparr>BufferedConn := rest\<rparr>)"
  using assms by (subst scanOp_Ret) (auto simp: Fscanf_int_word_int)

lemma read_int_word:
  assumes "fits k1 a" "word w" and "formats verb = '' %d %s\<newline>''"
  shows "scanOp verb [k1, KString] (s\<lparr>BufferedConn := 32 # runes (itoa a) @ 32 # runes w @ 10 # rest\<rparr>)
    = (Ret [VInt a, VStr w], s\<lparr>BufferedConn := rest\<rparr>)"
  using assms by (subst scanOp_Ret) (auto simp: Fscanf_int_word)

lemma read_version_ints:
  assumes "int64 a" "int64 b" "int64 c"
  shows "scanOp VersionVerb [KGoInt, KGoInt, KGoInt]
      (s\<lparr>BufferedConn := 32 # runes (itoa a) @ 32 # runes (itoa b) @ 46 # runes (itoa c) @ 10 # rest\<rparr>)
    = (Ret [VInt a, VInt b, VInt c], s\<lparr>BufferedConn := rest\<rparr>)"
  using assms by (subst scanOp_Ret) (auto simp: Fscanf_version)

text \<open>The runes of a rendered message, split after the verb.\<close>

fun message_rest :: "('h, 'n) forest \<Rightarrow> ('h, 'n) message \<Rightarrow> rune list" where
  "message_rest F (VersionMsg i a b) = 32 # runes (itoa i) @ 32 # runes (itoa a) @ 46 # runes (itoa b) @ [10]"
| "message_rest F (ListMsg i t q) = 32 # runes (itoa i) @ 32 # runes (itoa t) @ 32 # runes (itoa q) @ [10]"
| "message_rest F (QueryMsg i hs) =
     32 # runes (itoa i) @ 32 # runes (itoa (int (length hs))) @ 10
       # runes (concat (map (\<lambda>h. MarshalText F h @ ''\<newline>'') hs))"
| "message_rest F (AncestryMsg i h l) =
     32 # runes (itoa i) @ 32 # runes (HashString F h) @ 32 # runes (itoa l) @ [10]"
| "message_rest F (LeavesOfMsg i h q) =
     32 # runes (itoa i) @ 32 # runes (HashString F h) @ 32 # runes (itoa q) @ [10]"
| "message_rest F (SubscribeMsg i h) = 32 # runes (itoa i) @ 32 # runes (HashString F h) @ [10]"
| "message_rest F (UnsubscribeMsg i h) = 32 # runes (itoa i) @ 32 # runes (HashString F h) @ [10]"
| "message_rest F (AnnounceMsg i ns) =
     32 # runes (itoa i) @ 32 # runes (itoa (int (length ns))) @ 10
       # runes (concat (map (nodeLine F) ns))"
| "message_rest F (ResponseMsg i ns) =
     32 # runes (itoa i) @ 32 # runes (itoa (int (length ns))) @ 10
       # runes (concat (map (nodeLine F) ns))"
| "message_rest F (StatusMsg i c) = 32 # runes (itoa i) @ 32 # runes (itoa c) @ [10]"

fun verb_of :: "('h, 'n) message \<Rightarrow> string" where
  "verb_of (VersionMsg _ _ _) = VersionVerb"
| "verb_of (ListMsg _ _ _) = ListVerb"
| "verb_of (QueryMsg _ _) = QueryVerb"
| "verb_of (AncestryMsg _ _ _) = AncestryVerb"
| "verb_of (LeavesOfMsg _ _ _) = LeavesOfVerb"
| "verb_of (SubscribeMsg _ _) = SubscribeVerb"
| "verb_of (UnsubscribeMsg _ _) = UnsubscribeVerb"
| "verb_of (AnnounceMsg _ _) = AnnounceVerb"
| "verb_of (ResponseMsg _ _) = ResponseVerb"
| "verb_of (StatusMsg _ _) = StatusVerb"

lemma hash_ok_ascii [simp]: "hash_ok F h \<Longrightarrow> ascii (HashString F h)"
  by (simp add: hash_ok_def word_def)

lemma runes_render: "message_ok F m \<Longrightarrow> runes (render F m) = runes (verb_of m) @ message_rest F m"
  by (cases m) (simp_all add: verb_defs runes_append)

lemma word_verb_of [simp]: "word (verb_of m)"
  by (cases m) simp_all

lemma delimited_message_rest [simp]: "delimited (message_rest F m @ rest)"
  by (cases m) simp_all

lemma hash_okD:
  "hash_ok F h \<Longrightarrow> word (HashString F h)" "hash_ok F h \<Longrightarrow> UnmarshalText F (HashString F h) = Inr h"
  by (simp_all add: hash_ok_def)

lemma onInput_update: "onInput m (s\<lparr>BufferedConn := b\<rparr>) = (case m b of (r, rest) \<Rightarrow> (r, s\<lparr>BufferedConn := rest\<rparr>))"
  by (simp add: onInput_def split: prod.splits)

lemma readNodeLines_put:
  "list_all (node_ok F) ns \<Longrightarrow> makeslice_ok 16 (int (length ns)) \<Longrightarrow>
   readNodeLines F (int (length ns)) (runes (concat (map (nodeLine F) ns)) @ rest) = (Ret ns, rest)"
  by (simp add: readNodeLines_def node_line.fill_put)

lemma readNodeIDs_put:
  "list_all (hash_ok F) hs \<Longrightarrow> makeslice_ok 8 (int (length hs)) \<Longrightarrow>
   readNodeIDs F (int (length hs)) (runes (concat (map (\<lambda>h. MarshalText F h @ ''\<newline>'') hs)) @ rest)
   = (Ret hs, rest)"
  by (simp add: readNodeIDs_def id_line.fill_put)

lemmas read_rules =
  read_version_ints read_three_ints read_two_ints read_int_word_int read_int_word
  onInput_update readNodeLines_put readNodeIDs_put int64_length [where e = 8]
  int64_length [where e = 16] hash_okD

lemma readCase_message_rest:
  assumes "message_ok F m"
  shows "readCase F H (verb_of m) (s\<lparr>BufferedConn := message_rest F m @ rest\<rparr>) = dispatch H m (s\<lparr>BufferedConn := rest\<rparr>)"
proof (cases m)
  case (VersionMsg i a b)
  with assms show ?thesis by (simp add: readVersion_def seqM_def read_rules)
next
  case (ListMsg i t q)
  with assms show ?thesis by (simp add: readList_def seqM_def read_rules)
next
  case (QueryMsg i hs)
  with assms show ?thesis by (simp add: readQuery_def seqM_def onErr_def read_rules)
next
  case (AncestryMsg i h l)
  with assms show ?thesis by (simp add: readAncestry_def seqM_def unmarshalTarget_def read_rules)
next
  case (LeavesOfMsg i h q)
  with assms show ?thesis by (simp add: readLeavesOf_def seqM_def unmarshalTarget_def read_rules)
next
  case (SubscribeMsg i h)
  have "SubscribeVerb \<noteq> UnsubscribeVerb" by (simp add: verb_defs)
  with SubscribeMsg assms show ?thesis
    by (simp add: readSubscription_def seqM_def unmarshalTarget_def read_rules)
next
  case (UnsubscribeMsg i h)
  with assms show ?thesis
    by (simp add: readSubscription_def seqM_def unmarshalTarget_def read_rules)
next
  case (AnnounceMsg i ns)
  with assms show ?thesis by (simp add: readAnnounce_def seqM_def onErr_def read_rules)
next
  case (ResponseMsg i ns)
  with assms show ?thesis
    by (simp add: readResponse_def seqM_def onErr_def [of _ "onInput _"] read_rules)
next
  case (StatusMsg i c)
  with assms show ?thesis
    by (simp add: readStatus_def seqM_def onErr_def [of _ "scanOp _ _"] read_rules)
qed

lemma ReadMessage_dispatch:
  assumes "message_ok F m"
  shows "ReadMessage F H (s\<lparr>BufferedConn := runes (render F m) @ rest\<rparr>) = dispatch H m (s\<lparr>BufferedConn := rest\<rparr>)"
  using ReadMessage_verb [of "verb_of m" "message_rest F m @ rest" F H s] readCase_message_rest [OF assms]
  by (simp add: runes_render [OF assms])

end
