(* ===== verification/Exchange.thy ===== *)
theory Exchange
  imports Wire
begin

text \<open>
  What the \<open>Send\<close> operations do to a connection, and complete exchanges: a request is
  written by one side, read and answered by the other, and the answer arrives on the channel
  of the request.
\<close>

subsection \<open>Effect of sending\<close>

text \<open>The state after a request with the given text went out without a fault.\<close>

definition requested :: "string \<Rightarrow> ('n, 'x) conn_scheme \<Rightarrow> ('n, 'x) conn_scheme" where
  "requested text s =
     s\<lparr>nextMessageID := wrap64 (nextMessageID s + 1), nextChan := Suc (nextChan s),
       PendingStatus := (PendingStatus s)(nextMessageID s \<mapsto> nextChan s),
       written := written s @ text\<rparr>"

definition ticket :: "('n, 'x) conn_scheme \<Rightarrow> async" where
  "ticket s = (nextChan s, nextMessageID s, None)"

lemma writeConn_ok: "writeFaults s = [] \<Longrightarrow> writeConn bs s = (Ret (), s\<lparr>written := written s @ bs\<rparr>)"
  by (simp add: writeConn_def)

lemma writeMessageWithID_ok:
  "writeFaults s = [] \<Longrightarrow>
   writeMessageWithID i verb format args s = (Ret i, s\<lparr>written := written s @ sprintf format (FInt i # args)\<rparr>)"
  by (simp add: writeMessageWithID_def onErr_def seqM_def writeConn_ok)

lemma writeMessageAsync_ok:
  "writeFaults s = [] \<Longrightarrow>
   writeMessageAsync verb format args s =
     (Ret (ticket s), requested (sprintf format (FInt (nextMessageID s) # args)) s)"
  by (simp add: writeMessageAsync_def seqM_def getNextMessageID_def storePending_def errorOf_def
        writeMessageWithID_ok ticket_def requested_def)

text \<open>What the formats print is the text of the message.\<close>

lemma print_version:
  "sprintf (VersionVerb @ formats VersionVerb) [FInt i, FInt a, FInt b] = render F (VersionMsg i a b)"
  by (simp add: VersionVerb_def formats_def verb_defs)

lemma print_list:
  "sprintf (ListVerb @ formats ListVerb) [FInt i, FInt t, FInt q] = render F (ListMsg i t q)"
  unfolding formats_simps by (simp add: verb_defs)

lemma print_query:
  "sprintf (QueryVerb @ formats QueryVerb @ ''%s'')
     [FInt i, FInt (int (length hs)), FStr (stringifyNodeIDs F hs)] = render F (QueryMsg i hs)"
  unfolding formats_simps by (simp add: verb_defs stringifyNodeIDs_def)

lemma print_ancestry:
  "sprintf (AncestryVerb @ formats AncestryVerb) [FInt i, FStr (HashString F h), FInt l]
   = render F (AncestryMsg i h l)"
  unfolding formats_simps by (simp add: verb_defs)

lemma print_leaves_of:
  "sprintf (LeavesOfVerb @ formats LeavesOfVerb) [FInt i, FStr (HashString F h), FInt q]
   = render F (LeavesOfMsg i h q)"
  unfolding formats_simps by (simp add: verb_defs)

lemma print_subscribe:
  "sprintf (SubscribeVerb @ formats SubscribeVerb) [FInt i, FStr (HashString F h)]
   = render F (SubscribeMsg i h)"
  unfolding formats_simps by (simp add: verb_defs)

lemma print_unsubscribe:
  "sprintf (UnsubscribeVerb @ formats UnsubscribeVerb) [FInt i, FStr (HashString F h)]
   = render F (UnsubscribeMsg i h)"
  unfolding formats_simps by (simp add: verb_defs)

lemma print_announce:
  "sprintf (AnnounceVerb @ formats AnnounceVerb @ ''%s'')
     [FInt i, FInt (int (length ns)), FStr (stringifyNodes F ns)] = render F (AnnounceMsg i ns)"
  unfolding formats_simps by (simp add: verb_defs stringifyNodes_def)

lemma print_response:
  "sprintf (ResponseVerb @ formats ResponseVerb @ ''%s'')
     [FInt i, FInt (int (length ns)), FStr (concat (map (nodeLine F) ns))] = render F (ResponseMsg i ns)"
  unfolding formats_simps by (simp add: verb_defs)

lemma print_status:
  "sprintf (StatusVerb @ formats StatusVerb) [FInt i, FInt c] = render F (StatusMsg i c)"
  unfolding formats_simps by (simp add: verb_defs)

lemmas print_message =
  print_version print_list print_query print_ancestry print_leaves_of print_subscribe
  print_unsubscribe print_announce print_response print_status

lemma Send_requested:
  assumes "writeFaults s = []"
  shows "SendVersionAsync s = (Ret (ticket s), requested (render F (VersionMsg (nextMessageID s) (Major s) (Minor s))) s)"
    and "SendListAsync t q s = (Ret (ticket s), requested (render F (ListMsg (nextMessageID s) t q)) s)"
    and "SendQueryAsync F hs s = (Ret (ticket s), requested (render F (QueryMsg (nextMessageID s) hs)) s)"
    and "SendAncestryAsync F h l s = (Ret (ticket s), requested (render F (AncestryMsg (nextMessageID s) h l)) s)"
    and "SendLeavesOfAsync F h q s = (Ret (ticket s), requested (render F (LeavesOfMsg (nextMessageID s) h q)) s)"
    and "SendSubscribeByIDAsync F h s = (Ret (ticket s), requested (render F (SubscribeMsg (nextMessageID s) h)) s)"
    and "SendUnsubscribeByIDAsync F h s = (Ret (ticket s), requested (render F (UnsubscribeMsg (nextMessageID s) h)) s)"
    and "SendAnnounceAsync F ns s = (Ret (ticket s), requested (render F (AnnounceMsg (nextMessageID s) ns)) s)"
  unfolding SendVersionAsync_def SendListAsync_def SendQueryAsync_def SendAncestryAsync_def
    SendLeavesOfAsync_def SendSubscribeByIDAsync_def SendUnsubscribeByIDAsync_def
    subscribeOpIDAsync_def SendAnnounceAsync_def
  by (simp_all only: writeMessageAsync_ok [OF assms] print_message print_version [of _ _ _ F] print_list [of _ _ _ F])

lemma SendResponse_ok:
  "writeFaults s = [] \<Longrightarrow>
   SendResponse F i ns s = (Ret (), s\<lparr>written := written s @ render F (ResponseMsg i ns)\<rparr>)"
  unfolding SendResponse_def by (simp only: seqM_Ret [OF writeMessageWithID_ok] print_response ret_apply)

lemma SendStatus_ok:
  "writeFaults s = [] \<Longrightarrow>
   SendStatus i c s = (Ret (), s\<lparr>written := written s @ render F (StatusMsg i c)\<rparr>)"
  unfolding SendStatus_def
  by (simp only: seqM_Ret [OF writeMessageWithID_ok] print_status [of _ _ F] ret_apply)

subsection \<open>Exchanges\<close>

text \<open>
  A small peer, used by the witnesses: it answers requests for nodes with one node and
  everything else with the status ok.
\<close>

definition demo_hooks :: "(nat, demo_node, demo_node conn) hooks" where
  "demo_hooks =
     \<lparr>onVersion = Some (\<lambda>i a b. SendStatus i StatusOk),
      onList = Some (\<lambda>i t q. SendResponse one_forest i [one_node]),
      onQuery = Some (\<lambda>i hs. SendResponse one_forest i [one_node]),
      onAncestry = None, onLeavesOf = None,
      onSubscribe = Some (\<lambda>i h. SendStatus i StatusOk),
      onUnsubscribe = Some (\<lambda>i h. SendStatus i StatusOk),
      onAnnounce = Some (\<lambda>i ns. SendStatus i StatusOk)\<rparr>"

text \<open>
  \<open>delivers F H s send call\<close>: on the connection \<open>s\<close> the operation \<open>send\<close> succeeds and
  registers its request, and a peer that reads what was written, followed by anything, does
  \<open>call\<close> and nothing else.
\<close>

definition delivers ::
    "('h, 'n) forest \<Rightarrow> ('h, 'n, ('n, 'y) conn_scheme) hooks \<Rightarrow> ('n, 'x) conn_scheme
     \<Rightarrow> (('n, 'x) conn_scheme, async) go \<Rightarrow> (('n, 'y) conn_scheme, unit) go \<Rightarrow> bool" where
  "delivers F H s send call \<longleftrightarrow>
     (\<exists>text. send s = (Ret (ticket s), requested text s) \<and>
        (\<forall>peer rest. ReadMessage F H (peer\<lparr>BufferedConn := runes text @ rest\<rparr>)
           = call (peer\<lparr>BufferedConn := rest\<rparr>)))"

lemma deliversI:
  assumes "send s = (Ret (ticket s), requested (render F m) s)" and "message_ok F m"
  shows "delivers F H s send (dispatch H m)"
  using assms ReadMessage_dispatch unfolding delivers_def by blast

text \<open>
  C1.  Every request is understood by the peer: for each of the eight requests a \<open>Conn\<close>
  can send, what the \<open>Send...Async\<close> operation writes makes the peer's \<open>ReadMessage\<close> run
  the hook of that request with exactly the arguments of the call and the identifier of
  the request, and leaves whatever follows on the connection unread.
\<close>

theorem requests_reach_peer:
  assumes "writeFaults s = []" and "int64 (nextMessageID s)" and "int64 (Major s)" and "int64 (Minor s)"
    and "fits (NodeTypeOperand F) t" and "int64 q" and "hash_ok F h"
    and "list_all (hash_ok F) hs" and "makeslice_ok 8 (int (length hs))"
    and "list_all (node_ok F) ns" and "makeslice_ok 16 (int (length ns))"
  shows "delivers F H s SendVersionAsync
           (runHook VersionVerb (onVersion H) (\<lambda>f. f (nextMessageID s) (Major s) (Minor s)))
       \<and> delivers F H s (SendListAsync t q)
           (runHook ListVerb (onList H) (\<lambda>f. f (nextMessageID s) t q))
       \<and> delivers F H s (SendQueryAsync F hs)
           (runHook QueryVerb (onQuery H) (\<lambda>f. f (nextMessageID s) hs))
       \<and> delivers F H s (SendAncestryAsync F h q)
           (runHook AncestryVerb (onAncestry H) (\<lambda>f. f (nextMessageID s) h q))
       \<and> delivers F H s (SendLeavesOfAsync F h q)
           (runHook LeavesOfVerb (onLeavesOf H) (\<lambda>f. f (nextMessageID s) h q))
       \<and> delivers F H s (SendSubscribeByIDAsync F h)
           (runHook SubscribeVerb (onSubscribe H) (\<lambda>f. f (nextMessageID s) h))
       \<and> delivers F H s (SendUnsubscribeByIDAsync F h)
           (runHook UnsubscribeVerb (onUnsubscribe H) (\<lambda>f. f (nextMessageID s) h))
       \<and> delivers F H s (SendAnnounceAsync F ns)
           (runHook AnnounceVerb (onAnnounce H) (\<lambda>f. f (nextMessageID s) ns))"
proof -
  have "delivers F H s SendVersionAsync (dispatch H (VersionMsg (nextMessageID s) (Major s) (Minor s)))"
    and "delivers F H s (SendListAsync t q) (dispatch H (ListMsg (nextMessageID s) t q))"
    and "delivers F H s (SendQueryAsync F hs) (dispatch H (QueryMsg (nextMessageID s) hs))"
    and "delivers F H s (SendAncestryAsync F h q) (dispatch H (AncestryMsg (nextMessageID s) h q))"
    and "delivers F H s (SendLeavesOfAsync F h q) (dispatch H (LeavesOfMsg (nextMessageID s) h q))"
    and "delivers F H s (SendSubscribeByIDAsync F h) (dispatch H (SubscribeMsg (nextMessageID s) h))"
    and "delivers F H s (SendUnsubscribeByIDAsync F h) (dispatch H (UnsubscribeMsg (nextMessageID s) h))"
    and "delivers F H s (SendAnnounceAsync F ns) (dispatch H (AnnounceMsg (nextMessageID s) ns))"
    by (rule deliversI, rule Send_requested [OF assms(1)], simp add: assms)+
  then show ?thesis by simp
qed

theorem requests_reach_peer_witness:
  "delivers one_forest demo_hooks (NewConn [] []) (SendQueryAsync one_forest [3, 5])
     (onErr (Wrapped (InConn (RunningHook QueryVerb))) (SendResponse one_forest 0 [one_node]))"
  using requests_reach_peer [of "NewConn [] []" one_forest 1 2 3 "[3, 5]" "[one_node]" demo_hooks]
  by (simp add: NewConn_def int64_def CurrentMajor_def CurrentMinor_def fits_def makeslice_ok_def
      demo_hooks_def runHook_def)

lemma read_response:
  assumes "PendingStatus s i = Some ch" and "int64 i"
    and "list_all (node_ok F) ns" and "makeslice_ok 16 (int (length ns))"
  shows "ReadMessage F H (s\<lparr>BufferedConn := runes (render F (ResponseMsg i ns)) @ rest\<rparr>)
    = (Ret (), s\<lparr>BufferedConn := rest, PendingStatus := (PendingStatus s)(i := None),
         answered := answered s @ [(ch, ResponseReply ns)]\<rparr>)"
  using assms
  by (subst ReadMessage_dispatch) (simp_all add: onErr_def sendToWaitingChannel_def)

lemma read_status:
  assumes "PendingStatus s i = Some ch" and "int64 i" and "int64 c"
  shows "ReadMessage F H (s\<lparr>BufferedConn := runes (render F (StatusMsg i c)) @ rest\<rparr>)
    = (Ret (), s\<lparr>BufferedConn := rest, PendingStatus := (PendingStatus s)(i := None),
         answered := answered s @ [(ch, StatusReply c)]\<rparr>)"
  using assms
  by (subst ReadMessage_dispatch) (simp_all add: onErr_def sendToWaitingChannel_def)

text \<open>
  C4.  A complete exchange.  A client requests a list of nodes; the peer, whose hook answers
  with some nodes, reads the request and writes one answer; the client reads that answer,
  gets exactly those nodes on the channel of its request, and no longer waits for it.  The
  synchronous operation then returns those nodes.
\<close>

theorem list_exchange:
  assumes "writeFaults client = []" and "int64 (nextMessageID client)"
    and "writeFaults peer = []" and "onList H = Some (\<lambda>i t q. SendResponse F i ns)"
    and "fits (NodeTypeOperand F) t" and "int64 q"
    and "list_all (node_ok F) ns" and "makeslice_ok 16 (int (length ns))"
  shows "\<exists>request answer.
     SendListAsync t q client = (Ret (ticket client), requested request client)
   \<and> ReadMessage F H (peer\<lparr>BufferedConn := runes request @ rest\<rparr>)
       = (Ret (), peer\<lparr>BufferedConn := rest, written := written peer @ answer\<rparr>)
   \<and> ReadMessage F H' ((requested request client)\<lparr>BufferedConn := runes answer @ rest'\<rparr>)
       = (Ret (), (requested request client)\<lparr>BufferedConn := rest',
            PendingStatus := (PendingStatus client)(nextMessageID client := None),
            answered := answered client @ [(nextChan client, ResponseReply ns)]\<rparr>)
   \<and> fst (SendList t q (Received (ResponseReply ns)) client) = Ret ns"
proof -
  let ?i = "nextMessageID client"
  let ?request = "render F (ListMsg ?i t q)" and ?answer = "render F (ResponseMsg ?i ns)"
  have sent: "SendListAsync t q client = (Ret (ticket client), requested ?request client)"
    by (rule Send_requested [OF assms(1)])
  have "ReadMessage F H (peer\<lparr>BufferedConn := runes ?request @ rest\<rparr>)
      = (Ret (), peer\<lparr>BufferedConn := rest, written := written peer @ ?answer\<rparr>)"
    using assms by (subst ReadMessage_dispatch) (simp_all add: runHook_def onErr_def SendResponse_ok)
  moreover have "ReadMessage F H' ((requested ?request client)\<lparr>BufferedConn := runes ?answer @ rest'\<rparr>)
      = (Ret (), (requested ?request client)\<lparr>BufferedConn := rest',
            PendingStatus := (PendingStatus client)(?i := None),
            answered := answered client @ [(nextChan client, ResponseReply ns)]\<rparr>)"
    using assms by (subst read_response [of _ _ "nextChan client"]) (simp_all add: requested_def)
  moreover have "fst (SendList t q (Received (ResponseReply ns)) client) = Ret ns"
    by (simp add: SendList_def seqM_def sent ticket_def handleExpectedResponse_def)
  ultimately show ?thesis using sent by blast
qed

theorem list_exchange_witness:
  "\<exists>request answer.
     SendListAsync 1 5 (NewConn [] [] :: demo_node conn) = (Ret (ticket (NewConn [] [] :: demo_node conn)), requested request (NewConn [] []))
   \<and> ReadMessage one_forest demo_hooks ((NewConn [] [])\<lparr>BufferedConn := runes request @ []\<rparr>)
       = (Ret (), (NewConn [] [])\<lparr>BufferedConn := [], written := answer\<rparr>)"
  using list_exchange [of "NewConn [] []" "NewConn [] []" demo_hooks one_forest "[one_node]" 1 5 "[]" demo_hooks "[]"]
  by (auto simp: NewConn_def int64_def demo_hooks_def fits_def makeslice_ok_def)

end
