(* ===== verification/Consume.thy ===== *)
theory Consume
  imports Exchange "HOL-Library.Sublist"
begin

text \<open>
  What reading does to a connection whatever the peer sends.  Scanning leaves a suffix of
  its input.  The interface \<open>conn_relation\<close> collects what a relation between the states
  before and after must satisfy to hold of a whole \<open>ReadMessage\<close>: it is interpreted for
  the progress of the input, for the growth of the output, and for the invariant of the
  table of pending requests.
\<close>

subsection \<open>Scanners leave a suffix\<close>

interpretation consume: run_relation "\<lambda>rs rest :: rune list. suffix rest rs"
  by unfold_locales (auto intro: suffix_order.trans)

abbreviation consumes :: "(rune list, 'a) go \<Rightarrow> bool" where
  "consumes \<equiv> relates (\<lambda>rs rest. suffix rest rs)"

named_theorems consumes_rules "scanners that leave a suffix of their input"

lemmas [consumes_rules] = consume.rel_rules

lemma suffix_SkipSpace: "suffix (snd (SkipSpace rs)) rs"
  by (induction rs rule: SkipSpace.induct) (auto intro: suffix_ConsI)

lemma suffix_expect_newline: "suffix (snd (expect_newline rs)) rs"
  by (induction rs rule: expect_newline.induct) (auto intro: suffix_ConsI)

lemma consumes_SkipSpace [consumes_rules]: "consumes SkipSpace"
  by (rule relatesI) (rule suffix_SkipSpace)

lemma consumes_expect_newline [consumes_rules]: "consumes expect_newline"
  by (rule relatesI) (rule suffix_expect_newline)

lemma consumes_notEOF [consumes_rules]: "consumes notEOF"
  by (simp add: relates_def notEOF_def)

lemma consumes_word_tail [consumes_rules]: "consumes (\<lambda>rs. (Ret (g rs), dropWhile p rs))"
  by (simp add: relates_def suffix_dropWhile)

lemma consumes_scan_word [consumes_rules]: "consumes scan_word"
  unfolding scan_word_def by (intro consumes_rules)

lemma consumes_accept_sign [consumes_rules]: "consumes accept_sign"
  by (rule relatesI) (auto simp: accept_sign_def suffix_ConsI split: list.splits)

lemma consumes_scan_digits [consumes_rules]: "consumes scan_digits"
  unfolding scan_digits_def
  by (intro consume.rel_seqM consumes_rules relatesI) (auto simp: suffix_dropWhile)

lemma consumes_scan_int [consumes_rules]: "consumes (scan_int b)"
  unfolding scan_int_def Let_def by (intro consumes_rules)

lemma consumes_scan_uint [consumes_rules]: "consumes (scan_uint b)"
  unfolding scan_uint_def by (intro consumes_rules)

lemma consumes_scanOne [consumes_rules]: "consumes (scanOne v k)"
  by (cases k) (auto intro!: consumes_rules)

lemma consumes_blank [consumes_rules]: "consumes (\<lambda>rs. (Ret (), skipBlank rs))"
  by (simp add: relates_def skipBlank_def suffix_dropWhile)

lemma suffix_skipBlank: "suffix (skipBlank rs) rs"
  by (simp add: skipBlank_def suffix_dropWhile)

lemma consumes_match_newline [consumes_rules]: "consumes match_newline"
proof (rule relatesI)
  fix rs
  show "suffix (snd (match_newline rs)) rs"
    using suffix_skipBlank [of rs]
    by (auto simp: match_newline_def split: list.splits dest: suffix_ConsD)
qed

lemma consumes_match_newlines [consumes_rules]: "consumes (match_newlines n)"
  by (induction n) (simp_all add: consumes_rules)

lemma consumes_match_spaces [consumes_rules]: "consumes match_spaces"
  by (rule relatesI)
    (auto simp: match_spaces_def suffix_ConsI suffix_skipBlank split: list.splits)

lemma consumes_advance_space [consumes_rules]: "consumes (advance_space run)"
  unfolding advance_space_def Let_def by (intro consumes_rules)

lemma consumes_advance_literal [consumes_rules]: "consumes (advance_literal c)"
  by (rule relatesI) (auto simp: advance_literal_def suffix_ConsI split: list.splits)

lemma consumes_doScanf [consumes_rules]: "consumes (doScanf fmt ks)"
proof (induction "length fmt" arbitrary: fmt ks rule: less_induct)
  case less
  show ?case
  proof (cases fmt)
    case Nil
    then show ?thesis by (simp add: consume.rel_ret del: ret_apply)
  next
    case (Cons c fs)
    have rest: "consumes (doScanf (dropWhile isSpace fs) ks)"
      by (rule less) (simp add: Cons less_Suc_eq_le length_dropWhile_le)
    have next_fmt: "consumes (doScanf fs ks)"
      by (rule less) (simp add: Cons)
    have operand: "consumes (case fs of [] \<Rightarrow> fail (Scan SMissingVerb) | v # fmt' \<Rightarrow>
        if v = 37 then seqM (advance_literal 37) (\<lambda>_. doScanf fmt' ks)
        else seqM SkipSpace (\<lambda>_. case ks of [] \<Rightarrow> fail (Scan STooFewOperands) | k # ks' \<Rightarrow>
          seqM (scanOne v k) (\<lambda>x. seqM (doScanf fmt' ks') (\<lambda>xs. ret (x # xs)))))"
    proof (cases fs)
      case (Cons v fmt')
      have "consumes (doScanf fmt' ks)" for ks
        by (rule less) (simp add: Cons \<open>fmt = c # fs\<close>)
      then show ?thesis
        unfolding Cons list.case by (cases ks) (simp_all only: list.case, (intro consumes_rules; assumption)+)
    qed (simp add: consumes_rules)
    show ?thesis
      unfolding Cons doScanf.simps
      by (intro consumes_rules rest next_fmt operand)
  qed
qed

lemma consumes_Fscanf [consumes_rules]: "consumes (Fscanf format ks)"
  unfolding Fscanf_def by (rule consumes_doScanf)

lemma consumes_Fscanln [consumes_rules]: "consumes Fscanln"
  unfolding Fscanln_def by (intro consumes_rules)

lemma consumes_fillSlice [consumes_rules]: "consumes m \<Longrightarrow> consumes (fillSlice n m)"
  by (induction n) (simp_all add: consumes_rules)

lemma consumes_NodeFromBase64URL [consumes_rules]: "consumes (NodeFromBase64URL F s)"
  unfolding NodeFromBase64URL_def by (auto intro: consumes_rules split: option.splits)

lemma consumes_readNodeLines [consumes_rules]: "consumes (readNodeLines F n)"
  unfolding readNodeLines_def readNodeLine_def by (intro consumes_rules)

lemma consumes_readNodeIDs [consumes_rules]: "consumes (readNodeIDs F n)"
  unfolding readNodeIDs_def readNodeID_def by (intro consumes_rules)

end
