(* ===== verification/Conn_Inv.thy ===== *)
theory Conn_Inv
  imports Consume
begin

text \<open>
  Relations kept by \<open>ReadMessage\<close>, and the invariant of the table of pending requests:
  every waiting channel is unanswered, no two requests share a channel, and no channel is
  ever sent to twice (it is closed after the first value).
\<close>

subsection \<open>The interface of a relation on connections\<close>

definition hook_relates :: "('s \<Rightarrow> 's \<Rightarrow> bool) \<Rightarrow> ('f \<Rightarrow> ('s, unit) go) \<Rightarrow> 'f option \<Rightarrow> bool" where
  "hook_relates R call hook \<longleftrightarrow> (case hook of None \<Rightarrow> True | Some f \<Rightarrow> relates R (call f))"

definition hooks_relate :: "('s \<Rightarrow> 's \<Rightarrow> bool) \<Rightarrow> ('h, 'n, 's) hooks \<Rightarrow> bool" where
  "hooks_relate R H \<longleftrightarrow>
     (\<forall>i a b. hook_relates R (\<lambda>f. f i a b) (onVersion H)) \<and>
     (\<forall>i a b. hook_relates R (\<lambda>f. f i a b) (onList H)) \<and>
     (\<forall>i hs. hook_relates R (\<lambda>f. f i hs) (onQuery H)) \<and>
     (\<forall>i h a. hook_relates R (\<lambda>f. f i h a) (onAncestry H)) \<and>
     (\<forall>i h a. hook_relates R (\<lambda>f. f i h a) (onLeavesOf H)) \<and>
     (\<forall>i h. hook_relates R (\<lambda>f. f i h) (onSubscribe H)) \<and>
     (\<forall>i h. hook_relates R (\<lambda>f. f i h) (onUnsubscribe H)) \<and>
     (\<forall>i ns. hook_relates R (\<lambda>f. f i ns) (onAnnounce H))"

locale conn_relation = run_relation R
  for R :: "('n, 'x) conn_scheme \<Rightarrow> ('n, 'x) conn_scheme \<Rightarrow> bool" +
  fixes H :: "('h, 'n, ('n, 'x) conn_scheme) hooks"
  assumes R_input: "suffix rest (BufferedConn s) \<Longrightarrow> R s (s\<lparr>BufferedConn := rest\<rparr>)"
    and R_answer: "PendingStatus s i = Some ch \<Longrightarrow>
      R s (s\<lparr>PendingStatus := (PendingStatus s)(i := None), answered := answered s @ [(ch, d)]\<rparr>)"
    and R_hooks: "hooks_relate R H"
begin

lemma rel_onInput:
  assumes "consumes m"
  shows "relates R (onInput m)"
proof (rule relatesI)
  fix s
  show "R s (snd (onInput m s))"
    using relatesD [OF assms, of "BufferedConn s"] by (auto simp: onInput_def split: prod.splits intro: R_input)
qed

lemma rel_scanOp: "relates R (scanOp verb ks)"
  unfolding scanOp_def by (intro rel_rules rel_onInput consumes_rules)

lemma rel_answer: "relates R (sendToWaitingChannel d i)"
  by (rule relatesI) (auto simp: sendToWaitingChannel_def R_refl intro: R_answer split: option.splits)

lemma rel_runHook: "hook_relates R call hook \<Longrightarrow> relates R (runHook verb hook call)"
  by (cases hook) (simp_all add: hook_relates_def runHook_def rel_fail rel_onErr)

lemma rel_unmarshal: "relates R (unmarshalTarget F verb w)"
  unfolding unmarshalTarget_def by (rule rel_lift_sum)

lemmas rel_read = rel_rules rel_scanOp rel_onInput rel_answer rel_runHook rel_unmarshal consumes_rules

lemma rel_hooks:
  "hook_relates R (\<lambda>f. f i a b) (onVersion H)" "hook_relates R (\<lambda>f. f i a b) (onList H)"
  "hook_relates R (\<lambda>f. f i hs) (onQuery H)" "hook_relates R (\<lambda>f. f i h a) (onAncestry H)"
  "hook_relates R (\<lambda>f. f i h a) (onLeavesOf H)" "hook_relates R (\<lambda>f. f i h) (onSubscribe H)"
  "hook_relates R (\<lambda>f. f i h) (onUnsubscribe H)" "hook_relates R (\<lambda>f. f i ns) (onAnnounce H)"
  using R_hooks by (simp_all add: hooks_relate_def)

lemma rel_readCase: "relates R (readCase F H verb)"
  unfolding readCase_def readVersion_def readList_def readQuery_def readAncestry_def
    readLeavesOf_def readResponse_def readStatus_def readAnnounce_def readSubscription_def Let_def
  by (intro rel_read rel_hooks) (simp_all add: rel_hooks)

lemma rel_ReadMessage: "relates R (ReadMessage F H)"
  unfolding ReadMessage_readCase by (intro rel_read rel_readCase)

end

subsection \<open>The table of pending requests\<close>

text \<open>
  \<open>table_ok n p used\<close>: the channels in the table \<open>p\<close> were made (are below \<open>n\<close>), belong
  to one request each and are not among the channels \<open>used\<close> already, and those are distinct.
\<close>

definition table_ok :: "nat \<Rightarrow> (int \<rightharpoonup> nat) \<Rightarrow> nat list \<Rightarrow> bool" where
  "table_ok n p used \<longleftrightarrow>
     (\<forall>ch\<in>ran p. ch < n \<and> ch \<notin> set used) \<and> inj_on p (dom p) \<and>
     (\<forall>ch\<in>set used. ch < n) \<and> distinct used"

lemma ran_delete: "ran (m(i := None)) \<subseteq> ran m"
  by (auto simp: ran_def)

lemma inj_on_delete: "inj_on m (dom m) \<Longrightarrow> inj_on (m(i := None)) (dom (m(i := None)))"
  by (auto simp: inj_on_def)

lemma inj_on_store:
  assumes "inj_on m (dom m)" and "c \<notin> ran m"
  shows "inj_on (m(i \<mapsto> c)) (dom (m(i \<mapsto> c)))"
proof (rule inj_onI)
  fix x y
  assume xy: "x \<in> dom (m(i \<mapsto> c))" "y \<in> dom (m(i \<mapsto> c))" "(m(i \<mapsto> c)) x = (m(i \<mapsto> c)) y"
  have "m z \<noteq> Some c" for z using assms(2) by (auto simp: ran_def)
  then show "x = y" using xy inj_onD [OF assms(1), of x y] by (auto split: if_splits)
qed

lemma table_ok_delete: "table_ok n p used \<Longrightarrow> table_ok n (p(i := None)) used"
  using ran_delete [of p i] inj_on_delete [of p i]
  unfolding table_ok_def by (simp add: subset_iff del: fun_upd_apply)

lemma table_ok_answer:
  assumes ok: "table_ok n p used" and ch: "p i = Some ch"
  shows "table_ok n (p(i := None)) (used @ [ch])"
proof -
  have "ch \<in> ran p" using ch by (rule ranI)
  then have old: "ch < n" "ch \<notin> set used" and inj: "inj_on p (dom p)"
    using ok by (simp_all add: table_ok_def)
  have "ch \<notin> ran (p(i := None))"
  proof
    assume "ch \<in> ran (p(i := None))"
    then obtain j where j: "j \<noteq> i" "p j = Some ch"
      by (auto simp: ran_def split: if_splits)
    with ch have "j = i" by (intro inj_onD [OF inj]) auto
    with j show False by simp
  qed
  with old table_ok_delete [OF ok, of i] show ?thesis
    unfolding table_ok_def by (auto simp del: fun_upd_apply)
qed

lemma table_ok_store:
  assumes ok: "table_ok n p used"
  shows "table_ok (Suc n) (p(i \<mapsto> n)) used"
proof -
  have ran: "\<forall>ch\<in>ran p. ch < n \<and> ch \<notin> set used" and used: "\<forall>ch\<in>set used. ch < n"
    and rest: "inj_on p (dom p)" "distinct used"
    using ok by (simp_all add: table_ok_def)
  have fresh: "n \<notin> ran p" "n \<notin> set used" using ran used by auto
  have "ran (p(i \<mapsto> n)) \<subseteq> insert n (ran p)" by (auto simp: ran_def)
  with ran fresh have "\<forall>ch\<in>ran (p(i \<mapsto> n)). ch < Suc n \<and> ch \<notin> set used"
    by (metis insertE less_Suc_eq subsetD)
  moreover have "inj_on (p(i \<mapsto> n)) (dom (p(i \<mapsto> n)))"
    by (rule inj_on_store [OF rest(1) fresh(1)])
  ultimately show ?thesis
    using used rest(2) by (auto simp: table_ok_def less_Suc_eq simp del: fun_upd_apply)
qed

definition pending_inv :: "('n, 'x) conn_scheme \<Rightarrow> bool" where
  "pending_inv s \<longleftrightarrow> table_ok (nextChan s) (PendingStatus s) (map fst (answered s))"

abbreviation keeps_pending :: "('n, 'x) conn_scheme \<Rightarrow> ('n, 'x) conn_scheme \<Rightarrow> bool" where
  "keeps_pending s t \<equiv> pending_inv s \<longrightarrow> pending_inv t"

lemma pending_inv_NewConn: "pending_inv (NewConn transport faults)"
  by (simp add: pending_inv_def table_ok_def NewConn_def)

lemma pending_inv_frame [simp]:
  "pending_inv (s\<lparr>BufferedConn := b\<rparr>) = pending_inv s"
  "pending_inv (s\<lparr>written := w\<rparr>) = pending_inv s"
  "pending_inv (s\<lparr>written := w, writeFaults := fs\<rparr>) = pending_inv s"
  "pending_inv (s\<lparr>nextMessageID := i\<rparr>) = pending_inv s"
  by (simp_all add: pending_inv_def)

interpretation pend: run_relation keeps_pending
  by unfold_locales auto

lemma pend_answer:
  "PendingStatus s i = Some ch \<Longrightarrow>
   keeps_pending s (s\<lparr>PendingStatus := (PendingStatus s)(i := None), answered := answered s @ [(ch, d)]\<rparr>)"
  by (simp add: pending_inv_def table_ok_answer)

lemma pend_Cancel: "relates keeps_pending (Cancel i)"
  by (rule relatesI) (simp add: Cancel_def pending_inv_def table_ok_delete)

lemma pend_storePending: "relates keeps_pending (storePending i)"
  by (rule relatesI) (simp add: storePending_def pending_inv_def table_ok_store)

lemma pend_writeConn: "relates keeps_pending (writeConn bs)"
  by (rule relatesI) (simp add: writeConn_def split: list.splits option.splits)

lemma pend_getNextMessageID: "relates keeps_pending getNextMessageID"
  by (rule relatesI) (simp add: getNextMessageID_def)

lemma pend_writeMessageWithID: "relates keeps_pending (writeMessageWithID i verb format args)"
  unfolding writeMessageWithID_def by (intro pend.rel_rules pend_writeConn)

lemma pend_errorOf: "relates keeps_pending m \<Longrightarrow> relates keeps_pending (errorOf m)"
  unfolding relates_def errorOf_def by (auto split: prod.splits res.splits)

lemma pend_writeMessageAsync: "relates keeps_pending (writeMessageAsync verb format args)"
  unfolding writeMessageAsync_def
  by (intro pend.rel_rules pend_getNextMessageID pend_storePending pend_errorOf pend_writeMessageWithID)

lemma pend_SendStatus: "relates keeps_pending (SendStatus i c)"
  unfolding SendStatus_def by (intro pend.rel_rules pend_writeMessageWithID)

lemma pend_SendResponse: "relates keeps_pending (SendResponse F i ns)"
  unfolding SendResponse_def by (intro pend.rel_rules pend_writeMessageWithID)

lemma pend_handleExpectedStatus: "relates keeps_pending (handleExpectedStatus op wake a)"
  unfolding handleExpectedStatus_def
  by (auto split: prod.splits option.splits wakeup.splits reply.splits
      intro!: pend.rel_rules pend_Cancel)

lemma pend_handleExpectedResponse: "relates keeps_pending (handleExpectedResponse op wake a)"
  unfolding handleExpectedResponse_def
  by (auto split: prod.splits option.splits wakeup.splits reply.splits
      intro!: pend.rel_rules pend_Cancel)

end
