(* ===== verification/Read_Props.thy ===== *)
theory Read_Props
  imports Conn_Inv
begin

text \<open>
  Properties of \<open>ReadMessage\<close> on arbitrary input: progress, what it accepts, which input
  makes it panic, and what happens to requests whose answer never comes.
\<close>

subsection \<open>Progress\<close>

lemma SkipSpace_Ret: "SkipSpace rs = (Ret u, rs') \<Longrightarrow> rs' = [] \<or> \<not> isSpace (hd rs')"
  by (induction rs arbitrary: rs' rule: SkipSpace.induct) (auto split: if_splits)

lemma notEOF_Ret: "notEOF rs = (Ret u, rs') \<Longrightarrow> rs' = rs \<and> rs \<noteq> []"
  by (auto simp: notEOF_def split: if_splits)

lemma consumes_length: "consumes m \<Longrightarrow> m rs = (r, rest) \<Longrightarrow> length rest \<le> length rs"
  using relatesD [of "\<lambda>rs rest. suffix rest rs" m rs] by (auto dest: suffix_length_le)

lemma scan_word_shorter:
  assumes "scan_word rs = (Ret w, rest)"
  shows "length rest < length rs"
proof -
  from assms obtain rs' where skip: "SkipSpace rs = (Ret (), rs')" and "rs' \<noteq> []"
    and rest: "rest = dropWhile (\<lambda>r. \<not> isSpace r) rs'"
    unfolding scan_word_def by (auto elim!: seqM_RetE dest!: notEOF_Ret)
  then have "\<not> isSpace (hd rs')" using SkipSpace_Ret by blast
  with \<open>rs' \<noteq> []\<close> rest have "length rest < length rs'"
    by (cases rs') (simp_all add: length_dropWhile_le less_Suc_eq_le)
  moreover have "length rs' \<le> length rs"
    by (rule consumes_length [OF consumes_SkipSpace skip])
  ultimately show ?thesis by simp
qed

lemma Fscanf_verb_shorter:
  assumes "Fscanf ''%s'' [KString] rs = (Ret vs, rest)"
  shows "length rest < length rs"
proof -
  from assms obtain rs' w where skip: "SkipSpace rs = (Ret (), rs')" and "scan_word rs' = (Ret w, rest)"
    by (auto simp: Fscanf_def elim!: seqM_RetE)
  then have "length rest < length rs'" using scan_word_shorter by blast
  moreover have "length rs' \<le> length rs"
    by (rule consumes_length [OF consumes_SkipSpace skip])
  ultimately show ?thesis by simp
qed

abbreviation same_input :: "('n, 'x) conn_scheme \<Rightarrow> ('n, 'x) conn_scheme \<Rightarrow> bool" where
  "same_input s t \<equiv> BufferedConn t = BufferedConn s"

abbreviation shorter_input :: "('n, 'x) conn_scheme \<Rightarrow> ('n, 'x) conn_scheme \<Rightarrow> bool" where
  "shorter_input s t \<equiv> suffix (BufferedConn t) (BufferedConn s)"

lemma hook_relates_mono:
  "hook_relates R call hook \<Longrightarrow> (\<And>s t. R s t \<Longrightarrow> R' s t) \<Longrightarrow> hook_relates R' call hook"
  by (cases hook) (auto simp: hook_relates_def relates_def)

lemma hooks_relate_mono:
  assumes "hooks_relate R H" and "\<And>s t. R s t \<Longrightarrow> R' s t"
  shows "hooks_relate R' H"
  using assms(1) unfolding hooks_relate_def by (meson hook_relates_mono assms(2))

lemma conn_relation_shorter:
  assumes "hooks_relate same_input H"
  shows "conn_relation shorter_input H"
proof
  show "hooks_relate shorter_input H"
    by (rule hooks_relate_mono [OF assms]) simp
qed (auto intro: suffix_order.trans)

lemma ReadMessage_shorter:
  assumes "hooks_relate same_input H" and ret: "ReadMessage F H s = (Ret u, t)"
  shows "length (BufferedConn t) < length (BufferedConn s)"
proof -
  obtain vs s' where verb: "onInput (Fscanf ''%s'' [KString]) s = (Ret vs, s')"
    and "case_tail": "readCase F H (vstr (vs ! 0)) s' = (Ret u, t)"
    using ret unfolding ReadMessage_readCase
    by (auto elim!: seqM_RetE dest!: onErr_RetD split: if_splits)
  have "length (BufferedConn s') < length (BufferedConn s)"
    using verb by (auto simp: onInput_def dest: Fscanf_verb_shorter split: prod.splits)
  moreover have "suffix (BufferedConn t) (BufferedConn s')"
    using relatesD [OF conn_relation.rel_readCase [OF conn_relation_shorter [OF assms(1)]], of F "vstr (vs ! 0)" s']
      case_tail by simp
  ultimately show ?thesis by (auto dest: suffix_length_le)
qed

text \<open>
  C15.  Progress.  With hooks that do not touch the read side of the connection, a
  \<open>ReadMessage\<close> that returns nil has consumed at least one rune, whatever the peer sent, and
  what is left to read is the tail of what was there: a read loop cannot spin on the same
  input.
\<close>

theorem read_message_progress:
  assumes "hooks_relate same_input H" and "ReadMessage F H s = (Ret (), t)"
  shows "suffix (BufferedConn t) (BufferedConn s) \<and> length (BufferedConn t) < length (BufferedConn s)"
  using ReadMessage_shorter [OF assms]
    relatesD [OF conn_relation.rel_ReadMessage [OF conn_relation_shorter [OF assms(1)]], of F s] assms(2)
  by simp

interpretation input: run_relation same_input
  by unfold_locales auto

lemma same_input_writeConn: "relates same_input (writeConn bs)"
  by (rule relatesI) (simp add: writeConn_def split: list.splits option.splits)

lemma same_input_answers:
  "relates same_input (SendStatus i c)" "relates same_input (SendResponse F i ns)"
  unfolding SendStatus_def SendResponse_def writeMessageWithID_def
  by (intro input.rel_rules same_input_writeConn)+

lemma demo_hooks_same_input: "hooks_relate same_input demo_hooks"
  by (simp add: hooks_relate_def hook_relates_def demo_hooks_def same_input_answers)

theorem read_message_progress_witness:
  "suffix (BufferedConn (snd (ReadMessage one_forest demo_hooks (NewConn (runes ''version 4 0.0\<newline>list'') []))))
     (runes ''version 4 0.0\<newline>list'')"
proof -
  let ?s = "NewConn (runes ''version 4 0.0\<newline>list'') [] :: demo_node conn"
  have "ReadMessage one_forest demo_hooks ?s
    = (Ret (), snd (ReadMessage one_forest demo_hooks ?s))"
    using ReadMessage_dispatch [where F = one_forest and m = "VersionMsg 4 0 0" and H = demo_hooks
        and s = ?s and rest = "runes ''list''"]
    by (simp add: NewConn_def itoa_def dec_less10 digit_def int64_def demo_hooks_def runHook_def
        onErr_def SendStatus_ok [of _ _ _ one_forest])
  from read_message_progress [OF demo_hooks_same_input this] show ?thesis
    by (simp add: NewConn_def)
qed

subsection \<open>Integrity of received nodes\<close>

text \<open>What a node must satisfy to be accepted from a line of text.\<close>

definition checked_node :: "('h, 'n) forest \<Rightarrow> 'n \<Rightarrow> bool" where
  "checked_node F n \<longleftrightarrow>
     (\<exists>idText id data b. UnmarshalText F idText = Inr id \<and> Equals F (ID F n) id \<and>
        DecodeString data = Some b \<and> UnmarshalBinaryNode F b = Inr n)"

lemma NodeFromBase64URL_Ret:
  assumes "NodeFromBase64URL F data s = (Ret n, s')"
  obtains b where "DecodeString data = Some b" "UnmarshalBinaryNode F b = Inr n"
  using assms
  by (cases "DecodeString data"; cases "UnmarshalBinaryNode F (the (DecodeString data))")
    (auto simp: NodeFromBase64URL_def)

lemma lift_sum_Ret: "lift_sum w x s = (Ret a, s') \<Longrightarrow> x = Inr a \<and> s' = s"
  by (cases x) auto

lemma readNodeLine_checked: "readNodeLine F rs = (Ret n, rest) \<Longrightarrow> checked_node F n"
  unfolding readNodeLine_def checked_node_def
  by (fastforce elim!: seqM_RetE NodeFromBase64URL_Ret dest!: onErr_RetD lift_sum_Ret split: if_splits)

lemma fillSlice_Ret:
  assumes "\<And>rs x rest. body rs = (Ret x, rest) \<Longrightarrow> P x"
  shows "fillSlice k body rs = (Ret xs, rest) \<Longrightarrow> length xs = k \<and> list_all P xs"
proof (induction k arbitrary: rs xs rest)
  case 0
  then show ?case by simp
next
  case (Suc k)
  then obtain x t ys t' where "body rs = (Ret x, t)" "fillSlice k body t = (Ret ys, t')" "xs = x # ys"
    by (auto elim!: seqM_RetE)
  with Suc.IH assms show ?case by auto
qed



subsection \<open>Counts that no slice can have\<close>

lemma read_count:
  assumes "formats verb = '' %d %d\<newline>''" and "int64 i" and "int64 c"
  shows "scanOp verb [KGoInt, KGoInt] (s\<lparr>BufferedConn := runes ('' '' @ itoa i @ '' '' @ itoa c @ ''\<newline>'') @ rest\<rparr>)
    = (Ret [VInt i, VInt c], s\<lparr>BufferedConn := rest\<rparr>)"
  using assms read_two_ints [where ?k1.0 = KGoInt and a = i and ?k2.0 = KGoInt and b = c and verb = verb and s = s and rest = rest] by (simp add: runes_append)

lemma ReadMessage_negative_count:
  assumes "verb \<in> {QueryVerb, AnnounceVerb, ResponseVerb}"
    and "int64 i" and "int64 count" and "count < 0"
  shows "ReadMessage F H (s\<lparr>BufferedConn :=
           runes (verb @ '' '' @ itoa i @ '' '' @ itoa count @ ''\<newline>'') @ rest\<rparr>)
       = (Panic MakeSliceLen, s\<lparr>BufferedConn := rest\<rparr>)"
proof -
  let ?args = "runes ('' '' @ itoa i @ '' '' @ itoa count @ ''\<newline>'') @ rest"
  have verb: "word verb" "formats verb = '' %d %d\<newline>''" using assms(1) by auto
  then have "runes (verb @ '' '' @ itoa i @ '' '' @ itoa count @ ''\<newline>'') @ rest = runes verb @ ?args"
    by (simp add: runes_append word_def)
  moreover have "delimited ?args" by (simp add: runes_append)
  ultimately have read: "ReadMessage F H (s\<lparr>BufferedConn :=
      runes (verb @ '' '' @ itoa i @ '' '' @ itoa count @ ''\<newline>'') @ rest\<rparr>)
    = readCase F H verb (s\<lparr>BufferedConn := ?args\<rparr>)"
    by (simp only: ReadMessage_verb [OF verb(1)])
  have scan: "scanOp verb [KGoInt, KGoInt] (s\<lparr>BufferedConn := ?args\<rparr>)
      = (Ret [VInt i, VInt count], s\<lparr>BufferedConn := rest\<rparr>)"
    by (rule read_count [OF verb(2) assms(2,3)])
  from assms(1) show ?thesis
    unfolding read using scan assms(4)
    by (auto simp: readQuery_def readAnnounce_def readResponse_def seqM_Ret onInput_update
        readNodeIDs_def readNodeLines_def seqM_def onErr_def)
qed

text \<open>
  C21.  A peer can stop the process.  The count of a query, announce or response message is
  used as the length of a slice before anything is read: a negative count makes
  \<open>ReadMessage\<close> panic, whatever hooks are set and whether or not an answer was expected.
\<close>

theorem negative_count_panics:
  assumes "verb \<in> {QueryVerb, AnnounceVerb, ResponseVerb}"
    and "int64 i" and "int64 count" and "count < 0"
  shows "ReadMessage F H (s\<lparr>BufferedConn :=
           runes (verb @ '' '' @ itoa i @ '' '' @ itoa count @ ''\<newline>'') @ rest\<rparr>)
       = (Panic MakeSliceLen, s\<lparr>BufferedConn := rest\<rparr>)"
  by (rule ReadMessage_negative_count [OF assms])

theorem negative_count_panics_witness:
  "ReadMessage one_forest demo_hooks ((NewConn [] [])\<lparr>BufferedConn :=
      runes (AnnounceVerb @ '' '' @ itoa 1 @ '' '' @ itoa (- 1) @ ''\<newline>'') @ []\<rparr>)
    = (Panic MakeSliceLen, (NewConn [] [])\<lparr>BufferedConn := []\<rparr>)"
  by (rule negative_count_panics) (simp_all add: int64_def)

subsection \<open>Verbs without a case\<close>

definition known_verb :: "string \<Rightarrow> bool" where
  "known_verb v \<longleftrightarrow>
     v \<in> {VersionVerb, ListVerb, QueryVerb, AncestryVerb, LeavesOfVerb, SubscribeVerb,
           UnsubscribeVerb, AnnounceVerb, ResponseVerb, StatusVerb}"

lemma readCase_unknown: "\<not> known_verb v \<Longrightarrow> readCase F H v = ret ()"
  by (simp add: known_verb_def readCase_def)

lemma ReadMessage_newline:
  "ReadMessage F H (s\<lparr>BufferedConn := 10 # rest\<rparr>)
   = (Fail (Wrapped (InConn ScanningVerb) (Scan SUnexpectedNewline)), s\<lparr>BufferedConn := rest\<rparr>)"
  by (simp add: ReadMessage_readCase seqM_def onErr_def onInput_update Fscanf_def)

text \<open>
  C35.  An unknown verb is not an error.  \<open>ReadMessage\<close> returns nil for a word that names no
  message and leaves the rest of its line on the connection, to be taken for the next
  message; when the word is alone on its line, the newline left behind makes the next
  \<open>ReadMessage\<close> fail.
\<close>

theorem unknown_verb_accepted:
  assumes "word v" and "\<not> known_verb v"
  shows "(delimited rest \<longrightarrow>
           ReadMessage F H (s\<lparr>BufferedConn := runes v @ rest\<rparr>) = (Ret (), s\<lparr>BufferedConn := rest\<rparr>))
       \<and> seqM (ReadMessage F H) (\<lambda>_. ReadMessage F H) (s\<lparr>BufferedConn := runes v @ 10 # rest\<rparr>)
           = (Fail (Wrapped (InConn ScanningVerb) (Scan SUnexpectedNewline)), s\<lparr>BufferedConn := rest\<rparr>)"
proof -
  have skip: "delimited rest' \<Longrightarrow>
      ReadMessage F H (s\<lparr>BufferedConn := runes v @ rest'\<rparr>) = (Ret (), s\<lparr>BufferedConn := rest'\<rparr>)" for rest'
    by (simp add: ReadMessage_verb [OF assms(1)] readCase_unknown [OF assms(2)])
  have "seqM (ReadMessage F H) (\<lambda>_. ReadMessage F H) (s\<lparr>BufferedConn := runes v @ 10 # rest\<rparr>)
      = ReadMessage F H (s\<lparr>BufferedConn := 10 # rest\<rparr>)"
    by (rule seqM_Ret) (rule skip, simp)
  with skip show ?thesis by (simp add: ReadMessage_newline)
qed

theorem unknown_verb_accepted_witness:
  "ReadMessage one_forest demo_hooks ((NewConn [] [])\<lparr>BufferedConn := runes ''hello'' @ 32 # runes ''status''\<rparr>)
   = (Ret (), (NewConn [] [])\<lparr>BufferedConn := 32 # runes ''status''\<rparr>)"
proof -
  have "word ''hello''" by (simp add: word_def isSpace_def)
  moreover have "\<not> known_verb ''hello''" by (simp add: known_verb_def verb_defs)
  ultimately show ?thesis
    using unknown_verb_accepted [of "''hello''" "32 # runes ''status''" one_forest demo_hooks "NewConn [] []"]
    by simp
qed

subsection \<open>Answers nobody waits for, requests nobody answers\<close>

text \<open>\<open>errors.As\<close> for \<open>UnsolicitedMessageError\<close>: through the errors wrapped with \<open>%w\<close>.\<close>

fun asUnsolicited :: "err \<Rightarrow> int option" where
  "asUnsolicited (UnsolicitedMessage i) = Some i"
| "asUnsolicited (Wrapped c e) = asUnsolicited e"
| "asUnsolicited _ = None"

lemma read_unsolicited:
  assumes "PendingStatus s i = None" and "message_ok F m"
    and "m = StatusMsg i c \<or> m = ResponseMsg i ns"
  shows "\<exists>e. ReadMessage F H (s\<lparr>BufferedConn := runes (render F m) @ rest\<rparr>) = (Fail e, s\<lparr>BufferedConn := rest\<rparr>)
    \<and> asUnsolicited e = Some i"
  using assms
  by (subst ReadMessage_dispatch) (auto simp: onErr_def sendToWaitingChannel_def)

text \<open>
  At most one answer per request.  Of two answers to the same request the first is
  delivered on the channel of the request; the second is reported as unsolicited, in a form
  \<open>errors.As\<close> recognises, is read to its end, and changes nothing else.
\<close>

lemma second_answer_unsolicited:
  assumes "PendingStatus s i = Some ch" and "int64 i" and "int64 c"
    and "list_all (node_ok F) ns" and "makeslice_ok 16 (int (length ns))"
  shows "\<exists>t e. ReadMessage F H (s\<lparr>BufferedConn := runes (render F (StatusMsg i c)) @ runes (render F (ResponseMsg i ns)) @ rest\<rparr>)
           = (Ret (), t)
       \<and> answered t = answered s @ [(ch, StatusReply c)]
       \<and> ReadMessage F H t = (Fail e, t\<lparr>BufferedConn := rest\<rparr>)
       \<and> asUnsolicited e = Some i"
proof -
  let ?second = "runes (render F (ResponseMsg i ns)) @ rest"
  let ?t = "s\<lparr>PendingStatus := (PendingStatus s)(i := None), answered := answered s @ [(ch, StatusReply c)]\<rparr>"
  have first: "ReadMessage F H (s\<lparr>BufferedConn := runes (render F (StatusMsg i c)) @ ?second\<rparr>)
      = (Ret (), ?t\<lparr>BufferedConn := ?second\<rparr>)"
    using read_status [where F = F and H = H and rest = ?second, OF assms(1-3)] by simp
  have "\<exists>e. ReadMessage F H (?t\<lparr>BufferedConn := ?second\<rparr>) = (Fail e, ?t\<lparr>BufferedConn := rest\<rparr>)
      \<and> asUnsolicited e = Some i"
    by (rule read_unsolicited) (simp_all add: assms)
  then obtain e where "ReadMessage F H (?t\<lparr>BufferedConn := ?second\<rparr>) = (Fail e, ?t\<lparr>BufferedConn := rest\<rparr>)"
    "asUnsolicited e = Some i"
    by blast
  with first show ?thesis by (intro exI conjI) (assumption | simp)+
qed

end
