(* ===== verification/Session.thy ===== *)
theory Session
  imports Forest "HOL-Library.Multiset"
begin

text \<open>
  session.go: the communities a connection is subscribed to.  The Go map is keyed by
  pointers to identifiers, so it is modelled as the list of its entries, a pointer (a number)
  with the identifier it points to; pointers are distinct.  The order of a \<open>range\<close> loop is
  unspecified in Go: the operation that depends on it takes it as the argument \<open>visit\<close>, a
  rearrangement of the entries.  Each operation holds the lock throughout and is one step.
\<close>

type_synonym 'h communities = "(nat \<times> 'h) list"

definition NewSession :: "'h communities" where
  "NewSession = []"

definition Subscribe :: "nat \<Rightarrow> 'h \<Rightarrow> 'h communities \<Rightarrow> 'h communities" where
  "Subscribe ptr h cs = (if list_ex (\<lambda>(p, _). p = ptr) cs then cs else cs @ [(ptr, h)])"

definition IsSubscribed :: "('h, 'n) forest \<Rightarrow> 'h communities \<Rightarrow> 'h \<Rightarrow> bool" where
  "IsSubscribed F cs communityID = list_ex (\<lambda>(_, community). Equals F community communityID) cs"

definition Unsubscribe ::
    "('h, 'n) forest \<Rightarrow> ('h communities \<Rightarrow> 'h communities) \<Rightarrow> 'h \<Rightarrow> 'h communities \<Rightarrow> 'h communities" where
  "Unsubscribe F visit communityID cs =
     (case find (\<lambda>(_, community). Equals F community communityID) (visit cs) of
        None \<Rightarrow> cs
      | Some (ptr, _) \<Rightarrow> filter (\<lambda>(p, _). p \<noteq> ptr) cs)"

text \<open>A range loop visits every entry once, in some order.\<close>

definition visit_ok :: "('h communities \<Rightarrow> 'h communities) \<Rightarrow> bool" where
  "visit_ok visit \<longleftrightarrow> (\<forall>cs. mset (visit cs) = mset cs)"

definition session_ok :: "'h communities \<Rightarrow> bool" where
  "session_ok cs \<longleftrightarrow> distinct (map fst cs)"

text \<open>Every pointer in use is below the next one the allocator gives out.\<close>

definition session_fresh :: "nat \<Rightarrow> 'h communities \<Rightarrow> bool" where
  "session_fresh n cs \<longleftrightarrow> list_all (\<lambda>(p, _). p < n) cs"

subsection \<open>The interface: a bag of communities\<close>

datatype 'h subscription = Sub 'h | Unsub 'h

text \<open>A history of operations; every \<open>Sub\<close> comes with a pointer of its own.\<close>

fun replay ::
    "(nat \<Rightarrow> 'h \<Rightarrow> 's \<Rightarrow> 's) \<Rightarrow> ('h \<Rightarrow> 's \<Rightarrow> 's) \<Rightarrow> nat \<Rightarrow> 'h subscription list \<Rightarrow> 's \<Rightarrow> 's" where
  "replay sub unsub n [] s = s"
| "replay sub unsub n (Sub h # es) s = replay sub unsub (Suc n) es (sub n h s)"
| "replay sub unsub n (Unsub h # es) s = replay sub unsub n es (unsub h s)"

fun balance :: "'h \<Rightarrow> 'h subscription list \<Rightarrow> nat \<Rightarrow> nat" where
  "balance h [] k = k"
| "balance h (Sub g # es) k = balance h es (if g = h then Suc k else k)"
| "balance h (Unsub g # es) k = balance h es (if g = h then k - 1 else k)"

locale community_bag =
  fixes sub :: "nat \<Rightarrow> 'h \<Rightarrow> 's \<Rightarrow> 's"
    and unsub :: "'h \<Rightarrow> 's \<Rightarrow> 's"
    and member :: "'s \<Rightarrow> 'h \<Rightarrow> bool"
    and bag :: "'s \<Rightarrow> 'h multiset"
    and good :: "nat \<Rightarrow> 's \<Rightarrow> bool"
  assumes bag_sub: "good n s \<Longrightarrow> bag (sub n h s) = add_mset h (bag s)"
    and bag_unsub: "good n s \<Longrightarrow> bag (unsub h s) = bag s - {#h#}"
    and member_bag: "good n s \<Longrightarrow> member s h \<longleftrightarrow> h \<in># bag s"
    and good_sub: "good n s \<Longrightarrow> good (Suc n) (sub n h s)"
    and good_unsub: "good n s \<Longrightarrow> good n (unsub h s)"
begin

lemma count_replay:
  "good n s \<Longrightarrow> \<exists>m. good m (replay sub unsub n es s)
     \<and> count (bag (replay sub unsub n es s)) h = balance h es (count (bag s) h)"
proof (induction es arbitrary: n s)
  case Nil
  then show ?case by auto
next
  case (Cons e es)
  show ?case
  proof (cases e)
    case (Sub g)
    with Cons.IH [OF good_sub [OF Cons.prems, of g]] Cons.prems show ?thesis
      by (auto simp: bag_sub)
  next
    case (Unsub g)
    with Cons.IH [OF good_unsub [OF Cons.prems, of g]] Cons.prems show ?thesis
      by (auto simp: bag_unsub)
  qed
qed

lemma member_replay:
  "good n s \<Longrightarrow> member (replay sub unsub n es s) h \<longleftrightarrow> 0 < balance h es (count (bag s) h)"
  using count_replay [of n s es h] by (auto simp: member_bag count_greater_zero_iff [symmetric])

end

subsection \<open>The session implements the interface\<close>

definition session_bag :: "'h communities \<Rightarrow> 'h multiset" where
  "session_bag cs = mset (map snd cs)"

lemma find_visit:
  assumes "visit_ok visit" and "equals_ok F"
  shows "(case find (\<lambda>(_, c). Equals F c h) (visit cs) of
      None \<Rightarrow> h \<notin># session_bag cs | Some (p, c) \<Rightarrow> (p, c) \<in> set cs \<and> c = h)"
proof -
  have "set (visit cs) = set cs"
    using assms(1) by (metis visit_ok_def set_mset_mset)
  then show ?thesis
    using assms(2)
    by (auto simp: session_bag_def find_None_iff find_Some_iff split: option.splits)
      (metis nth_mem)
qed

lemma mset_filter_key:
  assumes "distinct (map fst cs)" and "(p, h) \<in> set cs"
  shows "mset (map snd (filter (\<lambda>(q, _). q \<noteq> p) cs)) = mset (map snd cs) - {#h#}"
  using assms
proof (induction cs)
  case Nil
  then show ?case by simp
next
  case (Cons a cs)
  obtain q c where a: "a = (q, c)" by (cases a)
  show ?case
  proof (cases "q = p")
    case True
    with Cons.prems a have "c = h" and "\<forall>(r, _)\<in>set cs. r \<noteq> p"
      by (auto simp: image_iff)
    then have "filter (\<lambda>(q, _). q \<noteq> p) cs = cs" by (auto simp: filter_id_conv)
    with True a \<open>c = h\<close> show ?thesis by simp
  next
    case False
    with Cons.prems a have "(p, h) \<in> set cs" by auto
    then have "h \<in># mset (map snd cs)" by force
    with False a Cons.IH Cons.prems \<open>(p, h) \<in> set cs\<close> show ?thesis by simp
  qed
qed

text \<open>
  The state and its environment are as the operations need them: identifiers compare
  properly, range loops visit all entries, pointers are distinct and the next is unused.
\<close>

definition session_good ::
    "('h, 'n) forest \<Rightarrow> ('h communities \<Rightarrow> 'h communities) \<Rightarrow> nat \<Rightarrow> 'h communities \<Rightarrow> bool" where
  "session_good F visit n cs \<longleftrightarrow> equals_ok F \<and> visit_ok visit \<and> session_ok cs \<and> session_fresh n cs"

lemma IsSubscribed_bag: "equals_ok F \<Longrightarrow> IsSubscribed F cs h \<longleftrightarrow> h \<in># session_bag cs"
  by (force simp: IsSubscribed_def session_bag_def list_ex_iff)

lemma Unsubscribe_bag:
  assumes "session_good F visit n cs"
  shows "session_bag (Unsubscribe F visit h cs) = session_bag cs - {#h#}"
proof -
  have ok: "visit_ok visit" "equals_ok F" "distinct (map fst cs)"
    using assms by (simp_all add: session_good_def session_ok_def)
  show ?thesis
    using find_visit [OF ok(1,2), of h cs] mset_filter_key [OF ok(3)]
    by (auto simp: Unsubscribe_def session_bag_def split: option.splits)
qed

lemma Subscribe_fresh: "session_fresh n cs \<Longrightarrow> Subscribe n h cs = cs @ [(n, h)]"
  by (auto simp: Subscribe_def session_fresh_def list_ex_iff list_all_iff)

lemma Unsubscribe_subset: "set (Unsubscribe F visit h cs) \<subseteq> set cs"
  by (auto simp: Unsubscribe_def split: option.splits)

lemma session_ok_Unsubscribe: "session_ok cs \<Longrightarrow> session_ok (Unsubscribe F visit h cs)"
  by (auto simp: session_ok_def Unsubscribe_def distinct_map_filter split: option.splits)

lemma session_ok_Subscribe: "session_ok cs \<Longrightarrow> session_ok (Subscribe p h cs)"
  by (auto simp: session_ok_def Subscribe_def list_ex_iff)

lemma session_fresh_Subscribe: "session_fresh n cs \<Longrightarrow> session_fresh (Suc n) (Subscribe n h cs)"
  by (auto simp: Subscribe_fresh session_fresh_def list_all_iff)

lemma session_fresh_Unsubscribe: "session_fresh n cs \<Longrightarrow> session_fresh n (Unsubscribe F visit h cs)"
  using Unsubscribe_subset [of F visit h cs] by (auto simp: session_fresh_def list_all_iff)

interpretation session:
  community_bag Subscribe "Unsubscribe F visit" "IsSubscribed F" session_bag "session_good F visit"
  for F :: "('h, 'n) forest" and visit
proof
  fix n h and cs :: "'h communities"
  assume good: "session_good F visit n cs"
  then have fresh: "session_fresh n cs" by (simp add: session_good_def)
  show "session_bag (Subscribe n h cs) = add_mset h (session_bag cs)"
    using fresh by (simp add: Subscribe_fresh session_bag_def)
  show "session_bag (Unsubscribe F visit h cs) = session_bag cs - {#h#}"
    by (rule Unsubscribe_bag [OF good])
  show "IsSubscribed F cs h \<longleftrightarrow> h \<in># session_bag cs"
    using good by (simp add: session_good_def IsSubscribed_bag)
  show "session_good F visit (Suc n) (Subscribe n h cs)"
    using good by (simp add: session_good_def session_ok_Subscribe session_fresh_Subscribe)
  show "session_good F visit n (Unsubscribe F visit h cs)"
    using good by (simp add: session_good_def session_ok_Unsubscribe session_fresh_Unsubscribe)
qed

lemma session_good_NewSession: "equals_ok F \<Longrightarrow> visit_ok visit \<Longrightarrow> session_good F visit 0 NewSession"
  by (simp add: session_good_def NewSession_def session_ok_def session_fresh_def)

text \<open>
  C16.  What a session remembers.  After any history of subscriptions and unsubscriptions,
  each subscription with a pointer of its own as \<open>ReadMessage\<close> allocates them, and whatever
  the order of the range loops, a community is subscribed iff it was subscribed more often
  than unsubscribed (an unsubscription without a subscription counts for nothing): the
  session is a bag of communities, not a set.
\<close>

theorem session_is_bag:
  assumes "equals_ok F" and "visit_ok visit"
  shows "IsSubscribed F (replay Subscribe (Unsubscribe F visit) 0 history NewSession) h
       \<longleftrightarrow> 0 < balance h history 0"
  using session.member_replay [OF session_good_NewSession [OF assms], of history h]
  by (simp add: session_bag_def NewSession_def)

theorem session_is_bag_witness:
  "IsSubscribed one_forest (replay Subscribe (Unsubscribe one_forest rev) 0 [Unsub 4, Sub 4, Sub 5, Unsub 5] NewSession) 4
   \<and> \<not> IsSubscribed one_forest (replay Subscribe (Unsubscribe one_forest rev) 0 [Unsub 4, Sub 4, Sub 5, Unsub 5] NewSession) 5"
  using session_is_bag [of one_forest rev "[Unsub 4, Sub 4, Sub 5, Unsub 5]"]
  by (simp add: visit_ok_def)



end
