(* ===== verification/Worker.thy ===== *)
theory Worker
  imports Read_Props Session
begin

text \<open>
  The protocol handlers of worker.go.  A \<open>Worker\<close> embeds a \<open>Conn\<close> and a \<open>Session\<close>: its
  state extends the record of the connection.  The node store, node validation, expiration
  and the library sort are the record \<open>world\<close>, an argument of the definitions; the store's
  content is the field \<open>theStore\<close>.  Goroutines that \<open>OnAnnounce\<close> starts are listed in
  \<open>spawned\<close> (theory \<open>Ingest\<close> says what they do).  \<open>wakes\<close> is the environment's choice of how
  the coming waits for an answer end (see \<open>Ingest\<close>), \<open>connClosed\<close> says whether the network
  connection was closed, and \<open>others\<close> lists what other goroutines do to the store (\<open>Ingest\<close>).  Logging is not modelled.
\<close>

record ('h, 'n, 's) world =
  Get :: "'s \<Rightarrow> 'h \<Rightarrow> string + 'n option"
  GetIdentity :: "'s \<Rightarrow> 'h \<Rightarrow> string + 'n option"
  Recent :: "'s \<Rightarrow> int \<Rightarrow> int \<Rightarrow> string + 'n list"
  DescendantsOf :: "'s \<Rightarrow> 'h \<Rightarrow> string + 'h list"
  LeavesOf :: "'s \<Rightarrow> 'h \<Rightarrow> string + 'h list" \<comment> \<open>of the archive made from the store\<close>
  ArchiveGet :: "'s \<Rightarrow> 'h \<Rightarrow> string + 'n option"
  AddAs :: "'n \<Rightarrow> nat \<Rightarrow> 's \<Rightarrow> (string + unit) \<times> 's"
  ValidateDeep :: "'n \<Rightarrow> 's \<Rightarrow> string + unit"
  IsExpired :: "'n \<Rightarrow> string + bool"
  sortSlice :: "('n \<Rightarrow> int) \<Rightarrow> 'n list \<Rightarrow> 'n list"
  visitMap :: "'h communities \<Rightarrow> 'h communities"
  SubscribeToNewMessages :: "'s \<Rightarrow> nat \<times> 's"
  UnsubscribeToNewMessages :: "nat \<Rightarrow> 's \<Rightarrow> 's"

text \<open>
  Documented behaviour of \<open>sort.Slice\<close> with a comparison of keys: a rearrangement in
  ascending order; the order of elements with equal keys is unspecified.
\<close>

definition sort_ok :: "('h, 'n, 's) world \<Rightarrow> bool" where
  "sort_ok W \<longleftrightarrow> (\<forall>key xs. mset (sortSlice W key xs) = mset xs \<and> sorted (map key (sortSlice W key xs)))"

record ('n, 'h, 's) worker = "'n conn" +
  Communities :: "'h communities"
  nextPtr :: nat
  theStore :: 's
  subscriptionID :: nat
  spawned :: "'n list"
  wakes :: "'n wakeup list"
  connClosed :: bool
  others :: "('s \<Rightarrow> 's) list"

definition NewWorker :: "rune list \<Rightarrow> nat option list \<Rightarrow> 's \<Rightarrow> ('n, 'h, 's) worker" where
  "NewWorker transport faults s =
     conn.extend (NewConn transport faults)
       \<lparr>Communities = NewSession, nextPtr = 0, theStore = s, subscriptionID = 0, spawned = [],
        wakes = [], connClosed = False, others = []\<rparr>"

text \<open>A call of the store that only reads it.\<close>

definition fromStore ::
    "ctx \<Rightarrow> ('s \<Rightarrow> string + 'a) \<Rightarrow> (('n, 'h, 's) worker, 'a) go" where
  "fromStore c f w = lift_sum (\<lambda>e. Wrapped c (External e)) (f (theStore w)) w"

subsection \<open>Requests\<close>

definition OnVersion :: "int \<Rightarrow> int \<Rightarrow> int \<Rightarrow> (('n, 'h, 's) worker, unit) go" where
  "OnVersion messageID major minor =
     (if major < CurrentMajor
      then onErr (Wrapped (InHandler SendingTooOld)) (SendStatus messageID ErrorProtocolTooOld)
      else if major > CurrentMajor
      then onErr (Wrapped (InHandler SendingTooNew)) (SendStatus messageID ErrorProtocolTooNew)
      else onErr (Wrapped (InHandler SendingOkay)) (SendStatus messageID StatusOk))"

definition OnList ::
    "('h, 'n) forest \<Rightarrow> ('h, 'n, 's) world \<Rightarrow> int \<Rightarrow> int \<Rightarrow> int \<Rightarrow> (('n, 'h, 's) worker, unit) go" where
  "OnList F W messageID nodeType quantity =
     seqM (fromStore (InHandler ListingRecent) (\<lambda>s. Recent W s nodeType quantity))
       (\<lambda>nodes. SendResponse F messageID nodes)"

text \<open>The loops that look identifiers up and keep the nodes that are present.\<close>

fun getPresent :: "('h, 'n, 's) world \<Rightarrow> ctx \<Rightarrow> 'h list \<Rightarrow> (('n, 'h, 's) worker, 'n list) go" where
  "getPresent W c [] = ret []"
| "getPresent W c (nodeId # ids) =
     seqM (fromStore c (\<lambda>s. Get W s nodeId)) (\<lambda>found.
       case found of
         None \<Rightarrow> getPresent W c ids
       | Some node \<Rightarrow> seqM (getPresent W c ids) (\<lambda>results. ret (node # results)))"

definition OnQuery ::
    "('h, 'n) forest \<Rightarrow> ('h, 'n, 's) world \<Rightarrow> int \<Rightarrow> 'h list \<Rightarrow> (('n, 'h, 's) worker, unit) go" where
  "OnQuery F W messageID nodeIds =
     seqM (getPresent W (InHandler CheckingNode) nodeIds) (\<lambda>results. SendResponse F messageID results)"

text \<open>The loop of \<open>OnAncestry\<close>: at most the given number of steps to the parent.\<close>

fun climb :: "('h, 'n) forest \<Rightarrow> ('h, 'n, 's) world \<Rightarrow> nat \<Rightarrow> 'n \<Rightarrow> (('n, 'h, 's) worker, 'n list) go" where
  "climb F W 0 currentNode = ret []"
| "climb F W (Suc k) currentNode =
     (if Equals F (ParentID F currentNode) (NullHash F) then ret []
      else seqM (fromStore (InHandler LookingUpParent) (\<lambda>s. Get W s (ParentID F currentNode))) (\<lambda>found.
        case found of
          None \<Rightarrow> ret []
        | Some parentNode \<Rightarrow>
            seqM (climb F W k parentNode) (\<lambda>ancestors. ret (parentNode # ancestors))))"

definition OnAncestry ::
    "('h, 'n) forest \<Rightarrow> ('h, 'n, 's) world \<Rightarrow> int \<Rightarrow> 'h \<Rightarrow> int \<Rightarrow> (('n, 'h, 's) worker, unit) go" where
  "OnAncestry F W messageID nodeID levels =
     seqM (fromStore (InHandler LookingForNode) (\<lambda>s. Get W s nodeID)) (\<lambda>found.
       case found of
         None \<Rightarrow> fail AncestryOfUnknown
       | Some currentNode \<Rightarrow>
           seqM (climb F W (nat levels) currentNode) (\<lambda>ancestors.
             SendResponse F messageID (sortSlice W (TreeDepth F) ancestors)))"

definition OnLeavesOf ::
    "('h, 'n) forest \<Rightarrow> ('h, 'n, 's) world \<Rightarrow> int \<Rightarrow> 'h \<Rightarrow> int \<Rightarrow> (('n, 'h, 's) worker, unit) go" where
  "OnLeavesOf F W messageID nodeID quantity =
     seqM (fromStore (InHandler FindingDescendants) (\<lambda>s. DescendantsOf W s nodeID)) (\<lambda>leafIDs.
     seqM (getPresent W (InHandler FindingLocally) leafIDs) (\<lambda>present.
       let leaves = sortSlice W (CreatedAt F) present in
       seqM (if int (length leaves) > quantity
             then slice_from (wrap64 (int (length leaves) - quantity)) leaves else ret leaves)
         (\<lambda>leaves. SendResponse F messageID leaves)))"

subsection \<open>Subscriptions\<close>

text \<open>\<open>c.Subscribe(nodeID)\<close> with a pointer that nothing else holds.\<close>

definition subscribeFresh :: "'h \<Rightarrow> (('n, 'h, 's) worker, unit) go" where
  "subscribeFresh h w =
     (Ret (), w\<lparr>Communities := Subscribe (nextPtr w) h (Communities w), nextPtr := Suc (nextPtr w)\<rparr>)"

definition unsubscribeCommunity :: "('h, 'n) forest \<Rightarrow> ('h, 'n, 's) world \<Rightarrow> 'h \<Rightarrow> (('n, 'h, 's) worker, unit) go" where
  "unsubscribeCommunity F W h w = (Ret (), w\<lparr>Communities := Unsubscribe F (visitMap W) h (Communities w)\<rparr>)"

definition OnSubscribe :: "int \<Rightarrow> 'h \<Rightarrow> (('n, 'h, 's) worker, unit) go" where
  "OnSubscribe messageID nodeID =
     onErr (Wrapped (InHandler DuringSubscribe))
       (seqM (subscribeFresh nodeID) (\<lambda>_.
         onErr (Wrapped (InHandler SendingOkayStatus)) (SendStatus messageID StatusOk)))"

definition OnUnsubscribe ::
    "('h, 'n) forest \<Rightarrow> ('h, 'n, 's) world \<Rightarrow> int \<Rightarrow> 'h \<Rightarrow> (('n, 'h, 's) worker, unit) go" where
  "OnUnsubscribe F W messageID nodeID =
     onErr (Wrapped (InHandler DuringUnsubscribe))
       (seqM (unsubscribeCommunity F W nodeID) (\<lambda>_.
         onErr (Wrapped (InHandler SendingOkayStatus)) (SendStatus messageID StatusOk)))"

subsection \<open>Announcements\<close>

text \<open>What the loop of \<open>OnAnnounce\<close> decides for one node.\<close>

datatype verdict = Skip | Ingest | Unknown

definition judge :: "('h, 'n) forest \<Rightarrow> ('h, 'n, 's) world \<Rightarrow> ('n, 'h, 's) worker \<Rightarrow> 'n \<Rightarrow> verdict" where
  "judge F W w node =
     (case IsExpired W node of
        Inl e \<Rightarrow> Skip
      | Inr expired \<Rightarrow>
          if expired then Skip
          else (case Get W (theStore w) (ID F node) of
              Inl e \<Rightarrow> Skip
            | Inr (Some _) \<Rightarrow> Skip
            | Inr None \<Rightarrow>
                (case nodeKind F node of
                   IdentityNode \<Rightarrow> Ingest
                 | CommunityNode author \<Rightarrow> Ingest
                 | ReplyNode author communityID \<Rightarrow>
                     if IsSubscribed F (Communities w) communityID then Ingest else Skip
                 | OtherNode \<Rightarrow> Unknown)))"

text \<open>\<open>go func(n) { c.IngestNode(n) }(node)\<close>\<close>

definition spawnIngest :: "'n \<Rightarrow> (('n, 'h, 's) worker, unit) go" where
  "spawnIngest node w = (Ret (), w\<lparr>spawned := spawned w @ [node]\<rparr>)"

fun OnAnnounce ::
    "('h, 'n) forest \<Rightarrow> ('h, 'n, 's) world \<Rightarrow> int \<Rightarrow> 'n list \<Rightarrow> (('n, 'h, 's) worker, unit) go" where
  "OnAnnounce F W messageID [] w = SendStatus messageID StatusOk w"
| "OnAnnounce F W messageID (node # nodes) w =
     (case judge F W w node of
        Skip \<Rightarrow> OnAnnounce F W messageID nodes w
      | Ingest \<Rightarrow> seqM (spawnIngest node) (\<lambda>_. OnAnnounce F W messageID nodes) w
      | Unknown \<Rightarrow> SendStatus messageID ErrorUnknownNode w)"

text \<open>
  \<open>HandleNewNode\<close>, the goroutine it starts: announce the node to the peer unless it is a
  reply in a community the peer did not subscribe to; errors are only logged.
\<close>

definition HandleNewNode ::
    "('h, 'n) forest \<Rightarrow> 'n wakeup \<Rightarrow> 'n \<Rightarrow> (('n, 'h, 's) worker, unit) go" where
  "HandleNewNode F wake node w =
     (let announce = seqM (errorOf (SendAnnounce F [node] wake)) (\<lambda>_. ret ()) in
      case nodeKind F node of
        IdentityNode \<Rightarrow> announce w
      | CommunityNode author \<Rightarrow> announce w
      | ReplyNode author communityID \<Rightarrow>
          if IsSubscribed F (Communities w) communityID then announce w else (Ret (), w)
      | OtherNode \<Rightarrow> (Ret (), w))"

text \<open>The hooks that \<open>NewWorker\<close> sets on its connection.\<close>

definition workerHooks ::
    "('h, 'n) forest \<Rightarrow> ('h, 'n, 's) world \<Rightarrow> ('h, 'n, ('n, 'h, 's) worker) hooks" where
  "workerHooks F W =
     \<lparr>onVersion = Some OnVersion, onList = Some (OnList F W), onQuery = Some (OnQuery F W),
      onAncestry = Some (OnAncestry F W), onLeavesOf = Some (OnLeavesOf F W),
      onSubscribe = Some OnSubscribe, onUnsubscribe = Some (OnUnsubscribe F W),
      onAnnounce = Some (OnAnnounce F W)\<rparr>"

end
