(* ===== verification/Worker_Props.thy ===== *)
theory Worker_Props
  imports Worker
begin

text \<open>
  What the handlers of a worker answer, on every branch: the functional behaviour of each
  handler, the one answer every request gets, and the input on which a handler panics.
\<close>

subsection \<open>Lookups\<close>

text \<open>The store answers every lookup; what it then answers.\<close>

definition get_works :: "('h, 'n, 's) world \<Rightarrow> 's \<Rightarrow> bool" where
  "get_works W s \<longleftrightarrow> (\<forall>h. \<exists>r. Get W s h = Inr r)"

definition stored :: "('h, 'n, 's) world \<Rightarrow> 's \<Rightarrow> 'h \<Rightarrow> 'n option" where
  "stored W s h = (case Get W s h of Inl e \<Rightarrow> None | Inr r \<Rightarrow> r)"

lemma get_works_stored: "get_works W s \<Longrightarrow> Get W s h = Inr (stored W s h)"
  by (auto simp: get_works_def stored_def split: sum.splits) (metis Inl_Inr_False)

lemma fromStore_Inr [simp]: "f (theStore w) = Inr a \<Longrightarrow> fromStore c f w = (Ret a, w)"
  by (simp add: fromStore_def)

lemma fromStore_Inl [simp]: "f (theStore w) = Inl e \<Longrightarrow> fromStore c f w = (Fail (Wrapped c (External e)), w)"
  by (simp add: fromStore_def)

lemma getPresent_ok:
  "get_works W (theStore w) \<Longrightarrow> getPresent W c hs w = (Ret (List.map_filter (stored W (theStore w)) hs), w)"
proof (induction hs)
  case Nil
  then show ?case by simp
next
  case (Cons h hs)
  then show ?case
    by (simp add: seqM_def get_works_stored List.map_filter_simps split: option.splits)
qed

text \<open>
  A concrete world, used by the witnesses: the store is a list of nodes, found by
  identifier; every node is valid and none expires.
\<close>

definition demo_world :: "(nat, demo_node, demo_node list) world" where
  "demo_world =
     \<lparr>Get = (\<lambda>s h. Inr (find (\<lambda>n. demo_id n = h) s)),
      GetIdentity = (\<lambda>s h. Inr (find (\<lambda>n. demo_id n = h) s)),
      Recent = (\<lambda>s t q. Inr s), DescendantsOf = (\<lambda>s h. Inr (map demo_id s)),
      LeavesOf = (\<lambda>s h. Inr []),
      ArchiveGet = (\<lambda>s h. Inr (find (\<lambda>n. demo_id n = h) s)), AddAs = (\<lambda>n sub s. (Inr (), s @ [n])),
      ValidateDeep = (\<lambda>n s. Inr ()), IsExpired = (\<lambda>n. Inr False),
      sortSlice = sort_key, visitMap = (\<lambda>cs. cs),
      SubscribeToNewMessages = (\<lambda>s. (0, s)), UnsubscribeToNewMessages = (\<lambda>sub s. s)\<rparr>"

lemma demo_get_works [simp]: "get_works demo_world s"
  by (simp add: get_works_def demo_world_def)

lemma demo_sort_ok [simp]: "sort_ok demo_world"
  by (simp add: sort_ok_def demo_world_def)

lemma demo_stored [simp]: "stored demo_world s h = find (\<lambda>n. demo_id n = h) s"
  by (simp add: stored_def demo_world_def)

text \<open>A chain of three nodes, 1 above 2 above 3.\<close>

definition demo_chain :: "demo_node list" where
  "demo_chain =
     [DemoNode 1 0 (CommunityNode 9) 0 10, DemoNode 2 1 (ReplyNode 9 1) 1 30,
      DemoNode 3 2 (ReplyNode 9 1) 2 20]"

definition demo_worker :: "(demo_node, nat, demo_node list) worker" where
  "demo_worker = NewWorker [] [] demo_chain"

lemma demo_worker_simps [simp]:
  "writeFaults demo_worker = []" "theStore demo_worker = demo_chain" "written demo_worker = []"
  "Communities demo_worker = []" "spawned demo_worker = []" "wakes demo_worker = []"
  by (simp_all add: demo_worker_def NewWorker_def NewConn_def conn.defs NewSession_def)

subsection \<open>Version negotiation\<close>

definition version_verdict :: "int \<Rightarrow> int" where
  "version_verdict major =
     (if major < CurrentMajor then ErrorProtocolTooOld
      else if major > CurrentMajor then ErrorProtocolTooNew else StatusOk)"

lemma onErr_SendStatus:
  "writeFaults w = [] \<Longrightarrow> onErr c (SendStatus i x) w = (Ret (), w\<lparr>written := written w @ render F (StatusMsg i x)\<rparr>)"
  by (simp add: onErr_def SendStatus_ok [of _ _ _ F])

text \<open>
  A version message is answered with exactly one status: ok iff the major versions agree,
  otherwise the side on which they differ; the minor version does not matter.
\<close>

lemma OnVersion_run:
  assumes "writeFaults w = []"
  shows "OnVersion i major minor w =
           (Ret (), w\<lparr>written := written w @ render F (StatusMsg i (version_verdict major))\<rparr>)"
  using onErr_SendStatus [OF assms]
  by (auto simp: OnVersion_def version_verdict_def status_defs)

subsection \<open>Ancestry\<close>

definition is_parent :: "('h, 'n) forest \<Rightarrow> ('h, 'n, 's) world \<Rightarrow> 's \<Rightarrow> 'n \<Rightarrow> 'n \<Rightarrow> bool" where
  "is_parent F W s n p \<longleftrightarrow>
     \<not> Equals F (ParentID F n) (NullHash F) \<and> stored W s (ParentID F n) = Some p"

text \<open>\<open>lineage F W s n ps\<close>: \<open>ps\<close> are the parent of \<open>n\<close>, its parent, and so on.\<close>

fun lineage :: "('h, 'n) forest \<Rightarrow> ('h, 'n, 's) world \<Rightarrow> 's \<Rightarrow> 'n \<Rightarrow> 'n list \<Rightarrow> bool" where
  "lineage F W s n [] = True"
| "lineage F W s n (p # ps) = (is_parent F W s n p \<and> lineage F W s p ps)"

lemma climb_lineage:
  "get_works W (theStore w) \<Longrightarrow>
   \<exists>ps. climb F W k n w = (Ret ps, w) \<and> lineage F W (theStore w) n ps \<and> length ps \<le> k
      \<and> (length ps < k \<longrightarrow> (\<forall>p. \<not> is_parent F W (theStore w) (last (n # ps)) p))"
proof (induction k arbitrary: n)
  case 0
  then show ?case by simp
next
  case (Suc k)
  show ?case
  proof (cases "\<not> Equals F (ParentID F n) (NullHash F) \<and> stored W (theStore w) (ParentID F n) \<noteq> None")
    case True
    then obtain p where p: "is_parent F W (theStore w) n p" by (auto simp: is_parent_def)
    obtain ps where "climb F W k p w = (Ret ps, w)" "lineage F W (theStore w) p ps" "length ps \<le> k"
      "length ps < k \<longrightarrow> (\<forall>q. \<not> is_parent F W (theStore w) (last (p # ps)) q)"
      using Suc by blast
    with p show ?thesis
      by (intro exI [of _ "p # ps"]) (simp add: is_parent_def seqM_def get_works_stored [OF Suc.prems])
  next
    case False
    then show ?thesis
      by (intro exI [of _ "[]"]) (auto simp: is_parent_def seqM_def get_works_stored [OF Suc.prems])
  qed
qed

text \<open>Documented behaviour of \<open>TreeDepth\<close>: a stored node is deeper than its stored parent.\<close>

definition depth_ok :: "('h, 'n) forest \<Rightarrow> ('h, 'n, 's) world \<Rightarrow> 's \<Rightarrow> bool" where
  "depth_ok F W s \<longleftrightarrow>
     (\<forall>h n p. stored W s h = Some n \<and> is_parent F W s n p \<longrightarrow> TreeDepth F p < TreeDepth F n)"

lemma lineage_depth:
  assumes "depth_ok F W s"
  shows "stored W s h = Some n \<Longrightarrow> lineage F W s n ps \<Longrightarrow>
    sorted_wrt (\<lambda>a b. TreeDepth F b < TreeDepth F a) (n # ps)"
proof (induction ps arbitrary: n h)
  case Nil
  then show ?case by simp
next
  case (Cons p ps)
  then have "is_parent F W s n p" and p: "stored W s (ParentID F n) = Some p" "lineage F W s p ps"
    by (auto simp: is_parent_def)
  with Cons.prems have "TreeDepth F p < TreeDepth F n"
    using assms unfolding depth_ok_def by blast
  with Cons.IH [OF p] show ?case by auto
qed

lemma sort_reverses:
  assumes "sort_ok W" and "sorted_wrt (\<lambda>a b. key b < (key a :: int)) xs"
  shows "sortSlice W key xs = rev xs"
proof -
  have m: "mset (sortSlice W key xs) = mset (rev xs)" "sorted (map key (sortSlice W key xs))"
    using assms(1) by (simp_all add: sort_ok_def)
  have "sorted_wrt (\<lambda>a b. key a < key b) (rev xs)" using assms(2) by (simp add: sorted_wrt_rev)
  then have "sorted_wrt (<) (map key (rev xs))" by (simp only: sorted_wrt_map)
  then have d: "distinct (map key (rev xs))" and sx: "sorted (map key (rev xs))"
    by (simp_all only: strict_sorted_iff)
  have "mset (map key (sortSlice W key xs)) = mset (map key (rev xs))" using m(1) by simp
  then have "map key (sortSlice W key xs) = map key (rev xs)"
    using m(2) sx by (metis properties_for_sort)
  moreover have "inj_on key (set (sortSlice W key xs) \<union> set (rev xs))"
    using d m(1) by (metis distinct_map mset_eq_setD sup.idem)
  ultimately show ?thesis by (rule map_inj_on)
qed

lemma OnAncestry_run:
  assumes "writeFaults w = []" and "get_works W (theStore w)" and "sort_ok W"
    and "stored W (theStore w) h = Some n"
    and "depth_ok F W (theStore w)"
  shows "\<exists>ps. OnAncestry F W i h levels w =
           (Ret (), w\<lparr>written := written w @ render F (ResponseMsg i (rev ps))\<rparr>)
       \<and> lineage F W (theStore w) n ps \<and> length ps \<le> nat levels
       \<and> (length ps < nat levels \<longrightarrow> (\<forall>p. \<not> is_parent F W (theStore w) (last (n # ps)) p))"
proof -
  obtain ps where ps: "climb F W (nat levels) n w = (Ret ps, w)" "lineage F W (theStore w) n ps"
      "length ps \<le> nat levels"
      "length ps < nat levels \<longrightarrow> (\<forall>p. \<not> is_parent F W (theStore w) (last (n # ps)) p)"
    using climb_lineage [OF assms(2)] by blast
  have "sorted_wrt (\<lambda>a b. TreeDepth F b < TreeDepth F a) ps"
    using lineage_depth [OF assms(5,4) ps(2)] by simp
  then have "sortSlice W (TreeDepth F) ps = rev ps" by (rule sort_reverses [OF assms(3)])
  with ps(1) assms(4) have "OnAncestry F W i h levels w =
      (Ret (), w\<lparr>written := written w @ render F (ResponseMsg i (rev ps))\<rparr>)"
    by (simp add: OnAncestry_def seqM_def get_works_stored [OF assms(2)] SendResponse_ok [OF assms(1)])
  with ps show ?thesis by blast
qed

text \<open>
  C24.  \<open>OnAncestry\<close> answers with the stored ancestors of the node, root side first: the
  parent chain, at most \<open>levels\<close> long, cut short only where a parent is missing from the
  store or null.  Sorting by depth is here the same as reversing, because a parent is less
  deep than its child.  A negative number of levels asks for none.
\<close>

theorem OnAncestry_answer:
  assumes "writeFaults w = []" and "get_works W (theStore w)" and "sort_ok W"
    and "stored W (theStore w) h = Some n"
    and "depth_ok F W (theStore w)"
  shows "\<exists>ps. OnAncestry F W i h levels w =
           (Ret (), w\<lparr>written := written w @ render F (ResponseMsg i (rev ps))\<rparr>)
       \<and> lineage F W (theStore w) n ps \<and> length ps \<le> nat levels
       \<and> (length ps < nat levels \<longrightarrow> (\<forall>p. \<not> is_parent F W (theStore w) (last (n # ps)) p))"
  by (rule OnAncestry_run [OF assms])

lemma demo_chain_depth: "depth_ok one_forest demo_world demo_chain"
  by (auto simp: depth_ok_def is_parent_def demo_chain_def one_forest_def demo_forest_def split: if_splits)

theorem OnAncestry_answer_witness:
  "\<exists>ps. OnAncestry one_forest demo_world 5 3 1 demo_worker =
      (Ret (), demo_worker\<lparr>written := render one_forest (ResponseMsg 5 (rev ps))\<rparr>) \<and> length ps \<le> 1"
  using OnAncestry_answer [of demo_worker demo_world 3 "DemoNode 3 2 (ReplyNode 9 1) 2 20" one_forest 5 1]
  by (auto simp: demo_chain_depth) (auto simp: demo_chain_def)

subsection \<open>Leaves\<close>

definition knows_descendants :: "('h, 'n, 's) world \<Rightarrow> 's \<Rightarrow> 'h \<Rightarrow> 'h list \<Rightarrow> bool" where
  "knows_descendants W s h ids \<longleftrightarrow> DescendantsOf W s h = Inr ids \<and> int64 (int (length ids))"

lemma OnLeavesOf_sorted:
  assumes "get_works W (theStore w)" and "DescendantsOf W (theStore w) h = Inr ids"
  shows "OnLeavesOf F W i h q w =
    (let leaves = sortSlice W (CreatedAt F) (List.map_filter (stored W (theStore w)) ids) in
     seqM (if int (length leaves) > q then slice_from (wrap64 (int (length leaves) - q)) leaves else ret leaves)
       (\<lambda>leaves. SendResponse F i leaves) w)"
  using assms by (simp add: OnLeavesOf_def seqM_def [of "fromStore _ _"] seqM_def [of "getPresent _ _ _"]
      getPresent_ok Let_def)

lemma worker_input [simp]:
  "theStore (w\<lparr>BufferedConn := b\<rparr>) = theStore w" "Communities (w\<lparr>BufferedConn := b\<rparr>) = Communities w"
  by simp_all

lemma length_map_filter: "length (List.map_filter f xs) \<le> length xs"
  by (induction xs) (simp_all add: List.map_filter_simps split: option.splits)

lemma length_sortSlice: "sort_ok W \<Longrightarrow> length (sortSlice W key xs) = length xs"
  by (metis sort_ok_def size_mset)

lemma OnLeavesOf_run:
  assumes "writeFaults w = []" and "get_works W (theStore w)" and "sort_ok W"
    and "knows_descendants W (theStore w) h ids" and "0 \<le> q"
  shows "\<exists>older newest. OnLeavesOf F W i h q w =
           (Ret (), w\<lparr>written := written w @ render F (ResponseMsg i newest)\<rparr>)
       \<and> mset (older @ newest) = mset (List.map_filter (stored W (theStore w)) ids)
       \<and> sorted (map (CreatedAt F) (older @ newest))
       \<and> length newest = min (nat q) (length (older @ newest))"
proof -
  define leaves where "leaves = sortSlice W (CreatedAt F) (List.map_filter (stored W (theStore w)) ids)"
  let ?k = "length leaves - nat q"
  have ids: "DescendantsOf W (theStore w) h = Inr ids" and "int64 (int (length ids))"
    using assms(4) by (simp_all add: knows_descendants_def)
  moreover have "length leaves \<le> length ids"
    by (simp add: leaves_def length_sortSlice [OF assms(3)] length_map_filter)
  ultimately have len: "int64 (int (length leaves))"
    by (simp add: int64_def)
  have cut: "(if int (length leaves) > q then slice_from (wrap64 (int (length leaves) - q)) leaves else ret leaves) w
      = (Ret (drop ?k leaves), w)"
  proof (cases "int (length leaves) > q")
    case True
    then have "int64 (int (length leaves) - q)" using len assms(5) by (simp add: int64_def)
    with True assms(5) show ?thesis
      by (simp add: slice_from_def nat_diff_distrib)
  next
    case False
    then show ?thesis using assms(5) by simp
  qed
  have "OnLeavesOf F W i h q w = (Ret (), w\<lparr>written := written w @ render F (ResponseMsg i (drop ?k leaves))\<rparr>)"
    unfolding OnLeavesOf_sorted [OF assms(2) ids] leaves_def [symmetric] Let_def
    by (subst seqM_Ret, rule cut) (rule SendResponse_ok [OF assms(1)])
  moreover have "mset leaves = mset (List.map_filter (stored W (theStore w)) ids)" "sorted (map (CreatedAt F) leaves)"
    using assms(3) by (simp_all add: leaves_def sort_ok_def)
  ultimately show ?thesis
    by (intro exI [of _ "take ?k leaves"] exI [of _ "drop ?k leaves"]) simp
qed



lemma OnLeavesOf_negative:
  assumes "get_works W (theStore w)" and "sort_ok W" and "knows_descendants W (theStore w) h ids"
    and "int64 q" and "q < 0"
  shows "OnLeavesOf F W i h q w = (Panic SliceBounds, w)"
proof -
  define leaves where "leaves = sortSlice W (CreatedAt F) (List.map_filter (stored W (theStore w)) ids)"
  have ids: "DescendantsOf W (theStore w) h = Inr ids" and "int64 (int (length ids))"
    using assms(3) by (simp_all add: knows_descendants_def)
  moreover have "length leaves \<le> length ids"
    by (simp add: leaves_def length_sortSlice [OF assms(2)] length_map_filter)
  ultimately have len: "int (length leaves) < 2 ^ 63" by (simp add: int64_def)
  let ?low = "wrap64 (int (length leaves) - q)"
  have "?low < 0 \<or> int (length leaves) < ?low"
  proof (cases "int (length leaves) - q < 2 ^ 63")
    case True
    then show ?thesis using assms(4,5) by (simp add: int64_def)
  next
    case False
    have "(int (length leaves) - q + 2 ^ 63) mod 2 ^ 64 = int (length leaves) - q + 2 ^ 63 - 2 ^ 64"
      using False len assms(4) by (subst mod_pos_geq) (simp_all add: int64_def)
    then show ?thesis using len assms(4) by (simp add: wrap64_def int64_def)
  qed
  then have cut: "(if int (length leaves) > q then slice_from ?low leaves else ret leaves) t = (Panic SliceBounds, t)"
    for t using assms(5) by (auto simp: slice_from_def)
  show ?thesis
    using OnLeavesOf_sorted [OF assms(1) ids, of F i q]
    by (simp only: leaves_def [symmetric] Let_def) (rule seqM_Panic, rule cut)
qed

text \<open>
  C31.  A peer can stop the process with a leaves request.  For a negative quantity the
  lower bound of the slice is past its end: \<open>ReadMessage\<close> on a worker's connection panics
  whenever the store can list the descendants, even if there are none.
\<close>

theorem negative_quantity_panics:
  assumes "get_works W (theStore w)" and "sort_ok W" and "knows_descendants W (theStore w) h ids"
    and "hash_ok F h" and "int64 i" and "int64 q" and "q < 0"
  shows "ReadMessage F (workerHooks F W) (w\<lparr>BufferedConn := runes (render F (LeavesOfMsg i h q)) @ rest\<rparr>)
       = (Panic SliceBounds, w\<lparr>BufferedConn := rest\<rparr>)"
proof -
  have "OnLeavesOf F W i h q (w\<lparr>BufferedConn := rest\<rparr>) = (Panic SliceBounds, w\<lparr>BufferedConn := rest\<rparr>)"
    by (rule OnLeavesOf_negative) (use assms in simp_all)
  then show ?thesis
    using assms(4-6) by (subst ReadMessage_dispatch) (simp_all add: workerHooks_def runHook_def onErr_def)
qed

theorem negative_quantity_panics_witness:
  "ReadMessage one_forest (workerHooks one_forest demo_world)
      (demo_worker\<lparr>BufferedConn := runes (render one_forest (LeavesOfMsg 5 1 (- 1))) @ []\<rparr>)
    = (Panic SliceBounds, demo_worker\<lparr>BufferedConn := []\<rparr>)"
  by (rule negative_quantity_panics [of demo_world demo_worker 1 "[1, 2, 3]"])
    (simp_all add: knows_descendants_def demo_world_def demo_chain_def int64_def get_works_def sort_ok_def)

end
