(* ===== verification/Gossip.thy ===== *)
theory Gossip
  imports Worker_Props
begin

text \<open>
  Announcements between workers, the one answer that every request gets, and the invariants
  that the handlers of a worker keep.
\<close>

subsection \<open>Announcements in\<close>

text \<open>The nodes \<open>OnAnnounce\<close> should ingest, and those it should object to.\<close>

definition new_here :: "('h, 'n) forest \<Rightarrow> ('h, 'n, 's) world \<Rightarrow> ('n, 'h, 's) worker \<Rightarrow> 'n \<Rightarrow> bool" where
  "new_here F W w n \<longleftrightarrow> IsExpired W n = Inr False \<and> Get W (theStore w) (ID F n) = Inr None"

definition wanted :: "('h, 'n) forest \<Rightarrow> ('h, 'n, 's) world \<Rightarrow> ('n, 'h, 's) worker \<Rightarrow> 'n \<Rightarrow> bool" where
  "wanted F W w n \<longleftrightarrow> new_here F W w n \<and>
     (case nodeKind F n of
        IdentityNode \<Rightarrow> True
      | CommunityNode _ \<Rightarrow> True
      | ReplyNode _ community \<Rightarrow> IsSubscribed F (Communities w) community
      | OtherNode \<Rightarrow> False)"

definition objectionable :: "('h, 'n) forest \<Rightarrow> ('h, 'n, 's) world \<Rightarrow> ('n, 'h, 's) worker \<Rightarrow> 'n \<Rightarrow> bool" where
  "objectionable F W w n \<longleftrightarrow> new_here F W w n \<and> nodeKind F n = OtherNode"

lemma judge_Ingest: "judge F W w n = Ingest \<longleftrightarrow> wanted F W w n"
  by (auto simp: judge_def wanted_def new_here_def split: sum.splits option.splits node_kind.splits)

lemma judge_Unknown: "judge F W w n = Unknown \<longleftrightarrow> objectionable F W w n"
  by (auto simp: judge_def objectionable_def new_here_def split: sum.splits option.splits node_kind.splits)

lemma judge_spawned [simp]: "judge F W (w\<lparr>spawned := ns\<rparr>) n = judge F W w n"
proof -
  have "theStore (w\<lparr>spawned := ns\<rparr>) = theStore w" "Communities (w\<lparr>spawned := ns\<rparr>) = Communities w"
    by simp_all
  then show ?thesis by (simp only: judge_def)
qed

lemma OnAnnounce_run:
  "writeFaults w = [] \<Longrightarrow>
   OnAnnounce F W i ns w =
     (Ret (), w\<lparr>spawned := spawned w @
          filter (\<lambda>n. judge F W w n = Ingest) (takeWhile (\<lambda>n. judge F W w n \<noteq> Unknown) ns),
        written := written w @ render F (StatusMsg i
          (if list_ex (\<lambda>n. judge F W w n = Unknown) ns then ErrorUnknownNode else StatusOk))\<rparr>)"
proof (induction ns arbitrary: w)
  case Nil
  then show ?case by (simp add: SendStatus_ok [of _ _ _ F])
next
  case (Cons n ns)
  then show ?case
    by (cases "judge F W w n") (simp_all add: SendStatus_ok [of _ _ _ F] seqM_def spawnIngest_def)
qed

text \<open>
  C19.  What an announcement starts.  \<open>OnAnnounce\<close> starts the ingestion of exactly the wanted
  nodes, in order: not expired, not in the store already (so that announcements do not
  travel in circles), and for a reply in a community the peer subscribed to.  The first node
  of an unknown kind ends the loop: nothing after it is ingested and the one status that is
  sent says so; otherwise the status is ok.
\<close>

theorem OnAnnounce_ingests:
  assumes "writeFaults w = []"
  shows "OnAnnounce F W i ns w =
     (Ret (), w\<lparr>spawned := spawned w @
          filter (wanted F W w) (takeWhile (\<lambda>n. \<not> objectionable F W w n) ns),
        written := written w @ render F (StatusMsg i
          (if list_ex (objectionable F W w) ns then ErrorUnknownNode else StatusOk))\<rparr>)"
  using OnAnnounce_run [OF assms, of F W i ns] by (simp add: judge_Ingest judge_Unknown)

theorem OnAnnounce_ingests_witness:
  "spawned (snd (OnAnnounce one_forest demo_world 5
      [DemoNode 1 0 (CommunityNode 9) 0 10, DemoNode 8 0 (CommunityNode 9) 0 10,
       DemoNode 6 1 (ReplyNode 9 1) 1 5, DemoNode 4 0 OtherNode 0 0, DemoNode 9 0 IdentityNode 0 0] demo_worker))
   = [DemoNode 8 0 (CommunityNode 9) 0 10]"
  using OnAnnounce_ingests [of demo_worker one_forest demo_world 5
      "[DemoNode 1 0 (CommunityNode 9) 0 10, DemoNode 8 0 (CommunityNode 9) 0 10,
       DemoNode 6 1 (ReplyNode 9 1) 1 5, DemoNode 4 0 OtherNode 0 0, DemoNode 9 0 IdentityNode 0 0]"]
  by (simp add: wanted_def objectionable_def new_here_def demo_world_def demo_chain_def one_forest_def
      demo_forest_def IsSubscribed_def)

subsection \<open>Announcements out\<close>

definition shared_with_peer :: "('h, 'n) forest \<Rightarrow> ('n, 'h, 's) worker \<Rightarrow> 'n \<Rightarrow> bool" where
  "shared_with_peer F w n \<longleftrightarrow>
     (case nodeKind F n of
        IdentityNode \<Rightarrow> True
      | CommunityNode _ \<Rightarrow> True
      | ReplyNode _ community \<Rightarrow> IsSubscribed F (Communities w) community
      | OtherNode \<Rightarrow> False)"

lemma announce_errorOf:
  assumes "writeFaults w = []"
  shows "\<exists>p. seqM (errorOf (SendAnnounce F [n] wake)) (\<lambda>_. ret ()) w =
    (Ret (), (requested (render F (AnnounceMsg (nextMessageID w) [n])) w)\<lparr>PendingStatus := p\<rparr>)"
proof -
  let ?t = "requested (render F (AnnounceMsg (nextMessageID w) [n])) w"
  have same: "\<exists>p. ?t = ?t\<lparr>PendingStatus := p\<rparr>"
    by (rule exI [of _ "PendingStatus ?t"]) (simp del: render.simps)
  show ?thesis
  proof (cases wake)
    case (Received r)
    then show ?thesis
      by (cases r) (simp_all add: seqM_def errorOf_def SendAnnounce_def Send_requested [OF assms] ticket_def
          handleExpectedStatus_def same del: render.simps)
  next
    case TimeoutFired
    then show ?thesis
      by (auto simp: seqM_def errorOf_def SendAnnounce_def Send_requested [OF assms] ticket_def
          handleExpectedStatus_def Cancel_def simp del: render.simps)
  qed
qed

text \<open>
  What a worker tells its peer about a new node.  \<open>HandleNewNode\<close> writes one announce
  message with just that node when the node is an identity, a community, or a reply in a
  community the peer subscribed to, and nothing otherwise; it never fails, whatever the peer
  answers or does not answer.
\<close>

lemma HandleNewNode_writes:
  assumes "writeFaults w = []"
  shows "fst (HandleNewNode F wake n w) = Ret ()
       \<and> written (snd (HandleNewNode F wake n w)) =
           written w @ (if shared_with_peer F w n then render F (AnnounceMsg (nextMessageID w) [n]) else [])"
proof -
  obtain p where "seqM (errorOf (SendAnnounce F [n] wake)) (\<lambda>_. ret ()) w =
      (Ret (), (requested (render F (AnnounceMsg (nextMessageID w) [n])) w)\<lparr>PendingStatus := p\<rparr>)"
    using announce_errorOf [OF assms] by blast
  then show ?thesis
    by (cases "nodeKind F n") (simp_all add: HandleNewNode_def shared_with_peer_def requested_def Let_def)
qed

end
