(* ===== verification/Answers.thy ===== *)
theory Answers
  imports Gossip
begin

text \<open>
  What all handlers of a worker have in common: each request gets exactly one answer, and
  the relations between states that every handler keeps.  The second part is an interface:
  a relation that the few basic effects of a handler keep is kept by every handler, and so
  by \<open>ReadMessage\<close> on a worker's connection.
\<close>

subsection \<open>The basic effects of the handlers\<close>

locale handler_relation = run_relation R
  for R :: "('n, 'h, 's) worker \<Rightarrow> ('n, 'h, 's) worker \<Rightarrow> bool" +
  assumes R_write: "relates R (writeConn bs)"
    and R_subscribe: "relates R (subscribeFresh h)"
    and R_unsubscribe: "relates R (unsubscribeCommunity F W h)"
    and R_spawned: "R w (w\<lparr>spawned := ns\<rparr>)"
begin

lemma rel_SendStatus: "relates R (SendStatus i c)"
  unfolding SendStatus_def writeMessageWithID_def by (intro rel_rules R_write)

lemma rel_SendResponse: "relates R (SendResponse F i ns)"
  unfolding SendResponse_def writeMessageWithID_def by (intro rel_rules R_write)

lemma rel_fromStore: "relates R (fromStore c f)"
proof (rule relatesI)
  fix w
  show "R w (snd (fromStore c f w))"
    by (cases "f (theStore w)") (simp_all add: R_refl)
qed

lemma rel_getPresent: "relates R (getPresent W c hs)"
  by (induction hs) (auto intro!: rel_rules rel_fromStore)

lemma rel_climb: "relates R (climb F W k n)"
  by (induction k arbitrary: n) (auto intro!: rel_rules rel_fromStore)

lemma rel_slice_from: "relates R (slice_from low xs)"
  by (simp add: slice_from_def rel_rules)

lemma rel_OnAnnounce: "R w (snd (OnAnnounce F W i ns w))"
proof (induction ns arbitrary: w)
  case Nil
  then show ?case using relatesD [OF rel_SendStatus] by simp
next
  case (Cons n ns)
  show ?case
  proof (cases "judge F W w n")
    case Ingest
    have "R w (w\<lparr>spawned := spawned w @ [n]\<rparr>)" by (rule R_spawned)
    with Cons.IH [of "w\<lparr>spawned := spawned w @ [n]\<rparr>"] Ingest show ?thesis
      by (simp add: seqM_def spawnIngest_def R_trans)
  next
    case Unknown
    then show ?thesis using relatesD [OF rel_SendStatus] by simp
  qed (use Cons.IH in simp)
qed

lemmas rel_handler =
  rel_rules rel_SendStatus rel_SendResponse rel_fromStore rel_getPresent rel_climb
  rel_slice_from R_subscribe R_unsubscribe

lemma rel_handlers:
  "relates R (OnVersion i a b)" "relates R (OnList F W i t q)" "relates R (OnQuery F W i hs)"
  "relates R (OnAncestry F W i h l)" "relates R (OnLeavesOf F W i h l)"
  "relates R (OnSubscribe i h)" "relates R (OnUnsubscribe F W i h)" "relates R (OnAnnounce F W i ns)"
proof -
  show "relates R (OnAnnounce F W i ns)" by (rule relatesI) (rule rel_OnAnnounce)
qed (unfold OnVersion_def OnList_def OnQuery_def OnAncestry_def OnLeavesOf_def OnSubscribe_def
      OnUnsubscribe_def Let_def, (intro rel_handler)+)

lemma rel_workerHooks: "hooks_relate R (workerHooks F W)"
  by (simp add: hooks_relate_def hook_relates_def workerHooks_def rel_handlers)

end

subsection \<open>Instances\<close>

lemma relates_session:
  "relates R (subscribeFresh h)
     = (\<forall>w. R w (w\<lparr>Communities := Subscribe (nextPtr w) h (Communities w), nextPtr := Suc (nextPtr w)\<rparr>))"
  "relates R (unsubscribeCommunity F W h)
     = (\<forall>w. R w (w\<lparr>Communities := Unsubscribe F (visitMap W) h (Communities w)\<rparr>))"
  by (simp_all add: relates_def subscribeFresh_def unsubscribeCommunity_def)

text \<open>No handler touches the read side of its connection, and none touches the store.\<close>

interpretation handlers_input:
  handler_relation "same_input :: ('n, 'h, 's) worker \<Rightarrow> ('n, 'h, 's) worker \<Rightarrow> bool"
  by unfold_locales (simp_all add: same_input_writeConn relates_session)

abbreviation same_store :: "('n, 'h, 's) worker \<Rightarrow> ('n, 'h, 's) worker \<Rightarrow> bool" where
  "same_store w v \<equiv> theStore v = theStore w \<and> wakes v = wakes w \<and> subscriptionID v = subscriptionID w
     \<and> connClosed v = connClosed w \<and> nextMessageID v = nextMessageID w"

interpretation handlers_store:
  handler_relation "same_store :: ('n, 'h, 's) worker \<Rightarrow> ('n, 'h, 's) worker \<Rightarrow> bool"
  by unfold_locales (auto intro!: relatesI simp: relates_session writeConn_def split: list.splits option.splits)

lemma pending_inv_worker [simp]:
  fixes w :: "('n, 'h, 's) worker"
  shows "pending_inv (w\<lparr>Communities := cs, nextPtr := p\<rparr>) = pending_inv w"
    and "pending_inv (w\<lparr>Communities := cs\<rparr>) = pending_inv w"
    and "pending_inv (w\<lparr>spawned := ns\<rparr>) = pending_inv w"
  by (simp_all add: pending_inv_def)

interpretation handlers_pending:
  handler_relation "keeps_pending :: ('n, 'h, 's) worker \<Rightarrow> ('n, 'h, 's) worker \<Rightarrow> bool"
  by unfold_locales (auto intro: pend_writeConn simp: relates_session)

interpretation worker_pending:
  conn_relation "keeps_pending :: ('n, 'h, 's) worker \<Rightarrow> ('n, 'h, 's) worker \<Rightarrow> bool" "workerHooks F W"
  for F :: "('h, 'n) forest" and W :: "('h, 'n, 's) world"
  by unfold_locales (auto simp: pend_answer handlers_pending.rel_workerHooks)

interpretation worker_store:
  conn_relation "same_store :: ('n, 'h, 's) worker \<Rightarrow> ('n, 'h, 's) worker \<Rightarrow> bool" "workerHooks F W"
  for F :: "('h, 'n) forest" and W :: "('h, 'n, 's) world"
  by unfold_locales (auto simp: handlers_store.rel_workerHooks)

subsection \<open>One answer per request\<close>

text \<open>Operations that write nothing, and operations that write one answer.\<close>

abbreviation quiet :: "('n, 'h, 's) worker \<Rightarrow> ('n, 'h, 's) worker \<Rightarrow> bool" where
  "quiet w v \<equiv> written v = written w \<and> writeFaults v = writeFaults w"

interpretation quiet: run_relation "quiet :: ('n, 'h, 's) worker \<Rightarrow> ('n, 'h, 's) worker \<Rightarrow> bool"
  by unfold_locales auto

definition answer_to :: "int \<Rightarrow> ('h, 'n) message \<Rightarrow> bool" where
  "answer_to i a \<longleftrightarrow> (\<exists>c. a = StatusMsg i c) \<or> (\<exists>ns. a = ResponseMsg i ns)"

definition answers_once :: "('h, 'n) forest \<Rightarrow> int \<Rightarrow> (('n, 'h, 's) worker, unit) go \<Rightarrow> bool" where
  "answers_once F i m \<longleftrightarrow>
     (\<forall>w. writeFaults w = [] \<longrightarrow>
        (if fst (m w) = Ret ()
         then \<exists>a. answer_to i a \<and> written (snd (m w)) = written w @ render F a
         else written (snd (m w)) = written w))"

lemma answers_onceD:
  "answers_once F i m \<Longrightarrow> writeFaults w = [] \<Longrightarrow>
   if fst (m w) = Ret () then \<exists>a. answer_to i a \<and> written (snd (m w)) = written w @ render F a
   else written (snd (m w)) = written w"
  by (simp add: answers_once_def)

lemma answers_SendStatus: "answers_once F i (SendStatus i c)"
  unfolding answers_once_def answer_to_def by (simp add: SendStatus_ok [of _ _ _ F] del: render.simps) blast

lemma answers_SendResponse: "answers_once F i (SendResponse F i ns)"
  unfolding answers_once_def answer_to_def by (simp add: SendResponse_ok del: render.simps) blast

lemma answers_fail: "answers_once F i (fail e)"
  by (simp add: answers_once_def)

lemma answers_panic: "answers_once F i (panic p)"
  by (simp add: answers_once_def)

lemma answers_onErr: "answers_once F i m \<Longrightarrow> answers_once F i (onErr c m)"
  unfolding answers_once_def onErr_def by (fastforce split: prod.splits res.splits)

lemma answers_seqM:
  fixes m :: "(('n, 'h, 's) worker, 'a) go"
  assumes "relates quiet m" and "\<And>a. answers_once F i (f a)"
  shows "answers_once F i (seqM m f)"
  unfolding answers_once_def
proof (intro allI impI)
  fix w :: "('n, 'h, 's) worker"
  assume w: "writeFaults w = []"
  obtain r v where m: "m w = (r, v)" by (cases "m w")
  then have v: "written v = written w" "writeFaults v = []"
    using relatesD [OF assms(1), of w] w by simp_all
  show "if fst (seqM m f w) = Ret () then \<exists>a. answer_to i a \<and> written (snd (seqM m f w)) = written w @ render F a
      else written (snd (seqM m f w)) = written w"
  proof (cases r)
    case (Ret a)
    with m have "seqM m f w = f a v" by (simp add: seqM_def)
    then show ?thesis using answers_onceD [OF assms(2) v(2), of a] v(1) by (simp split: if_splits)
  qed (use m v in \<open>simp_all add: seqM_def\<close>)
qed

lemma quiet_fromStore: "relates quiet (fromStore c f)"
proof (rule relatesI)
  fix w
  show "quiet w (snd (fromStore c f w))" by (cases "f (theStore w)") simp_all
qed

lemma quiet_getPresent: "relates quiet (getPresent W c hs)"
  by (induction hs) (auto intro!: quiet.rel_rules quiet_fromStore)

lemma quiet_climb: "relates quiet (climb F W k n)"
  by (induction k arbitrary: n) (auto intro!: quiet.rel_rules quiet_fromStore)

lemma quiet_pure:
  "relates quiet (subscribeFresh h)" "relates quiet (unsubscribeCommunity F W h)"
  "relates quiet (spawnIngest n)" "relates quiet (slice_from low xs)"
  by (simp_all add: relates_def subscribeFresh_def unsubscribeCommunity_def spawnIngest_def slice_from_def)

lemma answers_if: "answers_once F i m \<Longrightarrow> answers_once F i m' \<Longrightarrow> answers_once F i (if b then m else m')"
  by simp

lemma answers_case_option:
  "answers_once F i m \<Longrightarrow> (\<And>x. answers_once F i (f x)) \<Longrightarrow> answers_once F i (case y of None \<Rightarrow> m | Some x \<Rightarrow> f x)"
  by (cases y) simp_all

lemmas answers_rules =
  answers_SendStatus answers_SendResponse answers_fail answers_panic answers_onErr answers_seqM
  answers_if answers_case_option quiet_fromStore quiet_getPresent quiet_climb quiet_pure
  quiet.rel_rules

lemma answers_OnAnnounce: "answers_once F i (OnAnnounce F W i ns)"
proof (induction ns)
  case Nil
  show ?case by (simp add: answers_SendStatus [unfolded answers_once_def] answers_once_def)
next
  case (Cons n ns)
  then have "answers_once F i (seqM (spawnIngest n) (\<lambda>_. OnAnnounce F W i ns))"
    by (intro answers_rules)
  with Cons answers_SendStatus [of F i ErrorUnknownNode] show ?case
    unfolding answers_once_def by (auto split: verdict.split simp del: split_paired_All)
qed

lemma answers_handlers:
  "answers_once F i (OnVersion i a b)" "answers_once F i (OnList F W i t q)"
  "answers_once F i (OnQuery F W i hs)" "answers_once F i (OnAncestry F W i h l)"
  "answers_once F i (OnLeavesOf F W i h l)" "answers_once F i (OnSubscribe i h)"
  "answers_once F i (OnUnsubscribe F W i h)"
  unfolding OnVersion_def OnList_def OnQuery_def OnAncestry_def OnLeavesOf_def OnSubscribe_def
    OnUnsubscribe_def Let_def
  by (intro answers_rules)+

fun request_id :: "('h, 'n) message \<Rightarrow> int option" where
  "request_id (VersionMsg i _ _) = Some i"
| "request_id (ListMsg i _ _) = Some i"
| "request_id (QueryMsg i _) = Some i"
| "request_id (AncestryMsg i _ _) = Some i"
| "request_id (LeavesOfMsg i _ _) = Some i"
| "request_id (SubscribeMsg i _) = Some i"
| "request_id (UnsubscribeMsg i _) = Some i"
| "request_id (AnnounceMsg i _) = Some i"
| "request_id _ = None"

lemma answers_dispatch:
  "request_id m = Some i \<Longrightarrow> answers_once F i (dispatch (workerHooks F W) m)"
  by (cases m) (auto simp: workerHooks_def runHook_def answers_handlers answers_OnAnnounce intro!: answers_onErr)

lemma rel_dispatch:
  assumes "hooks_relate R H" and "request_id m = Some i" and "run_relation R"
  shows "relates R (dispatch H m)"
proof -
  note rules = run_relation.rel_onErr [OF assms(3)] run_relation.rel_fail [OF assms(3)]
  show ?thesis
    using assms(1,2) by (cases m) (auto simp: hooks_relate_def hook_relates_def runHook_def
        intro!: rules split: option.splits)
qed

lemma rel_dispatch_worker:
  assumes "request_id m = Some i"
  shows "relates same_input (dispatch (workerHooks F W) m)"
    and "relates same_store (dispatch (workerHooks F W) m)"
  by (rule rel_dispatch [OF _ assms], rule handlers_input.rel_workerHooks, unfold_locales,
      rule rel_dispatch [OF _ assms], rule handlers_store.rel_workerHooks, unfold_locales)

text \<open>
  C5.  One answer per request.  Whatever request a worker reads, \<open>ReadMessage\<close> either returns
  nil and has written exactly one status or response message carrying the identifier of the
  request, or it returns an error (or panics) and has written nothing; in both cases the
  request is read to its end and the node store is untouched.
\<close>

theorem one_answer_per_request:
  assumes "writeFaults w = []" and "message_ok F m" and "request_id m = Some i"
    and "ReadMessage F (workerHooks F W) (w\<lparr>BufferedConn := runes (render F m) @ rest\<rparr>) = (r, v)"
  shows "(if r = Ret () then \<exists>a. answer_to i a \<and> written v = written w @ render F a
          else written v = written w)
       \<and> BufferedConn v = rest \<and> theStore v = theStore w"
proof -
  let ?w = "w\<lparr>BufferedConn := rest\<rparr>" and ?call = "dispatch (workerHooks F W) m"
  have v: "?call ?w = (r, v)"
    using assms(4) by (simp add: ReadMessage_dispatch [OF assms(2)])
  have "writeFaults ?w = []" using assms(1) by simp
  from answers_onceD [OF answers_dispatch [OF assms(3), of F W] this] v
  have "if r = Ret () then \<exists>a. answer_to i a \<and> written v = written w @ render F a else written v = written w"
    by (simp split: if_splits del: render.simps)
  moreover have "BufferedConn v = rest \<and> theStore v = theStore w"
    using v relatesD [OF rel_dispatch_worker(1) [where F = F and W = W, OF assms(3)], of ?w]
      relatesD [OF rel_dispatch_worker(2) [where F = F and W = W, OF assms(3)], of ?w]
    by simp
  ultimately show ?thesis by blast
qed

theorem one_answer_per_request_witness:
  "\<exists>a. answer_to 5 a \<and>
     written (snd (ReadMessage one_forest (workerHooks one_forest demo_world)
       (demo_worker\<lparr>BufferedConn := runes (render one_forest (VersionMsg 5 0 1)) @ []\<rparr>))) = render one_forest a"
proof -
  let ?w = "demo_worker\<lparr>BufferedConn := runes (render one_forest (VersionMsg 5 0 1)) @ []\<rparr>"
  let ?v = "snd (ReadMessage one_forest (workerHooks one_forest demo_world) ?w)"
  have m: "message_ok one_forest (VersionMsg 5 0 1)" by (simp add: int64_def)
  have "ReadMessage one_forest (workerHooks one_forest demo_world) ?w = (Ret (), ?v)"
    using ReadMessage_dispatch [OF m, where s = demo_worker and rest = "[]" and H = "workerHooks one_forest demo_world"]
    by (simp add: workerHooks_def runHook_def onErr_def OnVersion_def CurrentMajor_def SendStatus_ok [of _ _ _ one_forest]
        del: render.simps)
  from one_answer_per_request [OF _ m _ this] show ?thesis by (simp del: render.simps)
qed

end
