(* ===== verification/Run.thy ===== *)
theory Run
  imports Answers
begin

text \<open>
  The life of a worker: \<open>Run\<close> subscribes to the store, reads messages until the connection
  fails or \<open>Done\<close> is closed, and cleans up.  \<open>done k\<close> says whether \<open>Done\<close> is closed when
  it is looked at after the \<open>k\<close>th message.  The loop is a partial function; that it returns
  on every input is a theorem.
\<close>

subsection \<open>The loop\<close>

datatype stop = DoneClosed | ReadFailed err | Crashed panic

partial_function (option) runLoop ::
    "('h, 'n) forest \<Rightarrow> ('h, 'n, 's) world \<Rightarrow> (nat \<Rightarrow> bool) \<Rightarrow> nat \<Rightarrow> ('n, 'h, 's) worker
     \<Rightarrow> (stop \<times> ('n, 'h, 's) worker) option" where
  "runLoop F W done k w =
     (case ReadMessage F (workerHooks F W) w of
        (Ret _, v) \<Rightarrow> if done k then Some (DoneClosed, v) else runLoop F W done (Suc k) v
      | (Fail e, v) \<Rightarrow>
          (case asUnsolicited e of
             None \<Rightarrow> Some (ReadFailed e, v)
           | Some i \<Rightarrow> if done k then Some (DoneClosed, v) else runLoop F W done (Suc k) v)
      | (Panic p, v) \<Rightarrow> Some (Crashed p, v))"

definition subscribeStore :: "('h, 'n, 's) world \<Rightarrow> ('n, 'h, 's) worker \<Rightarrow> ('n, 'h, 's) worker" where
  "subscribeStore W w =
     (case SubscribeToNewMessages W (theStore w) of
        (sub, s) \<Rightarrow> w\<lparr>theStore := s, subscriptionID := sub\<rparr>)"

text \<open>The deferred calls, in the order in which they run.\<close>

definition cleanup :: "('h, 'n, 's) world \<Rightarrow> ('n, 'h, 's) worker \<Rightarrow> ('n, 'h, 's) worker" where
  "cleanup W w =
     w\<lparr>theStore := UnsubscribeToNewMessages W (subscriptionID w) (theStore w), connClosed := True\<rparr>"

definition Run ::
    "('h, 'n) forest \<Rightarrow> ('h, 'n, 's) world \<Rightarrow> (nat \<Rightarrow> bool) \<Rightarrow> ('n, 'h, 's) worker
     \<Rightarrow> (stop \<times> ('n, 'h, 's) worker) option" where
  "Run F W done w =
     map_option (\<lambda>(stop, v). (stop, cleanup W v)) (runLoop F W done 0 (subscribeStore W w))"

subsection \<open>Termination\<close>

text \<open>An unsolicited answer has been read before it is found to be unsolicited.\<close>

lemma SkipSpace_Fail: "SkipSpace rs = (Fail e, t) \<Longrightarrow> asUnsolicited e = None"
  by (induction rs rule: SkipSpace.induct) (auto split: if_splits)

lemma scan_word_Fail: "scan_word rs = (Fail e, t) \<Longrightarrow> asUnsolicited e = None"
  by (auto simp: scan_word_def seqM_def notEOF_def dest: SkipSpace_Fail split: prod.splits res.splits if_splits)

lemma Fscanf_verb_Fail: "Fscanf ''%s'' [KString] rs = (Fail e, t) \<Longrightarrow> asUnsolicited e = None"
  by (auto simp: Fscanf_def seqM_def dest: SkipSpace_Fail scan_word_Fail split: prod.splits res.splits)

interpretation worker_reading:
  conn_relation "shorter_input :: ('n, 'h, 's) worker \<Rightarrow> ('n, 'h, 's) worker \<Rightarrow> bool" "workerHooks F W"
  for F :: "('h, 'n) forest" and W :: "('h, 'n, 's) world"
  by (rule conn_relation_shorter) (rule handlers_input.rel_workerHooks)

lemma ReadMessage_unsolicited_shorter:
  assumes "ReadMessage F (workerHooks F W) w = (Fail e, v)" and "asUnsolicited e = Some i"
  shows "length (BufferedConn v) < length (BufferedConn w)"
proof -
  let ?scan = "Fscanf ''%s'' [KString] (BufferedConn w)"
  obtain r rest where scan: "?scan = (r, rest)" by (cases ?scan)
  with assms obtain vs where r: "r = Ret vs"
    by (cases r) (auto simp: ReadMessage_readCase seqM_def onErr_def onInput_def dest: Fscanf_verb_Fail)
  have "length rest < length (BufferedConn w)"
    using scan unfolding r by (rule Fscanf_verb_shorter)
  moreover have "suffix (BufferedConn v) rest"
  proof (cases "length vs < 1")
    case True
    with assms scan r show ?thesis
      by (auto simp: ReadMessage_readCase seqM_def onErr_def onInput_def)
  next
    case False
    with assms(1) scan r have "readCase F (workerHooks F W) (vstr (vs ! 0)) (w\<lparr>BufferedConn := rest\<rparr>) = (Fail e, v)"
      by (simp add: ReadMessage_readCase seqM_def onErr_def onInput_def)
    moreover have "relates shorter_input (readCase F (workerHooks F W) (vstr (vs ! 0)))"
      by (rule worker_reading.rel_readCase)
    from relatesD [OF this, of "w\<lparr>BufferedConn := rest\<rparr>"]
    have "suffix (BufferedConn (snd (readCase F (workerHooks F W) (vstr (vs ! 0)) (w\<lparr>BufferedConn := rest\<rparr>)))) rest"
      by simp
    ultimately show ?thesis by simp
  qed
  ultimately show ?thesis by (auto dest: suffix_length_le)
qed

text \<open>One round of the loop: what the next \<open>ReadMessage\<close> leads to.\<close>

lemma runLoop_step:
  "ReadMessage F (workerHooks F W) w = (Ret u, v) \<Longrightarrow>
     runLoop F W done k w = (if done k then Some (DoneClosed, v) else runLoop F W done (Suc k) v)"
  "ReadMessage F (workerHooks F W) w = (Fail e, v) \<Longrightarrow> asUnsolicited e = Some i \<Longrightarrow>
     runLoop F W done k w = (if done k then Some (DoneClosed, v) else runLoop F W done (Suc k) v)"
  "ReadMessage F (workerHooks F W) w = (Fail e, v) \<Longrightarrow> asUnsolicited e = None \<Longrightarrow>
     runLoop F W done k w = Some (ReadFailed e, v)"
  "ReadMessage F (workerHooks F W) w = (Panic p, v) \<Longrightarrow> runLoop F W done k w = Some (Crashed p, v)"
  by (subst runLoop.simps, simp)+

lemma read_same_store: "ReadMessage F (workerHooks F W) w = (r, v) \<Longrightarrow> same_store w v"
  using relatesD [OF worker_store.rel_ReadMessage [where F = F and W = W and Fa = F], of w] by simp

lemma runLoop_returns: "\<exists>stop v. runLoop F W done k w = Some (stop, v) \<and> same_store w v"
proof (induction "length (BufferedConn w)" arbitrary: k w rule: less_induct)
  case less
  obtain r v where read: "ReadMessage F (workerHooks F W) w = (r, v)" by (cases "ReadMessage F (workerHooks F W) w")
  then have same: "same_store w v" by (rule read_same_store)
  consider (go) "length (BufferedConn v) < length (BufferedConn w)"
      "runLoop F W done k w = (if done k then Some (DoneClosed, v) else runLoop F W done (Suc k) v)"
    | (halt) stop where "runLoop F W done k w = Some (stop, v)"
  proof (cases r)
    case (Ret u)
    with read ReadMessage_shorter [OF handlers_input.rel_workerHooks] runLoop_step(1) that(1) show ?thesis
      by metis
  next
    case (Fail e)
    with read ReadMessage_unsolicited_shorter runLoop_step(2,3) that show ?thesis
      by (metis option.exhaust)
  next
    case (Panic p)
    with read runLoop_step(4) that(2) show ?thesis by metis
  qed
  then show ?case
  proof cases
    case go
    from less [OF go(1), of "Suc k"] go(2) same show ?thesis by auto
  qed (use same in blast)
qed


subsection \<open>What the loop does with a stream of messages\<close>

definition stream :: "('h, 'n) forest \<Rightarrow> ('h, 'n) message list \<Rightarrow> rune list" where
  "stream F ms = concat (map (\<lambda>m. runes (render F m)) ms)"

lemma stream_simps [simp]:
  "stream F [] = []" "stream F (m # ms) = runes (render F m) @ stream F ms"
  by (simp_all add: stream_def)

lemma ReadMessage_EOF:
  "ReadMessage F H (s\<lparr>BufferedConn := []\<rparr>)
   = (Fail (Wrapped (InConn ScanningVerb) (Scan SEOF)), s\<lparr>BufferedConn := []\<rparr>)"
  by (simp add: ReadMessage_readCase seqM_def onErr_def onInput_update Fscanf_def scan_word_def notEOF_def)

text \<open>
  C27.  Answers nobody waits for are skipped.  Any number of status and response messages
  for identifiers that have no pending request leave the worker running, as if they had not
  been sent.
\<close>

theorem unsolicited_answers_skipped:
  assumes "list_all (message_ok F) ms"
    and "\<forall>m\<in>set ms. \<exists>i c ns. PendingStatus w i = None \<and> (m = StatusMsg i c \<or> m = ResponseMsg i ns)"
  shows "runLoop F W (\<lambda>_. False) k (w\<lparr>BufferedConn := stream F ms @ rest\<rparr>)
       = runLoop F W (\<lambda>_. False) (k + length ms) (w\<lparr>BufferedConn := rest\<rparr>)"
  using assms
proof (induction ms arbitrary: k)
  case Nil
  then show ?case by simp
next
  case (Cons m ms)
  then obtain i c ns where "PendingStatus w i = None" "message_ok F m" "m = StatusMsg i c \<or> m = ResponseMsg i ns"
    by auto
  from read_unsolicited [OF this, of "workerHooks F W" "stream F ms @ rest"] obtain e where
    "ReadMessage F (workerHooks F W) (w\<lparr>BufferedConn := runes (render F m) @ stream F ms @ rest\<rparr>)
      = (Fail e, w\<lparr>BufferedConn := stream F ms @ rest\<rparr>)" "asUnsolicited e = Some i"
    by blast
  from runLoop_step(2) [OF this, of "\<lambda>_. False" k] Cons show ?case by (simp del: render.simps)
qed

theorem unsolicited_answers_skipped_witness:
  "runLoop one_forest demo_world (\<lambda>_. False) 0
     (demo_worker\<lparr>BufferedConn := stream one_forest [StatusMsg 3 0, ResponseMsg 4 [one_node]] @ []\<rparr>)
   = runLoop one_forest demo_world (\<lambda>_. False) (0 + length [StatusMsg 3 0, ResponseMsg 4 [one_node] :: (nat, demo_node) message])
     (demo_worker\<lparr>BufferedConn := []\<rparr>)"
  by (rule unsolicited_answers_skipped)
    (simp_all add: int64_def makeslice_ok_def demo_worker_def NewWorker_def NewConn_def conn.defs)

subsection \<open>Requests in a row\<close>

abbreviation stays_working :: "('n, 'h, 's) worker \<Rightarrow> ('n, 'h, 's) worker \<Rightarrow> bool" where
  "stays_working w v \<equiv> writeFaults w = [] \<longrightarrow> writeFaults v = []"

interpretation handlers_working:
  handler_relation "stays_working :: ('n, 'h, 's) worker \<Rightarrow> ('n, 'h, 's) worker \<Rightarrow> bool"
  by unfold_locales (auto intro!: relatesI simp: relates_session writeConn_def split: list.splits option.splits)

text \<open>Operations whose errors are never taken for an unsolicited answer.\<close>

definition plain_errors :: "('s, 'a) go \<Rightarrow> bool" where
  "plain_errors m \<longleftrightarrow> (\<forall>s e t. m s = (Fail e, t) \<longrightarrow> asUnsolicited e = None)"

lemma plain_errorsD: "plain_errors m \<Longrightarrow> m s = (Fail e, t) \<Longrightarrow> asUnsolicited e = None"
  unfolding plain_errors_def by blast

lemma plain_errors_basic:
  "plain_errors (Pair (Ret a))" "plain_errors (ret a)" "plain_errors (panic p)" "plain_errors (slice_from low xs)"
  "asUnsolicited e = None \<Longrightarrow> plain_errors (fail e)"
  "plain_errors (subscribeFresh h)" "plain_errors (unsubscribeCommunity F W h)"
  by (auto simp: plain_errors_def slice_from_def subscribeFresh_def unsubscribeCommunity_def)

lemma plain_errors_seqM: "plain_errors m \<Longrightarrow> (\<And>a. plain_errors (f a)) \<Longrightarrow> plain_errors (seqM m f)"
  unfolding plain_errors_def seqM_def by (auto split: prod.splits res.splits)

lemma plain_errors_onErr:
  "plain_errors m \<Longrightarrow> plain_errors (onErr (Wrapped c) m)"
  "plain_errors (onErr (Flattened c) m)"
  unfolding plain_errors_def onErr_def by (auto split: prod.splits res.splits)

lemma plain_errors_fromStore: "plain_errors (fromStore c f)"
  unfolding plain_errors_def fromStore_def lift_sum_def by (auto split: sum.splits)

lemma plain_errors_cases:
  "plain_errors m \<Longrightarrow> plain_errors m' \<Longrightarrow> plain_errors (if b then m else m')"
  "plain_errors m \<Longrightarrow> (\<And>x. plain_errors (f x)) \<Longrightarrow> plain_errors (case y of None \<Rightarrow> m | Some x \<Rightarrow> f x)"
  by (auto split: option.splits)

lemma plain_errors_send: "plain_errors (SendStatus i c)" "plain_errors (SendResponse F i ns)"
  unfolding SendStatus_def SendResponse_def writeMessageWithID_def
  by (intro plain_errors_seqM plain_errors_onErr plain_errors_basic)+

lemma plain_errors_getPresent: "plain_errors (getPresent W c hs)"
  by (induction hs) (auto intro!: plain_errors_basic plain_errors_seqM plain_errors_fromStore plain_errors_cases)

lemma plain_errors_climb: "plain_errors (climb F W k n)"
  by (induction k arbitrary: n)
    (auto intro!: plain_errors_basic plain_errors_seqM plain_errors_fromStore plain_errors_cases)

lemma plain_errors_OnAnnounce: "plain_errors (OnAnnounce F W i ns)"
proof (induction ns)
  case Nil
  show ?case using plain_errors_send(1) [of i StatusOk] by (simp add: plain_errors_def)
next
  case (Cons n ns)
  have "plain_errors (seqM (spawnIngest n) (\<lambda>_. OnAnnounce F W i ns))"
    by (rule plain_errors_seqM) (simp_all add: Cons plain_errors_def [of "spawnIngest n"] spawnIngest_def)
  note parts = plain_errorsD [OF this] plain_errorsD [OF Cons] plain_errorsD [OF plain_errors_send(1)]
  show ?case
    unfolding plain_errors_def by (auto split: verdict.splits dest: parts)
qed

lemmas plain_errors_rules =
  plain_errors_basic plain_errors_seqM plain_errors_onErr plain_errors_fromStore plain_errors_cases
  plain_errors_send plain_errors_getPresent plain_errors_climb

lemma plain_errors_handlers:
  "plain_errors (OnVersion i a b)" "plain_errors (OnList F W i t q)" "plain_errors (OnQuery F W i hs)"
  "plain_errors (OnAncestry F W i h l)" "plain_errors (OnLeavesOf F W i h l)"
  "plain_errors (OnSubscribe i h)" "plain_errors (OnUnsubscribe F W i h)"
  unfolding OnVersion_def OnList_def OnQuery_def OnAncestry_def OnLeavesOf_def OnSubscribe_def
    OnUnsubscribe_def Let_def
  by ((intro plain_errors_rules; simp)+)

lemma plain_errors_dispatch:
  "request_id m = Some i \<Longrightarrow> plain_errors (dispatch (workerHooks F W) m)"
  by (cases m) (auto simp: workerHooks_def runHook_def plain_errors_handlers plain_errors_OnAnnounce
      intro!: plain_errors_onErr)

text \<open>\<open>answered_by ms as\<close>: the \<open>as\<close> are answers to the first requests of \<open>ms\<close>, in order.\<close>

fun answered_by :: "('h, 'n) message list \<Rightarrow> ('h, 'n) message list \<Rightarrow> bool" where
  "answered_by ms [] = True"
| "answered_by [] (a # as) = False"
| "answered_by (m # ms) (a # as) = ((\<exists>i. request_id m = Some i \<and> answer_to i a) \<and> answered_by ms as)"

lemma serve_request:
  assumes "writeFaults w = []" and "message_ok F m" and "request_id m = Some i"
    and read: "ReadMessage F (workerHooks F W) (w\<lparr>BufferedConn := runes (render F m) @ rest\<rparr>) = (r, v)"
  shows "BufferedConn v = rest" and "writeFaults v = []"
    and "r = Ret () \<Longrightarrow> \<exists>a. answer_to i a \<and> written v = written w @ render F a"
    and "r \<noteq> Ret () \<Longrightarrow> written v = written w"
    and "r = Fail e \<Longrightarrow> asUnsolicited e = None"
proof -
  let ?w = "w\<lparr>BufferedConn := rest\<rparr>"
  have v: "dispatch (workerHooks F W) m ?w = (r, v)"
    using read by (simp add: ReadMessage_dispatch [OF assms(2)])
  have "relates stays_working (dispatch (workerHooks F W) m)"
    by (rule rel_dispatch [OF _ assms(3)], rule handlers_working.rel_workerHooks, unfold_locales)
  from relatesD [OF this, of ?w] v assms(1) show "writeFaults v = []" by simp
  from relatesD [OF rel_dispatch_worker(1) [where F = F and W = W, OF assms(3)], of ?w] v
  show "BufferedConn v = rest" by simp
  from assms(1) have "writeFaults ?w = []" by simp
  from answers_onceD [OF answers_dispatch [OF assms(3), of F W] this] v
  show "r = Ret () \<Longrightarrow> \<exists>a. answer_to i a \<and> written v = written w @ render F a"
    and "r \<noteq> Ret () \<Longrightarrow> written v = written w"
    by (simp_all del: render.simps)
  show "r = Fail e \<Longrightarrow> asUnsolicited e = None"
    using plain_errors_dispatch [OF assms(3), of F W] v unfolding plain_errors_def by blast
qed

text \<open>
  C6.  Pipelined requests are answered in order.  On any stream of requests the loop writes
  answers to the first of them, in the order of the requests and nothing else; if that are
  not all of them, the loop stopped at the first request that has no answer, because its
  handler failed (or panicked); if all are answered, it stopped at the end of the stream.
\<close>

theorem requests_answered_in_order:
  assumes "writeFaults w = []" and "list_all (message_ok F) ms" and "\<forall>m\<in>set ms. request_id m \<noteq> None"
  shows "\<exists>stop v as. runLoop F W (\<lambda>_. False) k (w\<lparr>BufferedConn := stream F ms\<rparr>) = Some (stop, v)
      \<and> answered_by ms as \<and> written v = written w @ concat (map (render F) as)
      \<and> (length as = length ms \<longrightarrow> stop = ReadFailed (Wrapped (InConn ScanningVerb) (Scan SEOF)))
      \<and> (length as < length ms \<longrightarrow> BufferedConn v = stream F (drop (Suc (length as)) ms))"
  using assms
proof (induction ms arbitrary: w k)
  case Nil
  show ?case
    by (subst runLoop.simps) (simp add: ReadMessage_EOF exI [of _ "[]"])
next
  case (Cons m ms)
  let ?w = "w\<lparr>BufferedConn := runes (render F m) @ stream F ms\<rparr>"
  obtain i where i: "request_id m = Some i" and ok: "message_ok F m" using Cons.prems by auto
  obtain r v where read: "ReadMessage F (workerHooks F W) ?w = (r, v)" by (cases "ReadMessage F (workerHooks F W) ?w")
  note served = serve_request [OF Cons.prems(1) ok i read]
  have rest: "v\<lparr>BufferedConn := stream F ms\<rparr> = v" using served(1) by simp
  show ?case
  proof (cases "r = Ret ()")
    case True
    then obtain a where a: "answer_to i a" "written v = written w @ render F a" using served(3) by blast
    have go: "runLoop F W (\<lambda>_. False) k ?w = runLoop F W (\<lambda>_. False) (Suc k) v"
      using runLoop_step(1) [of F W ?w "()" v "\<lambda>_. False" k] read True by simp
    obtain stop u as where "runLoop F W (\<lambda>_. False) (Suc k) v = Some (stop, u)"
        "answered_by ms as" "written u = written v @ concat (map (render F) as)"
        "length as = length ms \<longrightarrow> stop = ReadFailed (Wrapped (InConn ScanningVerb) (Scan SEOF))"
        "length as < length ms \<longrightarrow> BufferedConn u = stream F (drop (Suc (length as)) ms)"
      using Cons.IH [of v "Suc k"] Cons.prems served(2) unfolding rest by auto
    then show ?thesis
      using go a i by (intro exI [of _ stop] exI [of _ u] exI [of _ "a # as"]) (simp del: render.simps)
  next
    case False
    then obtain stop where "runLoop F W (\<lambda>_. False) k ?w = Some (stop, v)"
      using runLoop_step(3,4) [of F W ?w _ v "\<lambda>_. False" k] read served(5) by (cases r) auto
    then show ?thesis
      using served(1) served(4) [OF False]
      by (intro exI [of _ stop] exI [of _ v] exI [of _ "[]"]) (simp del: render.simps)
  qed
qed

theorem requests_answered_in_order_witness:
  "\<exists>stop v as. runLoop one_forest demo_world (\<lambda>_. False) 0
       (demo_worker\<lparr>BufferedConn := stream one_forest [VersionMsg 0 0 0, QueryMsg 1 [3]]\<rparr>) = Some (stop, v)
     \<and> answered_by [VersionMsg 0 0 0, QueryMsg 1 [3]] as
     \<and> written v = concat (map (render one_forest) as)"
  using requests_answered_in_order [of demo_worker one_forest "[VersionMsg 0 0 0, QueryMsg 1 [3]]" demo_world 0]
  by (fastforce simp: int64_def makeslice_ok_def simp del: render.simps stream_simps)

end
