(* ===== verification/Reach.thy ===== *)
theory Reach
  imports Run
begin

text \<open>
  The life of a worker's connection as a transition system.  The read loop, goroutines that
  send requests and give up on them, the network and the other users of the node store take
  turns; a step is one call.  \<open>runs F W n w\<close>: the state \<open>w\<close> can be reached with \<open>n\<close>
  requests sent.
\<close>

subsection \<open>Steps\<close>

text \<open>The requests a goroutine can send.\<close>

datatype ('h, 'n) request =
    RVersion | RList int int | RQuery "'h list" | RAncestry 'h int | RLeavesOf 'h int
  | RSubscribe 'h | RUnsubscribe 'h | RAnnounce "'n list"

fun sendAsync :: "('h, 'n) forest \<Rightarrow> ('h, 'n) request \<Rightarrow> (('n, 'x) conn_scheme, async) go" where
  "sendAsync F RVersion = SendVersionAsync"
| "sendAsync F (RList t q) = SendListAsync t q"
| "sendAsync F (RQuery hs) = SendQueryAsync F hs"
| "sendAsync F (RAncestry h l) = SendAncestryAsync F h l"
| "sendAsync F (RLeavesOf h q) = SendLeavesOfAsync F h q"
| "sendAsync F (RSubscribe h) = SendSubscribeByIDAsync F h"
| "sendAsync F (RUnsubscribe h) = SendUnsubscribeByIDAsync F h"
| "sendAsync F (RAnnounce ns) = SendAnnounceAsync F ns"

inductive step :: "('h, 'n) forest \<Rightarrow> ('h, 'n, 's) world \<Rightarrow> nat \<Rightarrow> ('n, 'h, 's) worker \<Rightarrow> ('n, 'h, 's) worker \<Rightarrow> bool"
  for F :: "('h, 'n) forest" and W :: "('h, 'n, 's) world" where
  read: "step F W 0 w (snd (ReadMessage F (workerHooks F W) w))"
| send: "step F W 1 w (snd (sendAsync F r w))"
| cancel: "step F W 0 w (snd (Cancel i w))"
| arrive: "step F W 0 w (w\<lparr>BufferedConn := BufferedConn w @ rs\<rparr>)"
| store: "step F W 0 w (w\<lparr>theStore := s\<rparr>)"

inductive runs :: "('h, 'n) forest \<Rightarrow> ('h, 'n, 's) world \<Rightarrow> nat \<Rightarrow> ('n, 'h, 's) worker \<Rightarrow> bool"
  for F :: "('h, 'n) forest" and W :: "('h, 'n, 's) world" where
  start: "runs F W 0 (NewWorker transport faults s)"
| further: "runs F W n w \<Longrightarrow> step F W k w v \<Longrightarrow> runs F W (n + k) v"

inductive_cases step_cases: "step F W k w v"

subsection \<open>No channel is used twice\<close>

lemma sendAsync_writes: "\<exists>verb format args. sendAsync F r s = writeMessageAsync verb format args s"
proof (cases r)
  case RVersion
  then show ?thesis by (simp add: SendVersionAsync_def) blast
qed (simp_all add: SendListAsync_def SendQueryAsync_def SendAncestryAsync_def SendLeavesOfAsync_def
    SendSubscribeByIDAsync_def SendUnsubscribeByIDAsync_def subscribeOpIDAsync_def SendAnnounceAsync_def, blast+)

text \<open>A relation kept by the five kinds of calls is kept by a step.\<close>

lemma step_relates:
  assumes "step F W k w v"
    and "relates R (ReadMessage F (workerHooks F W))"
    and "\<And>verb format args. relates R (writeMessageAsync verb format args)"
    and "\<And>i. relates R (Cancel i)"
    and "\<And>bs. R w (w\<lparr>BufferedConn := bs\<rparr>)" and "\<And>s. R w (w\<lparr>theStore := s\<rparr>)"
  shows "R w v"
  using assms(1)
proof (rule step_cases)
  fix r
  assume v: "v = snd (sendAsync F r w)"
  obtain verb format args where "sendAsync F r w = writeMessageAsync verb format args w"
    using sendAsync_writes by blast
  with v relatesD [OF assms(3)] show "R w v" by simp
qed (use assms(2,4,5,6) in \<open>auto dest: relatesD\<close>)

lemma pending_inv_store [simp]: "pending_inv (w\<lparr>theStore := s\<rparr>) = pending_inv w"
  by (simp add: pending_inv_def)

lemma step_pending: "step F W k w v \<Longrightarrow> keeps_pending w v"
  by (erule step_relates [where R = keeps_pending])
    (auto intro: worker_pending.rel_ReadMessage pend_writeMessageAsync pend_Cancel)

lemma pending_inv_NewWorker: "pending_inv (NewWorker transport faults s)"
  by (simp add: pending_inv_def table_ok_def NewWorker_def NewConn_def conn.defs)

lemma runs_pending: "runs F W n w \<Longrightarrow> pending_inv w"
  by (induction rule: runs.induct) (auto intro: pending_inv_NewWorker dest: step_pending)

text \<open>
  C7.  No channel is used twice.  However reads, sends, timeouts, input and other goroutines
  are interleaved, no channel ever receives two answers (each channel is closed after the
  first, and a second send would panic), no channel that waits has received one, and no two
  pending requests share a channel.
\<close>

theorem channels_used_once:
  assumes "runs F W n w"
  shows "distinct (map fst (answered w))
       \<and> (\<forall>i ch. PendingStatus w i = Some ch \<longrightarrow> ch \<notin> fst ` set (answered w))
       \<and> (\<forall>i j ch. PendingStatus w i = Some ch \<and> PendingStatus w j = Some ch \<longrightarrow> i = j)"
proof -
  have ok: "table_ok (nextChan w) (PendingStatus w) (map fst (answered w))"
    using runs_pending [OF assms] by (simp add: pending_inv_def)
  then have "inj_on (PendingStatus w) (dom (PendingStatus w))" by (simp add: table_ok_def)
  then have "PendingStatus w i = Some ch \<and> PendingStatus w j = Some ch \<longrightarrow> i = j" for i j ch
    unfolding inj_on_def by (metis domI)
  with ok show ?thesis by (auto simp: table_ok_def ran_def)
qed

subsection \<open>Identifiers\<close>

text \<open>Calls that do not send a request: same next identifier, no more pending requests.\<close>

abbreviation no_request :: "('n, 'x) conn_scheme \<Rightarrow> ('n, 'x) conn_scheme \<Rightarrow> bool" where
  "no_request s t \<equiv> nextMessageID t = nextMessageID s \<and> PendingStatus t \<subseteq>\<^sub>m PendingStatus s"

lemma no_request_delete: "m(i := None) \<subseteq>\<^sub>m m"
  by (simp add: map_le_def)

interpretation handlers_no_request:
  handler_relation "no_request :: ('n, 'h, 's) worker \<Rightarrow> ('n, 'h, 's) worker \<Rightarrow> bool"
  by unfold_locales
    (auto intro!: relatesI intro: map_le_trans simp: relates_session writeConn_def split: list.splits option.splits)

interpretation worker_no_request:
  conn_relation "no_request :: ('n, 'h, 's) worker \<Rightarrow> ('n, 'h, 's) worker \<Rightarrow> bool" "workerHooks F W"
  for F :: "('h, 'n) forest" and W :: "('h, 'n, 's) world"
  by unfold_locales (auto simp: handlers_no_request.rel_workerHooks no_request_delete simp del: fun_upd_apply)

lemma writeMessageAsync_ids:
  assumes "writeMessageAsync verb format args s = (r, t)"
  shows "nextMessageID t = wrap64 (nextMessageID s + 1)"
    and "PendingStatus t = (PendingStatus s)(nextMessageID s \<mapsto> nextChan s)"
  using assms
  by (auto simp: writeMessageAsync_def seqM_def getNextMessageID_def storePending_def errorOf_def
      writeMessageWithID_def onErr_def writeConn_def split: list.splits option.splits)

text \<open>After \<open>n\<close> requests: the next identifier is \<open>n\<close>, the pending ones are below it.\<close>

definition ids_below :: "nat \<Rightarrow> ('n, 'x) conn_scheme \<Rightarrow> bool" where
  "ids_below n s \<longleftrightarrow> nextMessageID s = int n \<and> dom (PendingStatus s) \<subseteq> {0..<int n}"

lemma ids_below_no_request: "no_request s t \<Longrightarrow> ids_below n s \<Longrightarrow> ids_below n t"
  by (auto simp: ids_below_def dest!: map_le_implies_dom_le)

lemma step_ids:
  assumes "step F W k w v" and "ids_below n w" and "n + k < 2 ^ 63"
  shows "ids_below (n + k) v"
  using assms(1)
proof cases
  case read
  have "relates no_request (ReadMessage F (workerHooks F W))" by (rule worker_no_request.rel_ReadMessage)
  from relatesD [OF this, of w] read assms(2) show ?thesis by (auto intro: ids_below_no_request)
next
  case (send r)
  obtain verb format args where "sendAsync F r w = writeMessageAsync verb format args w"
    using sendAsync_writes by blast
  then obtain x where x: "writeMessageAsync verb format args w = (x, v)"
    using send by (metis prod.collapse)
  have "wrap64 (int n + 1) = int n + 1" using assms(3) send by (intro wrap64_id) (simp add: int64_def)
  with writeMessageAsync_ids [OF x] assms(2) send show ?thesis
    by (auto simp: ids_below_def split: if_splits)
next
  case (cancel i)
  with assms(2) show ?thesis
    by (auto simp: Cancel_def no_request_delete simp del: fun_upd_apply intro: ids_below_no_request)
qed (use assms(2) in \<open>simp_all add: ids_below_def\<close>)

lemma runs_ids: "runs F W n w \<Longrightarrow> n < 2 ^ 63 \<Longrightarrow> ids_below n w"
proof (induction rule: runs.induct)
  case (start transport faults s)
  then show ?case by (simp add: ids_below_def NewWorker_def NewConn_def conn.defs)
next
  case (further n w k v)
  then show ?case by (intro step_ids) simp_all
qed

text \<open>
  C18.  Identifiers are not reused.  In the first \<open>2^63\<close> requests of a connection, the
  identifier of the next request is the number of requests sent before, no pending request
  has it, so sending never takes the place of another request in the table.
\<close>

theorem identifiers_fresh:
  assumes "runs F W n w" and "n < 2 ^ 63"
  shows "nextMessageID w = int n \<and> PendingStatus w (nextMessageID w) = None
       \<and> PendingStatus w \<subseteq>\<^sub>m PendingStatus (snd (sendAsync F r w))"
proof -
  have ids: "ids_below n w" by (rule runs_ids [OF assms])
  then have none: "PendingStatus w (nextMessageID w) = None" by (auto simp: ids_below_def)
  obtain verb format args where "sendAsync F r w = writeMessageAsync verb format args w"
    using sendAsync_writes by blast
  then have "PendingStatus (snd (sendAsync F r w)) = (PendingStatus w)(nextMessageID w \<mapsto> nextChan w)"
    using writeMessageAsync_ids(2) by (metis prod.collapse)
  moreover have "PendingStatus w \<subseteq>\<^sub>m (PendingStatus w)(nextMessageID w \<mapsto> nextChan w)"
    using none by (auto simp: map_le_def)
  ultimately show ?thesis using ids none by (simp add: ids_below_def)
qed

lemma demo_runs: "runs one_forest demo_world 1 (snd (sendAsync one_forest (RQuery [3]) demo_worker))"
proof -
  have "runs one_forest demo_world (0 + 1) (snd (sendAsync one_forest (RQuery [3]) demo_worker))"
    unfolding demo_worker_def by (rule runs.further, rule runs.start, rule step.send)
  then show ?thesis by simp
qed

theorem channels_used_once_witness:
  "PendingStatus (snd (sendAsync one_forest (RQuery [3]) demo_worker)) 0 = Some 0
   \<and> 0 \<notin> fst ` set (answered (snd (sendAsync one_forest (RQuery [3]) demo_worker)))"
proof -
  have "PendingStatus (snd (sendAsync one_forest (RQuery [3]) demo_worker)) 0 = Some 0"
    by (simp add: Send_requested requested_def) (simp add: demo_worker_def NewWorker_def NewConn_def conn.defs)
  with channels_used_once [OF demo_runs] show ?thesis by blast
qed

theorem identifiers_fresh_witness:
  "nextMessageID (snd (sendAsync one_forest (RQuery [3]) demo_worker)) = 1"
  using identifiers_fresh [OF demo_runs, of RVersion] by simp

end
