(* ===== verification/Rendezvous.thy ===== *)
theory Rendezvous
  imports Reach
begin

text \<open>
  One request whose answer and whose timeout race.  The goroutine that sent the request
  waits in a \<open>select\<close>; the read loop, when an answer comes, looks the channel up, deletes
  the entry, and sends on the channel, which has no buffer: the send ends only when somebody
  receives.  Each step below is one of these actions; \<open>sendToWaitingChannel\<close> and
  \<open>handleExpectedStatus\<close> are the same code taken as one step each.
\<close>

subsection \<open>The two goroutines\<close>

datatype 'd waiter = Waiting | Got 'd | GivingUp | GaveUp

datatype 'd reader = Idle | Loaded 'd | Sending 'd | Closing

record 'd race =
  entry :: bool \<comment> \<open>the request is in \<open>PendingStatus\<close>\<close>
  waiter :: "'d waiter"
  reader :: "'d reader"
  closed :: bool
  unsolicited :: nat

definition race_start :: "'d race" where
  "race_start = \<lparr>entry = True, waiter = Waiting, reader = Idle, closed = False, unsolicited = 0\<rparr>"

inductive race_step :: "'d race \<Rightarrow> 'd race \<Rightarrow> bool" where
  load: "reader s = Idle \<Longrightarrow> entry s \<Longrightarrow> race_step s (s\<lparr>reader := Loaded d\<rparr>)"
| reject: "reader s = Idle \<Longrightarrow> \<not> entry s \<Longrightarrow> race_step s (s\<lparr>unsolicited := Suc (unsolicited s)\<rparr>)"
| delete: "reader s = Loaded d \<Longrightarrow> race_step s (s\<lparr>reader := Sending d, entry := False\<rparr>)"
| hand_over: "reader s = Sending d \<Longrightarrow> waiter s = Waiting \<Longrightarrow> race_step s (s\<lparr>reader := Closing, waiter := Got d\<rparr>)"
| close: "reader s = Closing \<Longrightarrow> race_step s (s\<lparr>reader := Idle, closed := True\<rparr>)"
| timeout: "waiter s = Waiting \<Longrightarrow> race_step s (s\<lparr>waiter := GivingUp\<rparr>)"
| cancel: "waiter s = GivingUp \<Longrightarrow> race_step s (s\<lparr>waiter := GaveUp, entry := False\<rparr>)"

inductive_cases race_step_cases: "race_step s t"

abbreviation race_reaches :: "'d race \<Rightarrow> 'd race \<Rightarrow> bool" where
  "race_reaches \<equiv> race_step\<^sup>*\<^sup>*"

subsection \<open>What cannot happen\<close>

definition race_inv :: "'d race \<Rightarrow> bool" where
  "race_inv s \<longleftrightarrow>
     (case reader s of
        Idle \<Rightarrow> closed s \<longleftrightarrow> (\<exists>d. waiter s = Got d)
      | Loaded d \<Rightarrow> \<not> closed s \<and> (\<forall>d. waiter s \<noteq> Got d)
      | Sending d \<Rightarrow> \<not> closed s \<and> \<not> entry s \<and> (\<forall>d. waiter s \<noteq> Got d)
      | Closing \<Rightarrow> \<not> closed s \<and> \<not> entry s \<and> (\<exists>d. waiter s = Got d)) \<and>
     ((\<exists>d. waiter s = Got d) \<or> waiter s = GaveUp \<longrightarrow> \<not> entry s)"

lemma race_inv_step: "race_step s t \<Longrightarrow> race_inv s \<Longrightarrow> race_inv t"
  by (erule race_step_cases) (auto simp: race_inv_def split: reader.splits)

lemma race_inv_reaches: "race_reaches s t \<Longrightarrow> race_inv s \<Longrightarrow> race_inv t"
  by (induction rule: rtranclp_induct) (auto intro: race_inv_step)

lemma race_inv_start: "race_inv race_start"
  by (simp add: race_inv_def race_start_def)

text \<open>
  C22.  The hand-over is safe.  However the answer, further answers and the timeout
  interleave, the read loop never sends on a closed channel nor closes one twice (both would
  panic), a request that got its answer or gave up is no longer in the table, and the
  channel is closed only after its answer was received.
\<close>

theorem hand_over_safe:
  assumes "race_reaches race_start s"
  shows "((\<exists>d. reader s = Sending d) \<or> reader s = Closing \<longrightarrow> \<not> closed s)
       \<and> ((\<exists>d. waiter s = Got d) \<or> waiter s = GaveUp \<longrightarrow> \<not> entry s)
       \<and> (closed s \<longrightarrow> (\<exists>d. waiter s = Got d))"
  using race_inv_reaches [OF assms race_inv_start] by (auto simp: race_inv_def split: reader.splits)

lemma race_delivers:
  "race_reaches race_start \<lparr>entry = False, waiter = Got d, reader = Idle, closed = True, unsolicited = 0\<rparr>"
proof -
  have "race_reaches race_start (race_start\<lparr>reader := Loaded d\<rparr>)"
    by (intro r_into_rtranclp race_step.load) (simp_all add: race_start_def)
  also have "race_reaches \<dots> (race_start\<lparr>reader := Sending d, entry := False\<rparr>)"
    using race_step.delete [of "race_start\<lparr>reader := Loaded d\<rparr>" d] by (simp add: race_start_def)
  also have "race_reaches \<dots> (race_start\<lparr>reader := Closing, entry := False, waiter := Got d\<rparr>)"
    using race_step.hand_over [of "race_start\<lparr>reader := Sending d, entry := False\<rparr>" d] by (simp add: race_start_def)
  also have "race_reaches \<dots> (race_start\<lparr>reader := Idle, entry := False, waiter := Got d, closed := True\<rparr>)"
    using race_step.close [of "race_start\<lparr>reader := Closing, entry := False, waiter := Got d\<rparr>"] by (simp add: race_start_def)
  finally show ?thesis by (simp add: race_start_def)
qed

theorem hand_over_safe_witness:
  "(\<exists>s :: nat race. race_reaches race_start s \<and> closed s \<and> waiter s = Got 7 \<and> \<not> entry s)"
  using hand_over_safe [OF race_delivers [of "7 :: nat"]] race_delivers [of "7 :: nat"] by auto

subsection \<open>What can happen\<close>

text \<open>The read loop is at its send and nobody is left to receive.\<close>

definition hangs :: "'d race \<Rightarrow> bool" where
  "hangs s \<longleftrightarrow> (\<exists>d. reader s = Sending d) \<and> waiter s \<in> {GivingUp, GaveUp}"

lemma hangs_step: "race_step s t \<Longrightarrow> hangs s \<Longrightarrow> hangs t"
  by (erule race_step_cases) (auto simp: hangs_def)

lemma hangs_reaches: "race_reaches s t \<Longrightarrow> hangs s \<Longrightarrow> hangs t"
  by (induction rule: rtranclp_induct) (auto intro: hangs_step)

lemma race_hangs: "race_reaches race_start \<lparr>entry = False, waiter = GivingUp, reader = Sending d, closed = False, unsolicited = 0\<rparr>"
proof -
  have "race_reaches race_start (race_start\<lparr>reader := Loaded d\<rparr>)"
    by (intro r_into_rtranclp race_step.load) (simp_all add: race_start_def)
  also have "race_reaches \<dots> (race_start\<lparr>reader := Loaded d, waiter := GivingUp\<rparr>)"
    using race_step.timeout [of "race_start\<lparr>reader := Loaded d\<rparr>"] by (simp add: race_start_def)
  also have "race_reaches \<dots> (race_start\<lparr>reader := Sending d, waiter := GivingUp, entry := False\<rparr>)"
    using race_step.delete [of "race_start\<lparr>reader := Loaded d, waiter := GivingUp\<rparr>" d] by (simp add: race_start_def)
  finally show ?thesis by (simp add: race_start_def)
qed

text \<open>
  C20.  A timeout can stop the read loop for ever.  When the timeout of a request fires after
  the read loop has looked up its channel, the send on the channel has no receiver: such a
  state is reachable, and from it every reachable state is such a state, so no message is read
  from the connection any more and \<open>Done\<close> is not looked at.  Cancelling does not help.
\<close>

theorem timeout_can_hang_reader:
  "\<exists>s. race_reaches race_start s \<and> hangs s \<and> (\<forall>t. race_reaches s t \<longrightarrow> hangs t)"
proof -
  let ?s = "\<lparr>entry = False, waiter = GivingUp, reader = Sending undefined, closed = False, unsolicited = 0\<rparr>"
  have hangs: "hangs ?s" by (simp add: hangs_def)
  have "hangs t" if "race_reaches ?s t" for t
    using that hangs by (rule hangs_reaches)
  then show ?thesis by (intro exI [of _ ?s] conjI allI impI race_hangs hangs)
qed

theorem timeout_can_hang_reader_witness:
  "\<exists>s :: nat race. race_reaches race_start s \<and> hangs s"
  using timeout_can_hang_reader by blast

end
