(* ===== verification/Ingest.thy ===== *)
theory Ingest
  imports Rendezvous
begin

text \<open>
  How nodes get into the store (worker.go): \<open>ensureAuthorAvailable\<close>, \<open>IngestNode\<close>,
  \<open>synchronizeFullTree\<close> and \<open>BootstrapLocalStore\<close>, whole.  Each request these operations
  send waits for an answer or a timeout; which of them comes, and with what, is taken from
  the list \<open>wakes\<close> of the worker (a timeout when the list is used up).  Many of these
  operations run at once, on one store: before each store operation of this one the others may
  have changed the store in any way, and the list \<open>others\<close> says in which (not at all when it is
  used up).
\<close>

subsection \<open>Waiting, validating, adding\<close>

definition nextWake :: "(('n, 'h, 's) worker, 'n wakeup) go" where
  "nextWake w =
     (case wakes w of
        [] \<Rightarrow> (Ret TimeoutFired, w)
      | wake # rest \<Rightarrow> (Ret wake, w\<lparr>wakes := rest\<rparr>))"

text \<open>A synchronous request with the ticker of \<open>makeTicker\<close>.\<close>

definition awaiting :: "('n wakeup \<Rightarrow> (('n, 'h, 's) worker, 'a) go) \<Rightarrow> (('n, 'h, 's) worker, 'a) go" where
  "awaiting send = seqM nextWake send"

text \<open>What other goroutines did to the store since this one last looked.\<close>

definition interfere :: "(('n, 'h, 's) worker, unit) go" where
  "interfere w =
     (case others w of
        [] \<Rightarrow> (Ret (), w)
      | f # fs \<Rightarrow> (Ret (), w\<lparr>theStore := f (theStore w), others := fs\<rparr>))"

definition readStore :: "ctx \<Rightarrow> ('s \<Rightarrow> string + 'a) \<Rightarrow> (('n, 'h, 's) worker, 'a) go" where
  "readStore c f = seqM interfere (\<lambda>_. fromStore c f)"

definition validateDeep :: "('h, 'n, 's) world \<Rightarrow> 'n \<Rightarrow> (('n, 'h, 's) worker, unit) go" where
  "validateDeep W node =
     seqM interfere (\<lambda>_ w. lift_sum External (ValidateDeep W node (theStore w)) w)"

definition addAs :: "('h, 'n, 's) world \<Rightarrow> 'n \<Rightarrow> (('n, 'h, 's) worker, unit) go" where
  "addAs W node =
     seqM interfere (\<lambda>_ w.
       case AddAs W node (subscriptionID w) (theStore w) of
         (r, s) \<Rightarrow> lift_sum External r (w\<lparr>theStore := s\<rparr>))"

subsection \<open>Authors\<close>

definition fetchAuthor :: "('h, 'n) forest \<Rightarrow> ('h, 'n, 's) world \<Rightarrow> 'h \<Rightarrow> (('n, 'h, 's) worker, unit) go" where
  "fetchAuthor F W authorID =
     seqM (readStore (InSync LookingForAuthor) (\<lambda>s. GetIdentity W s authorID)) (\<lambda>found.
       case found of
         Some _ \<Rightarrow> ret ()
       | None \<Rightarrow>
           seqM (onErr (Wrapped (InSync QueryingAuthor)) (awaiting (SendQuery F [authorID]))) (\<lambda>nodes.
             if length nodes \<noteq> 1 then fail (AuthorCount (length nodes)) else
             seqM (onErr (Wrapped (InSync ValidatingAuthor)) (validateDeep W (nodes ! 0))) (\<lambda>_.
               onErr (Wrapped (InSync InsertingAuthor)) (addAs W (nodes ! 0)))))"

definition ensureAuthorAvailable ::
    "('h, 'n) forest \<Rightarrow> ('h, 'n, 's) world \<Rightarrow> 'n \<Rightarrow> (('n, 'h, 's) worker, unit) go" where
  "ensureAuthorAvailable F W node =
     (case nodeKind F node of
        IdentityNode \<Rightarrow> ret ()
      | CommunityNode author \<Rightarrow> fetchAuthor F W author
      | ReplyNode author _ \<Rightarrow> fetchAuthor F W author
      | OtherNode \<Rightarrow> fail UnsupportedType)"

subsection \<open>One node\<close>

text \<open>The loop over the fetched ancestry.\<close>

fun ingestAncestors :: "('h, 'n) forest \<Rightarrow> ('h, 'n, 's) world \<Rightarrow> 'n list \<Rightarrow> (('n, 'h, 's) worker, unit) go" where
  "ingestAncestors F W [] = ret ()"
| "ingestAncestors F W (ancestor # ancestors) =
     seqM (readStore (InSync CheckingLocalStore) (\<lambda>s. Get W s (ID F ancestor))) (\<lambda>found.
       case found of
         Some _ \<Rightarrow> ingestAncestors F W ancestors
       | None \<Rightarrow>
           seqM (onErr (Wrapped (InSync FetchAncestorAuthor)) (ensureAuthorAvailable F W ancestor)) (\<lambda>_.
           seqM (onErr (Wrapped (InSync ValidatingAncestor)) (validateDeep W ancestor)) (\<lambda>_.
           seqM (onErr (Wrapped (InSync InsertingAncestor)) (addAs W ancestor)) (\<lambda>_.
             ingestAncestors F W ancestors))))"

text \<open>What follows a first validation that failed.\<close>

definition validateWithAncestry ::
    "('h, 'n) forest \<Rightarrow> ('h, 'n, 's) world \<Rightarrow> 'n \<Rightarrow> (('n, 'h, 's) worker, unit) go" where
  "validateWithAncestry F W node =
     seqM (onErr (Wrapped (InSync FetchAncestry)) (awaiting (SendAncestry F (ID F node) (TreeDepth F node))))
       (\<lambda>ancestry.
     seqM (ingestAncestors F W ancestry) (\<lambda>_.
       onErr (Wrapped (InSync ValidatingAfterAncestry)) (validateDeep W node)))"

definition IngestNode :: "('h, 'n) forest \<Rightarrow> ('h, 'n, 's) world \<Rightarrow> 'n \<Rightarrow> (('n, 'h, 's) worker, unit) go" where
  "IngestNode F W node =
     seqM (ensureAuthorAvailable F W node) (\<lambda>_.
     seqM (errorOf (validateDeep W node)) (\<lambda>err.
     seqM (case err of None \<Rightarrow> ret () | Some _ \<Rightarrow> validateWithAncestry F W node) (\<lambda>_.
       addAs W node)))"

subsection \<open>Whole trees\<close>

fun addChecked :: "('h, 'n) forest \<Rightarrow> ('h, 'n, 's) world \<Rightarrow> 'n list \<Rightarrow> (('n, 'h, 's) worker, unit) go" where
  "addChecked F W [] = ret ()"
| "addChecked F W (ancestor # ancestors) =
     seqM (onErr (Wrapped (InSync FetchingAuthor)) (ensureAuthorAvailable F W ancestor)) (\<lambda>_.
     seqM (onErr (Wrapped (InSync ValidatingNode)) (validateDeep W ancestor)) (\<lambda>_.
     seqM (onErr (Wrapped (InSync AddingNode)) (addAs W ancestor)) (\<lambda>_.
       addChecked F W ancestors)))"

fun syncLeaves :: "('h, 'n) forest \<Rightarrow> ('h, 'n, 's) world \<Rightarrow> 'n list \<Rightarrow> (('n, 'h, 's) worker, unit) go" where
  "syncLeaves F W [] = ret ()"
| "syncLeaves F W (leaf # leaves) =
     seqM (readStore (InSync CheckingLeaf) (\<lambda>s. Get W s (ID F leaf))) (\<lambda>found.
       case found of
         Some _ \<Rightarrow> syncLeaves F W leaves
       | None \<Rightarrow>
           seqM (onErr (Flattened (InSync FetchingLeafAncestry))
                   (awaiting (SendAncestry F (ID F leaf) (TreeDepth F leaf)))) (\<lambda>ancestry.
           seqM (addChecked F W (sortSlice W (TreeDepth F) ancestry @ [leaf])) (\<lambda>_.
             syncLeaves F W leaves)))"

text \<open>The loop over the local leaves, on the archive.\<close>

fun getLocal :: "('h, 'n, 's) world \<Rightarrow> 'h list \<Rightarrow> (('n, 'h, 's) worker, 'n list) go" where
  "getLocal W [] = ret []"
| "getLocal W (leafID # ids) =
     seqM (readStore (InSync GettingLocalNode) (\<lambda>s. ArchiveGet W s leafID)) (\<lambda>found.
       case found of
         None \<Rightarrow> getLocal W ids
       | Some node \<Rightarrow> seqM (getLocal W ids) (\<lambda>nodes. ret (node # nodes)))"

definition synchronizeFullTree ::
    "('h, 'n) forest \<Rightarrow> ('h, 'n, 's) world \<Rightarrow> 'n \<Rightarrow> int \<Rightarrow> (('n, 'h, 's) worker, unit) go" where
  "synchronizeFullTree F W root maxNodes =
     seqM (onErr (Wrapped (InSync FetchingLeaves)) (awaiting (SendLeavesOf F (ID F root) maxNodes))) (\<lambda>leafList.
     seqM (readStore (InSync ListingLocalLeaves) (\<lambda>s. LeavesOf W s (ID F root))) (\<lambda>localLeaves.
     seqM (getLocal W localLeaves) (\<lambda>localLeafNodes.
     seqM (onErr (Wrapped (InSync AnnouncingLocalNodes)) (awaiting (SendAnnounce F localLeafNodes))) (\<lambda>_.
       syncLeaves F W leafList))))"

subsection \<open>Bootstrap\<close>

text \<open>\<open>if err := m; err != nil { log; continue }\<close>, and then the rest of the body.\<close>

definition attempt :: "('s, 'a) go \<Rightarrow> ('a \<Rightarrow> ('s, unit) go) \<Rightarrow> ('s, unit) go" where
  "attempt m f s =
     (case m s of
        (Ret a, t) \<Rightarrow> f a t
      | (Fail e, t) \<Rightarrow> (Ret (), t)
      | (Panic p, t) \<Rightarrow> (Panic p, t))"

definition bootstrapCommunity ::
    "('h, 'n) forest \<Rightarrow> ('h, 'n, 's) world \<Rightarrow> int \<Rightarrow> 'n \<Rightarrow> (('n, 'h, 's) worker, unit) go" where
  "bootstrapCommunity F W maxCommunities node =
     (case nodeKind F node of
        CommunityNode _ \<Rightarrow>
          attempt (ensureAuthorAvailable F W node) (\<lambda>_.
          attempt (addAs W node) (\<lambda>_.
          attempt (awaiting (SendSubscribe F node)) (\<lambda>_.
          seqM (subscribeFresh (ID F node)) (\<lambda>_.
          attempt (synchronizeFullTree F W node maxCommunities) ret))))
      | _ \<Rightarrow> ret ())"

fun bootstrapCommunities ::
    "('h, 'n) forest \<Rightarrow> ('h, 'n, 's) world \<Rightarrow> int \<Rightarrow> 'n list \<Rightarrow> (('n, 'h, 's) worker, unit) go" where
  "bootstrapCommunities F W maxCommunities [] = ret ()"
| "bootstrapCommunities F W maxCommunities (node # nodes) =
     seqM (bootstrapCommunity F W maxCommunities node) (\<lambda>_. bootstrapCommunities F W maxCommunities nodes)"

definition BootstrapLocalStore ::
    "('h, 'n) forest \<Rightarrow> ('h, 'n, 's) world \<Rightarrow> int \<Rightarrow> (('n, 'h, 's) worker, unit) go" where
  "BootstrapLocalStore F W maxCommunities =
     attempt (awaiting (SendList (NodeTypeCommunity F) maxCommunities))
       (bootstrapCommunities F W maxCommunities)"

end
