(* ===== verification/Background.thy ===== *)
theory Background
  imports Ingest
begin

text \<open>
  The interface of a relation between states that the work in the background keeps: first
  what a synchronous request needs, then what the operations of \<open>Ingest\<close> and \<open>HandleNewNode\<close>
  need beyond it.  Each instance gives the relation for all of them.
\<close>

subsection \<open>Synchronous requests\<close>

locale request_relation = run_relation R
  for R :: "('n, 'h, 's) worker \<Rightarrow> ('n, 'h, 's) worker \<Rightarrow> bool" +
  assumes R_request: "relates R (writeMessageAsync verb format args)"
    and R_cancel: "relates R (Cancel i)"
    and R_wakes: "R w (w\<lparr>wakes := ws\<rparr>)"
begin

lemma rel_handleExpected:
  "relates R (handleExpectedStatus op wake a)" "relates R (handleExpectedResponse op wake a)"
  unfolding handleExpectedStatus_def handleExpectedResponse_def
  by (auto split: prod.splits option.splits wakeup.splits reply.splits intro!: rel_rules R_cancel)

lemma rel_requests:
  "relates R (SendList t q wake)" "relates R (SendQuery F hs wake)"
  "relates R (SendAncestry F h l wake)" "relates R (SendLeavesOf F h q wake)"
  "relates R (SendSubscribe F n wake)" "relates R (SendAnnounce F ns wake)"
  unfolding SendList_def SendQuery_def SendAncestry_def SendLeavesOf_def SendSubscribe_def subscribeOp_def
    subscribeOpID_def SendAnnounce_def SendListAsync_def SendQueryAsync_def SendAncestryAsync_def
    SendLeavesOfAsync_def subscribeOpIDAsync_def SendAnnounceAsync_def
  by (intro rel_rules R_request rel_handleExpected)+

lemma rel_awaiting:
  assumes "\<And>wake. relates R (send wake)"
  shows "relates R (awaiting send)"
proof -
  have "relates R nextWake"
    by (rule relatesI) (simp add: nextWake_def R_refl R_wakes split: list.split)
  then show ?thesis unfolding awaiting_def by (intro rel_rules assms)
qed

lemmas rel_awaiting_requests =
  rel_awaiting [OF rel_requests(1)] rel_awaiting [OF rel_requests(2)] rel_awaiting [OF rel_requests(3)]
  rel_awaiting [OF rel_requests(4)] rel_awaiting [OF rel_requests(5)] rel_awaiting [OF rel_requests(6)]

lemma rel_fromStore_any: "relates R (fromStore c f)"
proof (rule relatesI)
  fix w
  show "R w (snd (fromStore c f w))" by (cases "f (theStore w)") (simp_all add: R_refl)
qed

lemma rel_errorOf: "relates R m \<Longrightarrow> relates R (errorOf m)"
  by (auto simp: relates_def errorOf_def split: prod.splits res.splits) (metis snd_conv)+

lemma rel_HandleNewNode: "relates R (HandleNewNode F wake n)"
proof -
  have "relates R (seqM (errorOf (SendAnnounce F [n] wake)) (\<lambda>_. ret ()))"
    by (intro rel_rules rel_errorOf rel_requests)
  then show ?thesis
    unfolding relates_def HandleNewNode_def Let_def by (auto simp: R_refl split: node_kind.split)
qed

end

subsection \<open>Ingestion, synchronization, bootstrap\<close>

locale background_relation = request_relation R
  for R :: "('n, 'h, 's) worker \<Rightarrow> ('n, 'h, 's) worker \<Rightarrow> bool" +
  assumes R_store: "R w (w\<lparr>theStore := s\<rparr>)"
    and R_others: "R w (w\<lparr>theStore := s, others := fs\<rparr>)"
    and R_subscribe: "relates R (subscribeFresh h)"
begin

lemma rel_interfere: "relates R interfere"
  by (rule relatesI) (simp add: interfere_def R_refl R_others split: list.split)

lemma rel_readStore: "relates R (readStore c f)"
  unfolding readStore_def by (intro rel_rules rel_interfere rel_fromStore_any)

lemma rel_validateDeep: "relates R (validateDeep W n)"
  unfolding validateDeep_def
  by (intro rel_rules rel_interfere relatesI) (simp add: lift_sum_def R_refl split: sum.split)

lemma rel_addAs: "relates R (addAs W n)"
  unfolding addAs_def
  by (intro rel_rules rel_interfere relatesI) (simp add: lift_sum_def R_store split: sum.split prod.split)

lemmas rel_store = rel_rules rel_awaiting_requests rel_readStore rel_validateDeep rel_addAs

lemma rel_ensureAuthor: "relates R (ensureAuthorAvailable F W n)"
  unfolding ensureAuthorAvailable_def fetchAuthor_def
  by (cases "nodeKind F n") (auto intro!: rel_store)

lemma rel_ingestAncestors: "relates R (ingestAncestors F W ns)"
  by (induction ns) (auto intro!: rel_store rel_ensureAuthor)

lemma rel_addChecked: "relates R (addChecked F W ns)"
  by (induction ns) (auto intro!: rel_store rel_ensureAuthor)

lemma rel_syncLeaves: "relates R (syncLeaves F W ns)"
  by (induction ns) (auto intro!: rel_store rel_addChecked)

lemma rel_getLocal: "relates R (getLocal W hs)"
  by (induction hs) (auto intro!: rel_store)

lemma rel_IngestNode: "relates R (IngestNode F W n)"
  unfolding IngestNode_def validateWithAncestry_def
  by (intro rel_store rel_ensureAuthor rel_errorOf rel_ingestAncestors)

lemma rel_synchronizeFullTree: "relates R (synchronizeFullTree F W n k)"
  unfolding synchronizeFullTree_def by (intro rel_store rel_getLocal rel_syncLeaves)

lemma rel_attempt: "relates R m \<Longrightarrow> (\<And>a. relates R (f a)) \<Longrightarrow> relates R (attempt m f)"
  unfolding relates_def attempt_def
  by (auto split: prod.split res.split) (metis R_trans snd_conv)+

lemma rel_bootstrapCommunities: "relates R (bootstrapCommunities F W k ns)"
proof (induction ns)
  case (Cons n ns)
  have "relates R (bootstrapCommunity F W k n)"
    unfolding bootstrapCommunity_def
    by (cases "nodeKind F n")
      (auto intro!: rel_store rel_attempt rel_ensureAuthor R_subscribe rel_synchronizeFullTree)
  with Cons show ?case by (simp add: rel_seqM)
qed (simp add: rel_rules)

lemma rel_BootstrapLocalStore: "relates R (BootstrapLocalStore F W k)"
  unfolding BootstrapLocalStore_def by (intro rel_attempt rel_store rel_bootstrapCommunities)

end

end
