(* ===== verification/Store_Growth.thy ===== *)
theory Store_Growth
  imports Background
begin

text \<open>
  What can get into the store: the operations that fetch nodes from the peer add a node only
  after its validation succeeded, whatever the peer answers and whatever other goroutines do
  to the store at the same time, as long as they do not make a valid node invalid.
\<close>

subsection \<open>Growth of the store by validated nodes\<close>

text \<open>
  A change of the store: the insertion of a node that is valid in it, or one of the changes
  \<open>E\<close> that others make.
\<close>

definition store_step :: "('h, 'n, 's) world \<Rightarrow> ('s \<Rightarrow> 's) set \<Rightarrow> nat \<Rightarrow> 's \<Rightarrow> 's \<Rightarrow> bool" where
  "store_step W E sub s s' \<longleftrightarrow>
     (\<exists>n. ValidateDeep W n s = Inr () \<and> s' = snd (AddAs W n sub s)) \<or> (\<exists>f\<in>E. s' = f s)"

text \<open>What is relied on: a change by others keeps valid nodes valid.\<close>

definition rely_ok :: "('h, 'n, 's) world \<Rightarrow> ('s \<Rightarrow> 's) set \<Rightarrow> bool" where
  "rely_ok W E \<longleftrightarrow> (\<forall>f\<in>E. \<forall>n s. ValidateDeep W n s = Inr () \<longrightarrow> ValidateDeep W n (f s) = Inr ())"

definition relied :: "('h, 'n, 's) world \<Rightarrow> ('s \<Rightarrow> 's) set \<Rightarrow> ('n, 'h, 's) worker \<Rightarrow> bool" where
  "relied W E w \<longleftrightarrow> rely_ok W E \<and> set (others w) \<subseteq> E"

definition grows :: "('h, 'n, 's) world \<Rightarrow> ('s \<Rightarrow> 's) set \<Rightarrow> ('n, 'h, 's) worker \<Rightarrow> ('n, 'h, 's) worker \<Rightarrow> bool" where
  "grows W E w v \<longleftrightarrow>
     subscriptionID v = subscriptionID w \<and> set (others v) \<subseteq> set (others w) \<and>
     (relied W E w \<longrightarrow> (store_step W E (subscriptionID w))\<^sup>*\<^sup>* (theStore w) (theStore v))"

lemma grows_relied: "grows W E w v \<Longrightarrow> relied W E w \<Longrightarrow> relied W E v"
  by (auto simp: grows_def relied_def)

interpretation growth: run_relation "grows W E" for W :: "('h, 'n, 's) world" and E
  by unfold_locales (auto simp: grows_def relied_def)

abbreviation same_db :: "('n, 'h, 's) worker \<Rightarrow> ('n, 'h, 's) worker \<Rightarrow> bool" where
  "same_db w v \<equiv> theStore v = theStore w \<and> subscriptionID v = subscriptionID w \<and> others v = others w"

text \<open>Requests leave the store alone.\<close>

interpretation db: request_relation "same_db :: ('n, 'h, 's) worker \<Rightarrow> ('n, 'h, 's) worker \<Rightarrow> bool"
proof unfold_locales
  fix verb format args
  show "relates same_db (writeMessageAsync verb format args :: (('n, 'h, 's) worker, async) go)"
    by (rule relatesI) (simp add: writeMessageAsync_def seqM_def getNextMessageID_def storePending_def
      errorOf_def writeMessageWithID_def onErr_def writeConn_def split: list.splits option.splits)
qed (auto simp: Cancel_def intro: relatesI)

lemma grows_same_db: "relates same_db m \<Longrightarrow> relates (grows W E) m"
  by (auto simp: relates_def grows_def)

text \<open>Interference, and reading with it.\<close>

lemma interfere_Ret: "interfere w = (Ret (), snd (interfere w))"
  by (simp add: interfere_def split: list.splits)

lemma seqM_interfere: "seqM interfere f w = f () (snd (interfere w))"
  by (rule seqM_Ret) (rule interfere_Ret)

lemma interfere_none [simp]: "others w = [] \<Longrightarrow> snd (interfere w) = w"
  by (simp add: interfere_def)

lemma grows_interfere: "relates (grows W E) interfere"
  by (rule relatesI)
    (auto simp: interfere_def grows_def relied_def store_step_def intro!: r_into_rtranclp split: list.splits)

lemma grows_readStore: "relates (grows W E) (readStore c f)"
  unfolding readStore_def by (intro growth.rel_seqM grows_interfere grows_same_db db.rel_fromStore_any)

lemmas grows_quiet = grows_readStore db.rel_awaiting_requests [THEN grows_same_db]

text \<open>Validation followed by insertion.\<close>

lemma validateDeep_run:
  "validateDeep W n w =
     (case ValidateDeep W n (theStore (snd (interfere w))) of
        Inl e \<Rightarrow> (Fail (External e), snd (interfere w)) | Inr _ \<Rightarrow> (Ret (), snd (interfere w)))"
  by (auto simp: validateDeep_def seqM_interfere split: sum.splits)

lemma validateDeep_Ret: "validateDeep W n w = (Ret u, v) \<Longrightarrow> ValidateDeep W n (theStore v) = Inr ()"
  by (auto simp: validateDeep_run split: sum.splits)

lemma addAs_run:
  "addAs W n w =
     (let v = snd (interfere w); (r, s) = AddAs W n (subscriptionID v) (theStore v)
      in lift_sum External r (v\<lparr>theStore := s\<rparr>))"
  by (simp add: addAs_def seqM_interfere Let_def)

lemma addAs_store:
  "theStore (snd (addAs W n w)) = snd (AddAs W n (subscriptionID w) (theStore (snd (interfere w))))"
  "subscriptionID (snd (addAs W n w)) = subscriptionID w"
  "others (snd (addAs W n w)) = others (snd (interfere w))"
  "fst (addAs W n w) = Ret () \<longleftrightarrow> fst (AddAs W n (subscriptionID w) (theStore (snd (interfere w)))) = Inr ()"
  by (auto simp: addAs_run Let_def lift_sum_def interfere_def split: prod.splits sum.splits list.splits)

lemma valid_interfere:
  "relied W E w \<Longrightarrow> ValidateDeep W n (theStore w) = Inr () \<Longrightarrow> ValidateDeep W n (theStore (snd (interfere w))) = Inr ()"
  by (auto simp: interfere_def relied_def rely_ok_def split: list.splits)

lemma grows_addAs:
  assumes "ValidateDeep W n (theStore w) = Inr ()"
  shows "grows W E w (snd (addAs W n w))"
proof -
  let ?i = "snd (interfere w)"
  have i: "grows W E w ?i" using relatesD [OF grows_interfere] .
  have "(store_step W E (subscriptionID w))\<^sup>*\<^sup>* (theStore w) (theStore (snd (addAs W n w)))" if "relied W E w"
  proof -
    have "ValidateDeep W n (theStore ?i) = Inr ()" by (rule valid_interfere [OF that assms])
    then have "store_step W E (subscriptionID w) (theStore ?i) (theStore (snd (addAs W n w)))"
      unfolding addAs_store store_step_def by blast
    then show ?thesis using i that by (auto simp: grows_def intro: rtranclp.rtrancl_into_rtrancl)
  qed
  then show ?thesis using i by (simp add: grows_def addAs_store)
qed

lemma snd_onErr [simp]: "snd (onErr c m w) = snd (m w)"
  by (simp add: onErr_def split: prod.splits res.splits)

lemma grows_validate: "relates (grows W E) (validateDeep W n)"
  by (rule relatesI) (use relatesD [OF grows_interfere] in \<open>auto simp: validateDeep_run split: sum.splits\<close>)

lemma grows_validate_add: "relates (grows W E) (seqM (onErr c (validateDeep W n)) (\<lambda>_. onErr c' (addAs W n)))"
proof (rule relatesI)
  fix w
  obtain r v where v: "validateDeep W n w = (r, v)" by (cases "validateDeep W n w")
  have w: "grows W E w v" using relatesD [OF grows_validate [where W = W and E = E and n = n], of w] v by simp
  show "grows W E w (snd (seqM (onErr c (validateDeep W n)) (\<lambda>_. onErr c' (addAs W n)) w))"
  proof (cases r)
    case (Ret u)
    with v have "ValidateDeep W n (theStore v) = Inr ()" by (intro validateDeep_Ret) simp
    then show ?thesis using v Ret growth.R_trans [OF w grows_addAs] by (simp add: seqM_def onErr_def [of c])
  qed (use v w in \<open>simp_all add: seqM_def onErr_def\<close>)
qed

lemma grows_validate_add_then:
  "(\<And>a. relates (grows W E) (f a)) \<Longrightarrow>
   relates (grows W E) (seqM (onErr c (validateDeep W n)) (\<lambda>_. seqM (onErr c' (addAs W n)) f))"
  unfolding seqM_assoc [symmetric] by (intro growth.rel_seqM [OF grows_validate_add])

lemma grows_fetchAuthor: "relates (grows W E) (fetchAuthor F W h)"
  unfolding fetchAuthor_def by (intro growth.rel_rules grows_quiet grows_validate_add)

lemma grows_ensureAuthor: "relates (grows W E) (ensureAuthorAvailable F W n)"
  unfolding ensureAuthorAvailable_def
  by (auto intro: grows_fetchAuthor growth.rel_rules split: node_kind.split)

lemma grows_ingestAncestors: "relates (grows W E) (ingestAncestors F W ns)"
  by (induction ns) (auto intro!: growth.rel_rules grows_quiet grows_ensureAuthor grows_validate_add_then)

lemma grows_addChecked: "relates (grows W E) (addChecked F W ns)"
  by (induction ns) (auto intro!: growth.rel_rules grows_quiet grows_ensureAuthor grows_validate_add_then)

lemma grows_syncLeaves: "relates (grows W E) (syncLeaves F W ns)"
  by (induction ns) (auto intro!: growth.rel_rules grows_quiet grows_addChecked)

lemma grows_getLocal: "relates (grows W E) (getLocal W hs)"
  by (induction hs) (auto intro!: growth.rel_rules grows_quiet)

lemma grows_synchronizeFullTree: "relates (grows W E) (synchronizeFullTree F W n k)"
  unfolding synchronizeFullTree_def by (intro growth.rel_rules grows_quiet grows_getLocal grows_syncLeaves)

lemma grows_validateWithAncestry: "relates (grows W E) (validateWithAncestry F W n)"
  unfolding validateWithAncestry_def
  by (intro growth.rel_rules grows_quiet grows_ingestAncestors grows_validate)

subsection \<open>Ingestion\<close>

lemma validateWithAncestry_validates:
  assumes "validateWithAncestry F W n w = (Ret u, v)"
  shows "ValidateDeep W n (theStore v) = Inr ()"
  using assms unfolding validateWithAncestry_def
  by (auto elim!: seqM_RetE dest!: onErr_RetD intro: validateDeep_Ret)

text \<open>Everything \<open>IngestNode\<close> does before the insertion.\<close>

definition prepareIngest :: "('h, 'n) forest \<Rightarrow> ('h, 'n, 's) world \<Rightarrow> 'n \<Rightarrow> (('n, 'h, 's) worker, unit) go" where
  "prepareIngest F W n =
     seqM (ensureAuthorAvailable F W n) (\<lambda>_.
     seqM (errorOf (validateDeep W n)) (\<lambda>err.
       case err of None \<Rightarrow> ret () | Some _ \<Rightarrow> validateWithAncestry F W n))"

lemma IngestNode_prepare: "IngestNode F W n = seqM (prepareIngest F W n) (\<lambda>_. addAs W n)"
  by (simp add: IngestNode_def prepareIngest_def seqM_assoc)

lemma snd_errorOf [simp]: "snd (errorOf m w) = snd (m w)"
  by (simp add: errorOf_def split: prod.splits res.splits)

lemma grows_errorOf: "relates (grows W E) m \<Longrightarrow> relates (grows W E) (errorOf m)"
  by (simp add: relates_def)

lemma grows_prepareIngest: "relates (grows W E) (prepareIngest F W n)"
  unfolding prepareIngest_def
  by (intro growth.rel_rules grows_ensureAuthor grows_errorOf grows_validate grows_validateWithAncestry)

lemma errorOf_None: "errorOf m w = (Ret None, v) \<Longrightarrow> \<exists>a. m w = (Ret a, v)"
  by (auto simp: errorOf_def split: prod.splits res.splits)

lemma prepareIngest_valid:
  assumes "prepareIngest F W n w = (Ret u, v)"
  shows "ValidateDeep W n (theStore v) = Inr ()"
proof -
  consider t where "errorOf (validateDeep W n) t = (Ret None, v)" | t where "validateWithAncestry F W n t = (Ret u, v)"
    using assms unfolding prepareIngest_def by (auto elim!: seqM_RetE split: option.splits)
  then show ?thesis
    by cases (auto dest!: errorOf_None intro: validateWithAncestry_validates validateDeep_Ret)
qed

lemma grows_IngestNode: "relates (grows W E) (IngestNode F W n)"
proof (rule relatesI)
  fix w
  obtain r v where v: "prepareIngest F W n w = (r, v)" by (cases "prepareIngest F W n w")
  have w: "grows W E w v"
    using relatesD [OF grows_prepareIngest [where W = W and E = E and F = F and n = n], of w] v by simp
  show "grows W E w (snd (IngestNode F W n w))"
  proof (cases r)
    case (Ret u)
    then show ?thesis
      using v growth.R_trans [OF w grows_addAs] prepareIngest_valid [of F W n w u v]
      by (simp add: IngestNode_prepare seqM_def)
  qed (use v w in \<open>simp_all add: IngestNode_prepare seqM_def\<close>)
qed

text \<open>
  C10.  Ingestion adds only validated nodes.  Whatever the peer answers, whatever other
  goroutines do to the store meanwhile (short of making a valid node invalid), and whether it
  succeeds or fails, \<open>IngestNode\<close>, with the authors and ancestors it fetches, changes the store
  only by inserting nodes that \<open>ValidateDeep\<close> accepts in the store they are inserted into; and
  when it returns nil, its last action was the successful insertion of the node itself.
\<close>

theorem ingest_validated:
  assumes "rely_ok W E" and "set (others w) \<subseteq> E"
  shows "(store_step W E (subscriptionID w))\<^sup>*\<^sup>* (theStore w) (theStore (snd (IngestNode F W n w)))
   \<and> (fst (IngestNode F W n w) = Ret () \<longrightarrow>
        (\<exists>s. (store_step W E (subscriptionID w))\<^sup>*\<^sup>* (theStore w) s \<and> ValidateDeep W n s = Inr ()
           \<and> AddAs W n (subscriptionID w) s = (Inr (), theStore (snd (IngestNode F W n w)))))"
proof -
  have rely: "relied W E w" using assms by (simp add: relied_def)
  obtain r v where v: "prepareIngest F W n w = (r, v)" by (cases "prepareIngest F W n w")
  have w: "grows W E w v"
    using relatesD [OF grows_prepareIngest [where W = W and E = E and F = F and n = n], of w] v by simp
  show ?thesis
  proof (cases r)
    case (Ret u)
    let ?i = "snd (interfere v)"
    have ingest: "IngestNode F W n w = addAs W n v"
      using v Ret by (simp add: IngestNode_prepare seqM_def)
    have "ValidateDeep W n (theStore v) = Inr ()" using v Ret by (intro prepareIngest_valid) simp
    then have valid: "ValidateDeep W n (theStore ?i) = Inr ()" and finish: "grows W E w (snd (addAs W n v))"
      using valid_interfere [OF grows_relied [OF w rely]] growth.R_trans [OF w grows_addAs] by blast+
    have i: "grows W E w ?i" using growth.R_trans [OF w relatesD [OF grows_interfere]] .
    have "AddAs W n (subscriptionID w) (theStore ?i) = (Inr (), theStore (snd (addAs W n v)))"
      if "fst (addAs W n v) = Ret ()"
      using that w by (simp add: addAs_store prod_eq_iff grows_def)
    then show ?thesis
      using valid i finish rely unfolding ingest grows_def by blast
  qed (use v w rely in \<open>simp_all add: IngestNode_prepare seqM_def grows_def\<close>)
qed

lemma demo_simps2 [simp]: "subscriptionID demo_worker = 0" "others demo_worker = []"
  by (simp_all add: demo_worker_def NewWorker_def NewConn_def conn.defs)

theorem ingest_validated_witness:
  "AddAs demo_world one_node 0 demo_chain = (Inr (), theStore (snd (IngestNode one_forest demo_world one_node demo_worker)))"
proof -
  have run: "IngestNode one_forest demo_world one_node demo_worker = addAs demo_world one_node demo_worker"
    by (simp add: IngestNode_def ensureAuthorAvailable_def seqM_def errorOf_def validateDeep_run
        one_forest_def demo_forest_def one_node_def demo_world_def)
  then have "fst (IngestNode one_forest demo_world one_node demo_worker) = Ret ()"
    by (simp add: addAs_store) (simp add: demo_world_def)
  with ingest_validated [of demo_world "{}" demo_worker one_forest one_node] show ?thesis
    using run by (simp add: addAs_store demo_world_def rely_ok_def)
qed

text \<open>
  So does synchronization: a property of stores that validated insertions keep, and that
  other goroutines keep, is kept by \<open>synchronizeFullTree\<close> and \<open>ensureAuthorAvailable\<close>, whatever
  the peer sends and however they end.
\<close>

lemma synchronization_validated:
  assumes "Inv (theStore w)"
    and "\<And>s m. Inv s \<Longrightarrow> ValidateDeep W m s = Inr () \<Longrightarrow> Inv (snd (AddAs W m (subscriptionID w) s))"
    and "\<And>f s. f \<in> E \<Longrightarrow> Inv s \<Longrightarrow> Inv (f s)"
    and "rely_ok W E" and "set (others w) \<subseteq> E"
  shows "Inv (theStore (snd (synchronizeFullTree F W n k w)))
       \<and> Inv (theStore (snd (ensureAuthorAvailable F W n w)))"
proof -
  have keep: "Inv s'" if "(store_step W E (subscriptionID w))\<^sup>*\<^sup>* (theStore w) s'" for s'
    using that assms(1-3) by (induction rule: rtranclp_induct) (auto simp: store_step_def)
  have "relied W E w" using assms(4,5) by (simp add: relied_def)
  then show ?thesis
    using relatesD [OF grows_synchronizeFullTree [where W = W and E = E and F = F and n = n and k = k], of w]
      relatesD [OF grows_ensureAuthor [where W = W and E = E and F = F and n = n], of w]
    by (auto simp: grows_def intro: keep)
qed

end
