(* ===== verification/Ingest_Props.thy ===== *)
theory Ingest_Props
  imports Store_Growth
begin

text \<open>
  The work a worker does in the background ends without a panic; and two things that it does
  not check: the validity of bootstrapped communities, and the identity of fetched authors.
\<close>

subsection \<open>Operations that do not panic\<close>

definition calm :: "('s, 'a) go \<Rightarrow> bool" where
  "calm m \<longleftrightarrow> (\<forall>s p t. m s \<noteq> (Panic p, t))"

lemma calm_basic:
  "calm (Pair (Ret a))" "calm (ret a)" "calm (fail e)" "calm (lift_sum w x)" "calm nextWake" "calm interfere" "calm (writeConn bs)" "calm getNextMessageID"
  "calm (storePending i)" "calm (Cancel i)" "calm (subscribeFresh h)"
  by (auto simp: calm_def lift_sum_def nextWake_def interfere_def writeConn_def getNextMessageID_def
      storePending_def Cancel_def subscribeFresh_def split: sum.splits list.splits option.splits)

lemma calm_seqM: "calm m \<Longrightarrow> (\<And>a. calm (f a)) \<Longrightarrow> calm (seqM m f)"
  unfolding calm_def seqM_def by (auto split: prod.splits res.splits)

lemma calm_attempt: "calm m \<Longrightarrow> (\<And>a. calm (f a)) \<Longrightarrow> calm (attempt m f)"
  unfolding calm_def attempt_def by (auto split: prod.splits res.splits)

lemma calm_onErr: "calm m \<Longrightarrow> calm (onErr c m)"
  unfolding calm_def onErr_def by (auto split: prod.splits res.splits)

lemma calm_errorOf: "calm m \<Longrightarrow> calm (errorOf m)"
  unfolding calm_def errorOf_def by (auto split: prod.splits res.splits)

lemma calm_cases:
  "calm m \<Longrightarrow> calm m' \<Longrightarrow> calm (if b then m else m')"
  "calm m \<Longrightarrow> (\<And>x. calm (f x)) \<Longrightarrow> calm (case y of None \<Rightarrow> m | Some x \<Rightarrow> f x)"
  by (auto split: option.splits)

lemma calm_fromStore: "calm (fromStore c f)"
  unfolding calm_def fromStore_def lift_sum_def by (auto split: sum.splits)

lemma calm_readStore: "calm (readStore c f)"
  unfolding readStore_def by (intro calm_seqM calm_basic calm_fromStore)

lemma calm_addAs: "calm (addAs W n)" "calm (validateDeep W n)"
  unfolding addAs_def validateDeep_def
  by (intro calm_seqM calm_basic, simp add: calm_def lift_sum_def split: sum.split prod.split)+


lemma calm_writeMessageAsync: "calm (writeMessageAsync verb format args)"
  unfolding writeMessageAsync_def writeMessageWithID_def
  by (intro calm_seqM calm_errorOf calm_onErr calm_basic)

lemma calm_handleExpected: "calm (handleExpectedStatus op wake a)" "calm (handleExpectedResponse op wake a)"
  unfolding handleExpectedStatus_def handleExpectedResponse_def
  by (auto split: prod.splits option.splits wakeup.splits reply.splits intro!: calm_seqM calm_basic)

lemma calm_requests:
  "calm (SendList t q wake)" "calm (SendQuery F hs wake)" "calm (SendAncestry F h l wake)"
  "calm (SendLeavesOf F h q wake)" "calm (SendSubscribe F n wake)" "calm (SendAnnounce F ns wake)"
  unfolding SendList_def SendQuery_def SendAncestry_def SendLeavesOf_def SendSubscribe_def subscribeOp_def
    subscribeOpID_def SendAnnounce_def SendListAsync_def SendQueryAsync_def SendAncestryAsync_def
    SendLeavesOfAsync_def subscribeOpIDAsync_def SendAnnounceAsync_def
  by (intro calm_seqM calm_writeMessageAsync calm_handleExpected)+

lemma calm_awaiting: "(\<And>wake. calm (send wake)) \<Longrightarrow> calm (awaiting send)"
  unfolding awaiting_def by (intro calm_seqM calm_basic)

lemmas calm_rules =
  calm_basic calm_seqM calm_attempt calm_onErr calm_cases calm_fromStore calm_readStore calm_addAs
  calm_awaiting [OF calm_requests(1)] calm_awaiting [OF calm_requests(2)] calm_awaiting [OF calm_requests(3)]
  calm_awaiting [OF calm_requests(4)] calm_awaiting [OF calm_requests(5)] calm_awaiting [OF calm_requests(6)]

lemma calm_getLocal: "calm (getLocal W hs)"
  by (induction hs) (auto intro!: calm_rules)

lemma calm_ensureAuthor: "calm (ensureAuthorAvailable F W n)"
  unfolding ensureAuthorAvailable_def fetchAuthor_def
  by (cases "nodeKind F n") (auto intro!: calm_rules)

lemma calm_loops: "calm (ingestAncestors F W ns)" "calm (addChecked F W ns)" "calm (syncLeaves F W ns)"
proof -
  show "calm (ingestAncestors F W ns)" by (induction ns) (auto intro!: calm_rules calm_ensureAuthor)
  show add: "calm (addChecked F W ns)" for ns by (induction ns) (auto intro!: calm_rules calm_ensureAuthor)
  show "calm (syncLeaves F W ns)" by (induction ns) (auto intro!: calm_rules add)
qed

lemma calm_IngestNode: "calm (IngestNode F W n)"
  unfolding IngestNode_def validateWithAncestry_def
  by (intro calm_rules calm_errorOf calm_loops calm_ensureAuthor)

lemma calm_synchronizeFullTree: "calm (synchronizeFullTree F W n k)"
  unfolding synchronizeFullTree_def by (intro calm_rules calm_getLocal calm_loops)

text \<open>Operations that always return nil.\<close>

definition settles :: "('s, unit) go \<Rightarrow> bool" where
  "settles m \<longleftrightarrow> (\<forall>s. fst (m s) = Ret ())"

lemma settles_attempt: "calm m \<Longrightarrow> (\<And>a. settles (f a)) \<Longrightarrow> settles (attempt m f)"
  unfolding settles_def calm_def attempt_def by (fastforce split: prod.splits res.splits)

lemma settles_seqM: "settles m \<Longrightarrow> (\<And>a. settles (f a)) \<Longrightarrow> settles (seqM m f)"
  unfolding settles_def seqM_def by (auto split: prod.splits res.splits) (metis fst_conv res.distinct(1,3))+

lemma settles_basic: "settles (ret u)" "settles (Pair (Ret u))" "settles (subscribeFresh h)"
  by (simp_all add: settles_def subscribeFresh_def)

lemma settles_bootstrapCommunity: "settles (bootstrapCommunity F W k n)"
  unfolding bootstrapCommunity_def
  by (cases "nodeKind F n")
    (auto intro!: settles_attempt settles_seqM settles_basic calm_rules calm_ensureAuthor calm_synchronizeFullTree)

lemma settles_bootstrapCommunities: "settles (bootstrapCommunities F W k ns)"
  by (induction ns) (auto intro: settles_seqM settles_bootstrapCommunity settles_basic)


subsection \<open>What is not checked\<close>

text \<open>Without interference.\<close>

lemma readStore_alone: "others w = [] \<Longrightarrow> readStore c f w = fromStore c f w"
  by (simp add: readStore_def seqM_interfere)

lemma ensureAuthor_stored:
  assumes "nodeKind F n = CommunityNode a \<or> nodeKind F n = ReplyNode a c"
    and "GetIdentity W (theStore w) a = Inr (Some x)" and "others w = []"
  shows "ensureAuthorAvailable F W n w = (Ret (), w)"
  using assms by (auto simp: ensureAuthorAvailable_def fetchAuthor_def readStore_alone seqM_def [of "readStore _ _"])

text \<open>The author of a node is in the store, or it needs none.\<close>

definition author_known :: "('h, 'n) forest \<Rightarrow> ('h, 'n, 's) world \<Rightarrow> 's \<Rightarrow> 'n \<Rightarrow> bool" where
  "author_known F W s n \<longleftrightarrow>
     (case nodeKind F n of
        IdentityNode \<Rightarrow> True
      | CommunityNode a \<Rightarrow> \<exists>x. GetIdentity W s a = Inr (Some x)
      | ReplyNode a c \<Rightarrow> \<exists>x. GetIdentity W s a = Inr (Some x)
      | OtherNode \<Rightarrow> False)"

lemma author_known_ensures:
  "author_known F W (theStore w) n \<Longrightarrow> others w = [] \<Longrightarrow> ensureAuthorAvailable F W n w = (Ret (), w)"
  by (cases "nodeKind F n")
    (auto simp: author_known_def ensureAuthorAvailable_def fetchAuthor_def readStore_alone seqM_def [of "readStore _ _"])

lemma IngestNode_valid:
  assumes "author_known F W (theStore w) n" and "ValidateDeep W n (theStore w) = Inr ()" and "others w = []"
  shows "IngestNode F W n w = addAs W n w"
  using author_known_ensures [OF assms(1,3)] assms(2,3)
  by (simp add: IngestNode_def seqM_def errorOf_def validateDeep_run)

text \<open>The answer that the next synchronous request gets.\<close>

lemma awaiting_SendQuery:
  "writeFaults w = [] \<Longrightarrow> wakes w = Received (ResponseReply ns) # rest \<Longrightarrow>
   \<exists>v. awaiting (SendQuery F hs) w = (Ret ns, v) \<and> same_db w v \<and> writeFaults v = [] \<and> wakes v = rest"
  by (simp add: awaiting_def nextWake_def seqM_def SendQuery_def Send_requested ticket_def handleExpectedResponse_def
      requested_def)

lemma awaiting_SendList:
  "writeFaults w = [] \<Longrightarrow> wakes w = Received (ResponseReply ns) # rest \<Longrightarrow>
   \<exists>v. awaiting (SendList t q) w = (Ret ns, v) \<and> same_db w v \<and> writeFaults v = [] \<and> wakes v = rest"
  by (simp add: awaiting_def nextWake_def seqM_def SendList_def SendListAsync_def writeMessageAsync_ok ticket_def
      handleExpectedResponse_def requested_def)

text \<open>
  C29.  Bootstrap does not validate communities.  A community listed by the peer whose author
  is in the store is inserted even when \<open>ValidateDeep\<close> rejects it.
\<close>

theorem bootstrap_adds_unvalidated:
  assumes "writeFaults w = []" and "others w = []" and "wakes w = [Received (ResponseReply [c])]"
    and "nodeKind F c = CommunityNode a" and "GetIdentity W (theStore w) a = Inr (Some x)"
    and "AddAs W c (subscriptionID w) (theStore w) = (Inr (), s)"
    and "ValidateDeep W c (theStore w) = Inl e"
  shows "theStore (snd (BootstrapLocalStore F W k w)) = s"
proof -
  obtain v where v: "awaiting (SendList (NodeTypeCommunity F) k) w = (Ret [c], v)" "same_db w v"
      "writeFaults v = []" "wakes v = []"
    using awaiting_SendList [OF assms(1,3)] by blast
  have author: "ensureAuthorAvailable F W c v = (Ret (), v)"
    by (rule ensureAuthor_stored [where a = a and x = x]) (use assms v in auto)
  have add: "addAs W c v = (Ret (), v\<lparr>theStore := s\<rparr>)"
    using assms(2,6) v(2) by (simp add: addAs_run Let_def)
  have "\<exists>u. awaiting (SendSubscribe F c) (v\<lparr>theStore := s\<rparr>) = (Fail (TimedOut SubscribeVerb), u) \<and> theStore u = s"
    using v by (simp add: awaiting_def nextWake_def seqM_def SendSubscribe_def subscribeOp_def subscribeOpID_def
        Send_requested [unfolded SendSubscribeByIDAsync_def] ticket_def handleExpectedStatus_def Cancel_def requested_def)
  then show ?thesis
    using v author add assms(4)
    by (auto simp: BootstrapLocalStore_def bootstrapCommunity_def attempt_def seqM_def)
qed

theorem bootstrap_adds_unvalidated_witness:
  "theStore (snd (BootstrapLocalStore one_forest (demo_world\<lparr>ValidateDeep := \<lambda>n s. Inl ''bad signature''\<rparr>) 5
      (demo_worker\<lparr>wakes := [Received (ResponseReply [DemoNode 8 0 (CommunityNode 1) 0 5])]\<rparr>)))
   = demo_chain @ [DemoNode 8 0 (CommunityNode 1) 0 5]"
  by (rule bootstrap_adds_unvalidated [where a = 1])
    (simp_all add: one_forest_def demo_forest_def demo_world_def demo_chain_def)

text \<open>
  C30.  The fetched author is not compared with the author that was asked for.  When the peer
  answers the query for an author with any one node that validates, \<open>ensureAuthorAvailable\<close>
  inserts it and returns nil, also when the author is still not available afterwards.
\<close>

theorem any_author_accepted:
  assumes "writeFaults w = []" and "others w = []" and "wakes w = Received (ResponseReply [m]) # rest"
    and "nodeKind F n = ReplyNode a c" and "GetIdentity W (theStore w) a = Inr None"
    and "ValidateDeep W m (theStore w) = Inr ()"
    and "AddAs W m (subscriptionID w) (theStore w) = (Inr (), s)"
    and "GetIdentity W s a = Inr None"
  shows "fst (ensureAuthorAvailable F W n w) = Ret ()
       \<and> theStore (snd (ensureAuthorAvailable F W n w)) = s
       \<and> GetIdentity W (theStore (snd (ensureAuthorAvailable F W n w))) a = Inr None"
proof -
  obtain v where v: "awaiting (SendQuery F [a]) w = (Ret [m], v)" "same_db w v"
    using awaiting_SendQuery [OF assms(1,3)] by blast
  have "ensureAuthorAvailable F W n w = (Ret (), v\<lparr>theStore := s\<rparr>)"
    using assms(2,4-7) v
    by (simp add: ensureAuthorAvailable_def fetchAuthor_def readStore_alone seqM_def onErr_def validateDeep_run
        addAs_run Let_def)
  with assms(8) show ?thesis by simp
qed

theorem any_author_accepted_witness:
  "theStore (snd (ensureAuthorAvailable one_forest demo_world (DemoNode 6 1 (ReplyNode 9 1) 1 5)
      (demo_worker\<lparr>wakes := [Received (ResponseReply [one_node])]\<rparr>))) = demo_chain @ [one_node]"
  using any_author_accepted [of "demo_worker\<lparr>wakes := [Received (ResponseReply [one_node])]\<rparr>" one_node "[]" one_forest
      "DemoNode 6 1 (ReplyNode 9 1) 1 5" 9 1 demo_world "demo_chain @ [one_node]"]
  by (simp add: one_forest_def demo_forest_def demo_world_def demo_chain_def one_node_def)

end
