(* ===== verification/Expiring_Set.thy ===== *)
theory Expiring_Set
  imports Prelude
begin

text \<open>
  \<open>ExpiringSet\<close> of cmd/relay/expiring_set.go: a set of strings whose elements go away after
  a lifetime.  Times are integers (nanoseconds); every reading of the clock is an argument,
  and an operation that reads it twice has two.  The locks make each operation one step.
\<close>

subsection \<open>Operations\<close>

type_synonym elements = "string \<rightharpoonup> int"

definition NewExpiringSet :: elements where
  "NewExpiringSet = Map.empty"

definition purge :: "int \<Rightarrow> elements \<Rightarrow> elements" where
  "purge now s = (\<lambda>key. case s key of
     None \<Rightarrow> None
   | Some expiration \<Rightarrow> if expiration < now then None else Some expiration)"

definition Add :: "int \<Rightarrow> int \<Rightarrow> string \<Rightarrow> int \<Rightarrow> elements \<Rightarrow> elements" where
  "Add now now' element lifetime s = (purge now s)(element \<mapsto> now' + lifetime)"

definition Has :: "int \<Rightarrow> string \<Rightarrow> elements \<Rightarrow> bool \<times> elements" where
  "Has now element s = (let s' = purge now s in (s' element \<noteq> None, s'))"

subsection \<open>Histories\<close>

datatype set_call = CallAdd int int string int | CallHas int string

fun run_call :: "set_call \<Rightarrow> elements \<Rightarrow> elements" where
  "run_call (CallAdd now now' element lifetime) s = Add now now' element lifetime s"
| "run_call (CallHas now element) s = snd (Has now element s)"

text \<open>The specification: a log of expirations from which nothing is ever removed.\<close>

fun log_call :: "set_call \<Rightarrow> elements \<Rightarrow> elements" where
  "log_call (CallAdd now now' element lifetime) l = l(element \<mapsto> now' + lifetime)"
| "log_call (CallHas now element) l = l"

definition expiry :: "set_call list \<Rightarrow> string \<Rightarrow> int option" where
  "expiry calls = fold log_call calls NewExpiringSet"

text \<open>Every reading of the clock is at most \<open>t\<close>.\<close>

fun before :: "int \<Rightarrow> set_call \<Rightarrow> bool" where
  "before t (CallAdd now now' element lifetime) = (now \<le> t \<and> now' \<le> t)"
| "before t (CallHas now element) = (now \<le> t)"

definition tracks :: "int \<Rightarrow> elements \<Rightarrow> elements \<Rightarrow> bool" where
  "tracks t s l \<longleftrightarrow> (\<forall>k x. t \<le> x \<longrightarrow> (s k = Some x \<longleftrightarrow> l k = Some x))"

lemma purge_Some: "purge now s k = Some x \<longleftrightarrow> s k = Some x \<and> now \<le> x"
  by (cases "s k") (auto simp: purge_def)

lemma tracks_purge: "tracks t s l \<Longrightarrow> now \<le> t \<Longrightarrow> tracks t (purge now s) l"
  by (simp add: tracks_def purge_Some)

lemma tracks_update: "tracks t s l \<Longrightarrow> tracks t (s(k \<mapsto> x)) (l(k \<mapsto> x))"
  unfolding tracks_def by simp

lemma tracks_call: "tracks t s l \<Longrightarrow> before t c \<Longrightarrow> tracks t (run_call c s) (log_call c l)"
proof (induction c)
  case (CallAdd now now' element lifetime)
  then have "tracks t (purge now s) l" by (intro tracks_purge) simp_all
  then show ?case by (simp add: Add_def tracks_update del: fun_upd_apply)
next
  case (CallHas now element)
  then show ?case by (simp add: Has_def Let_def tracks_purge)
qed

lemma tracks_fold:
  "tracks t s l \<Longrightarrow> list_all (before t) calls \<Longrightarrow> tracks t (fold run_call calls s) (fold log_call calls l)"
  by (induction calls arbitrary: s l) (auto intro: tracks_call)

text \<open>
  C26.  Purging is invisible.  After any history of calls, \<open>Has\<close> at a time not before them
  says yes exactly when the element's latest \<open>Add\<close> has not expired by then; the removals
  that the calls in between made do not show.
\<close>

theorem has_until_expiry:
  assumes "list_all (before t) calls"
  shows "fst (Has t element (fold run_call calls NewExpiringSet)) \<longleftrightarrow>
         (case expiry calls element of None \<Rightarrow> False | Some x \<Rightarrow> t \<le> x)"
proof -
  have "tracks t NewExpiringSet NewExpiringSet" by (simp add: tracks_def NewExpiringSet_def)
  from tracks_fold [OF this assms] have "tracks t (fold run_call calls NewExpiringSet) (expiry calls)"
    by (simp add: expiry_def)
  then have "(\<exists>x. fold run_call calls NewExpiringSet element = Some x \<and> t \<le> x)
      \<longleftrightarrow> (\<exists>x. expiry calls element = Some x \<and> t \<le> x)"
    by (auto simp: tracks_def)
  then show ?thesis
    by (auto simp: Has_def Let_def purge_Some simp flip: not_None_eq split: option.splits)
qed

theorem has_until_expiry_witness:
  "fst (Has 12 ''a'' (fold run_call [CallAdd 0 1 ''a'' 10, CallAdd 2 3 ''b'' 5, CallAdd 4 4 ''a'' 8] NewExpiringSet))
   \<and> \<not> fst (Has 12 ''b'' (fold run_call [CallAdd 0 1 ''a'' 10, CallAdd 2 3 ''b'' 5, CallAdd 4 4 ''a'' 8] NewExpiringSet))"
  using has_until_expiry [of 12 "[CallAdd 0 1 ''a'' 10, CallAdd 2 3 ''b'' 5, CallAdd 4 4 ''a'' 8]" "''a''"]
    has_until_expiry [of 12 "[CallAdd 0 1 ''a'' 10, CallAdd 2 3 ''b'' 5, CallAdd 4 4 ''a'' 8]" "''b''"]
  by (simp add: expiry_def)

end
