(* ===== verification/Relay.thy ===== *)
theory Relay
  imports Ingest_Props Expiring_Set "HOL-Library.Word"
begin

unbundle bit_operations_syntax

text \<open>
  The programs around the workers: the file watcher (watch/watch.go), what the relay does
  with a watched file and with nodes it stores itself, and its accept loop
  (cmd/relay/main.go), and the supervisor that keeps a worker connected (supervisor.go).
  Loops that never end by themselves take the list of what their environment delivers; at
  its end they wait.
\<close>

subsection \<open>Watching a directory\<close>

text \<open>The two bits of package fsnotify that the code tests.\<close>

record fsnotify =
  Create :: "32 word"
  Write :: "32 word"

record fs_event =
  Op :: "32 word"
  Name :: string

datatype watch_input = Event fs_event | EventsClosed | WatchError string | ErrorsClosed

datatype watch_log = GotCreate string | GotWrite string | GotError

definition is_set :: "32 word \<Rightarrow> 32 word \<Rightarrow> bool" where
  "is_set op flag \<longleftrightarrow> op AND flag \<noteq> 0"

fun watchLoop :: "fsnotify \<Rightarrow> (string \<Rightarrow> 's \<Rightarrow> 's) \<Rightarrow> watch_input list \<Rightarrow> watch_log list \<times> 's \<Rightarrow> watch_log list \<times> 's" where
  "watchLoop fsn handler [] (logged, s) = (logged, s)"
| "watchLoop fsn handler (EventsClosed # inputs) (logged, s) = (logged, s)"
| "watchLoop fsn handler (ErrorsClosed # inputs) (logged, s) = (logged @ [GotError], s)"
| "watchLoop fsn handler (WatchError e # inputs) (logged, s) = watchLoop fsn handler inputs (logged, s)"
| "watchLoop fsn handler (Event event # inputs) (logged, s) =
     (if is_set (Op event) (Create fsn)
      then watchLoop fsn handler inputs (logged @ [GotCreate (Name event)], handler (Name event) s)
      else if is_set (Op event) (Write fsn)
      then watchLoop fsn handler inputs (logged @ [GotWrite (Name event)], handler (Name event) s)
      else watchLoop fsn handler inputs (logged, s))"

fun closing :: "watch_input \<Rightarrow> bool" where
  "closing EventsClosed = True"
| "closing ErrorsClosed = True"
| "closing _ = False"

fun watched_file :: "fsnotify \<Rightarrow> watch_input \<Rightarrow> string option" where
  "watched_file fsn (Event event) =
     (if is_set (Op event) (Create fsn) \<or> is_set (Op event) (Write fsn) then Some (Name event) else None)"
| "watched_file fsn _ = None"

text \<open>
  \<open>Watch\<close>: the library's \<open>NewWatcher\<close> and \<open>Add\<close> return an error or nil.  The goroutine with the
  loop is started before \<open>Add\<close> is called.  The result is the returned error, whether the
  goroutine was started, and what it did; the entry that \<open>dir\<close> is watched is not in the log.
\<close>

record watch_calls =
  NewWatcher :: "string option"
  AddDir :: "string \<Rightarrow> string option"

definition Watch :: "fsnotify \<Rightarrow> watch_calls \<Rightarrow> string \<Rightarrow> (string \<Rightarrow> 's \<Rightarrow> 's) \<Rightarrow> watch_input list \<Rightarrow> 's
     \<Rightarrow> (string option \<times> bool) \<times> watch_log list \<times> 's" where
  "Watch fsn calls dir handler inputs s =
     (case NewWatcher calls of
        Some err \<Rightarrow> ((Some err, False), [], s)
      | None \<Rightarrow> ((AddDir calls dir, True), watchLoop fsn handler inputs ([], s)))"

lemma watchLoop_fold:
  "snd (watchLoop fsn handler inputs (logged, s))
     = fold handler (List.map_filter (watched_file fsn) (takeWhile (\<lambda>i. \<not> closing i) inputs)) s"
proof (induction inputs arbitrary: logged s)
  case Nil
  then show ?case by (simp add: List.map_filter_simps)
next
  case (Cons i inputs)
  then show ?case by (cases i) (simp_all add: List.map_filter_simps)
qed

text \<open>The log entries of one input, given that the loop is still running.\<close>

fun entries :: "fsnotify \<Rightarrow> watch_input \<Rightarrow> watch_log list" where
  "entries fsn (Event event) =
     (if is_set (Op event) (Create fsn) then [GotCreate (Name event)]
      else if is_set (Op event) (Write fsn) then [GotWrite (Name event)] else [])"
| "entries fsn ErrorsClosed = [GotError]"
| "entries fsn _ = []"

lemma watchLoop_log:
  "fst (watchLoop fsn handler inputs (logged, s)) =
     logged @ concat (map (entries fsn) (takeWhile (\<lambda>i. \<not> closing i) inputs
       @ take 1 (dropWhile (\<lambda>i. \<not> closing i) inputs)))"
proof (induction inputs arbitrary: logged s)
  case (Cons i inputs)
  then show ?case by (cases i) simp_all
qed simp

text \<open>
  C37.  The watcher runs its handler once for each event that reports a creation or a write
  (also for one that reports both), in the order of the events and on no other event, until
  one of the watcher's channels is closed; an error of the watcher leaves no log entry, only the
  closing of the channel of errors does.  Without a watcher nothing runs; but when the directory
  cannot be added \<open>Watch\<close> returns the error and leaves the goroutine running.
\<close>

theorem watch_handles_events:
  "Watch fsn calls dir handler inputs s =
     (let heard = takeWhile (\<lambda>i. \<not> closing i) inputs;
          last_heard = take 1 (dropWhile (\<lambda>i. \<not> closing i) inputs)
      in if NewWatcher calls = None
         then ((AddDir calls dir, True), concat (map (entries fsn) (heard @ last_heard)),
               fold handler (List.map_filter (watched_file fsn) heard) s)
         else ((NewWatcher calls, False), [], s))"
  using watchLoop_fold [of fsn handler inputs "[]" s] watchLoop_log [of fsn handler inputs "[]" s]
  by (auto simp: Watch_def Let_def prod_eq_iff split: option.split)

subsection \<open>Files of the grove\<close>

text \<open>
  The relay's state: the recently added identifiers and the messages.  Reading files and the
  archive's \<open>Add\<close> (which runs the subscribed callbacks) are parameters.
\<close>

record 's relay =
  addedOurselves :: elements
  messages :: 's

record ('n, 's) relay_world =
  ReadFile :: "string \<Rightarrow> string + string"
  validateFile :: "'n \<Rightarrow> 's \<Rightarrow> string + unit"
  addMessage :: "'n \<Rightarrow> 's relay \<Rightarrow> (string + unit) \<times> 's relay"

definition minute :: int where "minute = 60 * 10 ^ 9"

text \<open>The callback given to \<open>PresubscribeToNewMessages\<close>.\<close>

definition rememberAdded :: "('h, 'n) forest \<Rightarrow> int \<Rightarrow> int \<Rightarrow> 'n \<Rightarrow> 's relay \<Rightarrow> 's relay" where
  "rememberAdded F now now' n r =
     r\<lparr>addedOurselves := Add now now' (HashString F (ID F n)) minute (addedOurselves r)\<rparr>"

datatype file_outcome = Unreadable | Undecodable | WroteIt | InvalidFile | AddFailed | AddedFile

text \<open>The callback given to \<open>Watch\<close>; \<open>now\<close> is the time \<open>Has\<close> reads.\<close>

definition handleFile ::
    "('h, 'n) forest \<Rightarrow> ('n, 's) relay_world \<Rightarrow> int \<Rightarrow> string \<Rightarrow> 's relay \<Rightarrow> file_outcome \<times> 's relay" where
  "handleFile F P now filename r =
     (case ReadFile P filename of
        Inl e \<Rightarrow> (Unreadable, r)
      | Inr data \<Rightarrow>
          (case UnmarshalBinaryNode F data of
             Inl e \<Rightarrow> (Undecodable, r)
           | Inr node \<Rightarrow>
               (let (ok, els) = Has now (HashString F (ID F node)) (addedOurselves r);
                    r = r\<lparr>addedOurselves := els\<rparr>
                in if ok then (WroteIt, r)
                   else (case validateFile P node (messages r) of
                       Inl e \<Rightarrow> (InvalidFile, r)
                     | Inr _ \<Rightarrow>
                         (case addMessage P node r of
                            (Inl e, r') \<Rightarrow> (AddFailed, r')
                          | (Inr _, r') \<Rightarrow> (AddedFile, r'))))))"



subsection \<open>The supervisor\<close>

text \<open>
  One round of the loop of \<open>LaunchSupervisedWorker\<close>: what dialing gives (\<open>None\<close> is an
  error, otherwise the bytes and write faults of the connection), when \<open>Done\<close> is seen
  closed by the worker's own loop, and whether it is closed after the worker ended.
\<close>

record attempt =
  dialed :: "(rune list \<times> nat option list) option"
  doneInRun :: "nat \<Rightarrow> bool"
  doneAfter :: bool

text \<open>\<open>bootstraps\<close> counts the goroutines started for \<open>BootstrapLocalStore(1024)\<close>.\<close>

record 's supervised =
  firstAttempt :: bool
  sleeps :: nat
  bootstraps :: nat
  svStore :: 's

datatype sv_outcome = Trying | Stopped | ProcessDied panic

definition beginAttempt :: "'s supervised \<Rightarrow> 's supervised" where
  "beginAttempt v =
     (if firstAttempt v then v\<lparr>firstAttempt := False\<rparr> else v\<lparr>sleeps := Suc (sleeps v)\<rparr>)"

fun supervise ::
    "('h, 'n) forest \<Rightarrow> ('h, 'n, 's) world \<Rightarrow> attempt list \<Rightarrow> 's supervised \<Rightarrow> sv_outcome \<times> 's supervised" where
  "supervise F W [] v = (Trying, v)"
| "supervise F W (a # attempts) v =
     (let v = beginAttempt v in
      case dialed a of
        None \<Rightarrow> supervise F W attempts v
      | Some (transport, faults) \<Rightarrow>
          (case Run F W (doneInRun a) (NewWorker transport faults (svStore v)) of
             None \<Rightarrow> (Trying, v\<lparr>bootstraps := Suc (bootstraps v)\<rparr>)
           | Some (stop, w) \<Rightarrow>
               (let v = v\<lparr>bootstraps := Suc (bootstraps v), svStore := theStore w\<rparr> in
                case stop of
                  Crashed p \<Rightarrow> (ProcessDied p, v)
                | _ \<Rightarrow> if doneAfter a then (Stopped, v) else supervise F W attempts v)))"

lemma beginAttempt_simps [simp]:
  "firstAttempt (beginAttempt v) = False" "bootstraps (beginAttempt v) = bootstraps v"
  "svStore (beginAttempt v) = svStore v"
  by (simp_all add: beginAttempt_def)

text \<open>
  C39.  A supervisor that cannot connect cannot be stopped.  As long as every dial fails, the
  loop goes on trying, whatever the state of \<open>Done\<close>: it is looked at only after a worker
  ran.
\<close>

theorem unreachable_peer_never_stops:
  assumes "\<forall>a\<in>set attempts. dialed a = None"
  shows "fst (supervise F W attempts v) = Trying
       \<and> bootstraps (snd (supervise F W attempts v)) = bootstraps v"
  using assms by (induction attempts arbitrary: v) (simp_all add: Let_def)

theorem unreachable_peer_never_stops_witness:
  "fst (supervise one_forest demo_world [\<lparr>dialed = None, doneInRun = (\<lambda>_. True), doneAfter = True\<rparr>]
     \<lparr>firstAttempt = True, sleeps = 0, bootstraps = 0, svStore = demo_chain\<rparr>) = Trying"
  using unreachable_peer_never_stops [of "[\<lparr>dialed = None, doneInRun = (\<lambda>_. True), doneAfter = True\<rparr>]"] by simp

text \<open>
  C32.  One message from a peer ends the process.  When the peer that a supervisor connects to
  starts with a query, announce or response message with a negative count, the worker's
  goroutine panics, nothing recovers, and the process dies: the supervisor does not get to
  restart the worker.
\<close>

theorem peer_kills_process:
  assumes "verb \<in> {QueryVerb, AnnounceVerb, ResponseVerb}"
    and "int64 i" and "int64 c" and "c < 0"
    and "dialed a = Some (runes (verb @ '' '' @ itoa i @ '' '' @ itoa c @ ''\<newline>'') @ rest, faults)"
  shows "fst (supervise F W (a # attempts) v) = ProcessDied MakeSliceLen"
proof -
  let ?text = "runes (verb @ '' '' @ itoa i @ '' '' @ itoa c @ ''\<newline>'') @ rest"
  let ?w = "subscribeStore W (NewWorker ?text faults (svStore v))"
  have "BufferedConn ?w = ?text"
    by (simp add: subscribeStore_def NewWorker_def NewConn_def conn.defs split: prod.split)
  then have "?w\<lparr>BufferedConn := ?text\<rparr> = ?w" by simp
  with ReadMessage_negative_count [where F = F and H = "workerHooks F W" and s = ?w and rest = rest,
      OF assms(1-4)]
  have "ReadMessage F (workerHooks F W) ?w = (Panic MakeSliceLen, ?w\<lparr>BufferedConn := rest\<rparr>)"
    by simp
  from runLoop_step(4) [OF this]
  have "\<exists>u. Run F W (doneInRun a) (NewWorker ?text faults (svStore v)) = Some (Crashed MakeSliceLen, u)"
    by (simp add: Run_def)
  with assms(5) show ?thesis by (auto simp: Let_def)
qed

theorem peer_kills_process_witness:
  "fst (supervise one_forest demo_world
     [\<lparr>dialed = Some (runes (AnnounceVerb @ '' '' @ itoa 1 @ '' '' @ itoa (- 1) @ ''\<newline>'') @ [], []),
       doneInRun = (\<lambda>_. False), doneAfter = False\<rparr>]
     \<lparr>firstAttempt = True, sleeps = 0, bootstraps = 0, svStore = demo_chain\<rparr>) = ProcessDied MakeSliceLen"
  by (rule peer_kills_process [where verb = AnnounceVerb and i = 1 and c = "- 1" and rest = "[]" and faults = "[]"])
    (simp_all add: int64_def)

subsection \<open>The accept loop\<close>

text \<open>
  The loop of the relay that takes connections: for each return of \<open>Accept\<close>, the connection
  or an error, and whether \<open>done\<close> is closed after it.  The result says whether the loop
  ended, and lists the workers started (\<open>go worker.Run()\<close>).
\<close>

fun acceptLoop ::
    "'s \<Rightarrow> ((rune list \<times> nat option list) option \<times> bool) list \<Rightarrow> ('n, 'h, 's) worker list
     \<Rightarrow> bool \<times> ('n, 'h, 's) worker list" where
  "acceptLoop s [] workers = (False, workers)"
| "acceptLoop s ((conn, isDone) # accepts) workers =
     (case conn of
        None \<Rightarrow> acceptLoop s accepts workers
      | Some (transport, faults) \<Rightarrow>
          (let workers = workers @ [NewWorker transport faults s]
           in if isDone then (True, workers) else acceptLoop s accepts workers))"

fun up_to_first :: "('a \<Rightarrow> bool) \<Rightarrow> 'a list \<Rightarrow> 'a list" where
  "up_to_first P [] = []"
| "up_to_first P (x # xs) = (if P x then [x] else x # up_to_first P xs)"

text \<open>
  C38.  Every accepted connection gets a worker, and \<open>done\<close> is seen late: the loop starts one
  worker per accepted connection, in order, up to and including the first connection that is
  accepted when \<open>done\<close> is closed; it ends there, and before that it does not end, however
  long \<open>done\<close> has been closed.
\<close>

theorem accepts_until_done:
  "acceptLoop s accepts workers =
     (list_ex (\<lambda>(conn, isDone). conn \<noteq> None \<and> isDone) accepts,
      workers @ map (\<lambda>(transport, faults). NewWorker transport faults s)
        (List.map_filter fst (up_to_first (\<lambda>(conn, isDone). conn \<noteq> None \<and> isDone) accepts)))"
proof (induction s accepts workers rule: acceptLoop.induct)
  case (1 s workers)
  then show ?case by (simp add: List.map_filter_simps)
next
  case (2 s conn isDone accepts workers)
  then show ?case by (cases conn; cases isDone) (auto simp: List.map_filter_simps Let_def)
qed

end
