(* ===== verification/Startup.thy ===== *)
theory Startup
  imports Relay
begin

text \<open>
  \<open>main\<close> of cmd/relay/main.go: the order in which the relay starts its parts, the errors that end
  it, and its end.  The flags are given as \<open>flag.Parse\<close> leaves them, and what the operating
  system and the libraries return as a record of results.  Log entries are left out, and so is
  \<open>tickerChan\<close>, which nothing calls.
\<close>

subsection \<open>Flags and results\<close>

record relay_flags =
  grovePath :: string
  certPath :: string
  keyPath :: string
  insecure :: bool
  tlsPort :: int
  tlsIP :: string
  profilingAddr :: string
  metricsAddress :: string
  addresses :: "string list" \<comment> \<open>\<open>flag.Args()\<close>\<close>

definition defaultFlags :: "string \<Rightarrow> string list \<Rightarrow> relay_flags" where
  "defaultFlags wd args =
     \<lparr>grovePath = wd, certPath = [], keyPath = [], insecure = False, tlsPort = 7777,
      tlsIP = ''127.0.0.1'', profilingAddr = [], metricsAddress = ''127.0.0.1:2112'', addresses = args\<rparr>"

text \<open>The calls that can fail: \<open>None\<close> is a nil error.\<close>

record startup_calls =
  LoadX509KeyPair :: "string \<Rightarrow> string \<Rightarrow> string option"
  Listen :: "string \<Rightarrow> string option"
  NewGrove :: "string \<Rightarrow> string option"
  watchCalls :: watch_calls

text \<open>What \<open>main\<close> starts, in order.\<close>

datatype part =
    ServingPprof string
  | Listening string
  | ServingMetrics string
  | CatchingInterrupt
  | Purging int \<comment> \<open>removing expired nodes, with the interval in nanoseconds\<close>
  | RememberingAdded \<comment> \<open>\<open>rememberAdded\<close> is subscribed\<close>
  | WatchingGrove string \<comment> \<open>the loop of \<open>Watch\<close> with \<open>handleFile\<close>\<close>
  | Accepting \<comment> \<open>\<open>acceptLoop\<close>\<close>
  | Supervising string bool \<comment> \<open>\<open>supervise\<close> of an address, without verifying certificates or not\<close>

datatype start =
    LoadingCertsFailed string
  | ListenFailed string string
  | GroveFailed string string
  | Serving

definition hour :: int where "hour = 60 * minute"

definition listenAddress :: "relay_flags \<Rightarrow> string" where
  "listenAddress flags = sprintf ''%s:%d'' [FStr (tlsIP flags), FInt (tlsPort flags)]"

subsection \<open>The program up to the signal\<close>

text \<open>The peers given as arguments; \<open>peerTlsConfig\<close> is nil unless certificates are not verified.\<close>

definition dialPeers :: "relay_flags \<Rightarrow> part list" where
  "dialPeers flags = map (\<lambda>address. Supervising address (insecure flags)) (addresses flags)"

definition startRelay :: "fsnotify \<Rightarrow> startup_calls \<Rightarrow> relay_flags \<Rightarrow> start \<times> part list" where
  "startRelay fsn calls flags =
     (let parts = (if profilingAddr flags \<noteq> [] then [ServingPprof (profilingAddr flags)] else []) in
      case LoadX509KeyPair calls (certPath flags) (keyPath flags) of
        Some err \<Rightarrow> (LoadingCertsFailed err, parts)
      | None \<Rightarrow>
          (case Listen calls (listenAddress flags) of
             Some err \<Rightarrow> (ListenFailed (listenAddress flags) err, parts)
           | None \<Rightarrow>
               (let parts = parts @ [Listening (listenAddress flags)]
                      @ (if metricsAddress flags \<noteq> [] then [ServingMetrics (metricsAddress flags)] else [])
                      @ [CatchingInterrupt] in
                case NewGrove calls (grovePath flags) of
                  Some err \<Rightarrow> (GroveFailed (grovePath flags) err, parts)
                | None \<Rightarrow>
                    (let parts = parts @ [Purging hour, RememberingAdded];
                         ((err, watches), _) =
                           Watch fsn (watchCalls calls) (grovePath flags) (\<lambda>_ s. s) [] ();
                         parts = parts @ (if watches then [WatchingGrove (grovePath flags)] else [])
                                   @ [Accepting]
                     in (Serving, parts @ dialPeers flags)))))"

text \<open>
  After the signal \<open>done\<close> is closed and the deferred \<open>Destroy\<close> runs; nothing waits for the parts.
\<close>

datatype shutdown = CloseDone | DestroyMessages

definition relayMain ::
    "fsnotify \<Rightarrow> startup_calls \<Rightarrow> relay_flags \<Rightarrow> bool \<Rightarrow> start \<times> part list \<times> shutdown list" where
  "relayMain fsn calls flags interrupted =
     (case startRelay fsn calls flags of
        (Serving, parts) \<Rightarrow> (Serving, parts, if interrupted then [CloseDone, DestroyMessages] else [])
      | (failed, parts) \<Rightarrow> (failed, parts, []))"

subsection \<open>What is started, and in which order\<close>

fun writes_store :: "part \<Rightarrow> bool" where
  "writes_store (Purging _) = True"
| "writes_store (WatchingGrove _) = True"
| "writes_store Accepting = True"
| "writes_store (Supervising _ _) = True"
| "writes_store _ = False"

fun adds_nodes :: "part \<Rightarrow> bool" where
  "adds_nodes (WatchingGrove _) = True"
| "adds_nodes Accepting = True"
| "adds_nodes (Supervising _ _) = True"
| "adds_nodes _ = False"

lemma Watch_started [simp]:
  "fst (Watch fsn calls dir handler inputs s)
     = (case NewWatcher calls of Some e \<Rightarrow> (Some e, False) | None \<Rightarrow> (AddDir calls dir, True))"
  by (simp add: Watch_def split: option.split)

lemma startRelay_serving:
  assumes "LoadX509KeyPair calls (certPath flags) (keyPath flags) = None"
    and "Listen calls (listenAddress flags) = None" and "NewGrove calls (grovePath flags) = None"
  shows "\<exists>quiet. startRelay fsn calls flags =
      (Serving, quiet @ RememberingAdded #
        (if NewWatcher (watchCalls calls) = None then [WatchingGrove (grovePath flags)] else []) @ Accepting #
        map (\<lambda>address. Supervising address (insecure flags)) (addresses flags))
    \<and> list_all (\<lambda>p. \<not> adds_nodes p) quiet \<and> Listening (listenAddress flags) \<in> set quiet"
  using assms by (simp add: startRelay_def dialPeers_def Let_def Watch_def split: option.split)


end
