(* ===== verification/Well_Formed.thy ===== *)
theory Well_Formed
  imports Background
begin

text \<open>
  The type invariant of a worker: the version it speaks, identifiers that are Go integers, a
  table of requests in which no channel is shared, and a session whose pointers are distinct
  and below the next one.  Every operation of the program keeps it, the goroutines in the
  background included; so it holds in every state of a worker's life.
\<close>

subsection \<open>The invariant\<close>

definition wf_worker :: "('n, 'h, 's) worker \<Rightarrow> bool" where
  "wf_worker w \<longleftrightarrow>
     Major w = CurrentMajor \<and> Minor w = CurrentMinor \<and> int64 (nextMessageID w)
   \<and> (\<forall>i. PendingStatus w i \<noteq> None \<longrightarrow> int64 i) \<and> pending_inv w
   \<and> session_ok (Communities w) \<and> session_fresh (nextPtr w) (Communities w)"

abbreviation keeps_wf :: "('n, 'h, 's) worker \<Rightarrow> ('n, 'h, 's) worker \<Rightarrow> bool" where
  "keeps_wf w v \<equiv> wf_worker w \<longrightarrow> wf_worker v"

lemma wf_NewWorker: "wf_worker (NewWorker transport faults s)"
  using pending_inv_NewWorker [of transport faults s]
  by (simp add: wf_worker_def NewWorker_def NewConn_def conn.defs int64_def NewSession_def
      session_ok_def session_fresh_def)

lemma pending_inv_others [simp]:
  fixes w :: "('n, 'h, 's) worker"
  shows "pending_inv (w\<lparr>theStore := s, others := fs\<rparr>) = pending_inv w"
    and "pending_inv (w\<lparr>wakes := ws\<rparr>) = pending_inv w"
    and "pending_inv (w\<lparr>theStore := s, wakes := ws, others := fs\<rparr>) = pending_inv w"
    and "pending_inv (w\<lparr>theStore := s, connClosed := b\<rparr>) = pending_inv w"
    and "pending_inv (w\<lparr>theStore := s, subscriptionID := k\<rparr>) = pending_inv w"
  by (simp_all add: pending_inv_def)

lemma wf_frame [simp]:
  fixes w :: "('n, 'h, 's) worker"
  shows "wf_worker (w\<lparr>BufferedConn := b\<rparr>) = wf_worker w"
    and "wf_worker (w\<lparr>written := bs\<rparr>) = wf_worker w"
    and "wf_worker (w\<lparr>written := bs, writeFaults := ws\<rparr>) = wf_worker w"
    and "wf_worker (w\<lparr>theStore := s\<rparr>) = wf_worker w"
    and "wf_worker (w\<lparr>theStore := s, others := fs\<rparr>) = wf_worker w"
    and "wf_worker (w\<lparr>wakes := wk\<rparr>) = wf_worker w"
    and "wf_worker (w\<lparr>theStore := s, wakes := wk, others := fs\<rparr>) = wf_worker w"
    and "wf_worker (w\<lparr>theStore := s, connClosed := c\<rparr>) = wf_worker w"
    and "wf_worker (w\<lparr>theStore := s, subscriptionID := k\<rparr>) = wf_worker w"
    and "wf_worker (w\<lparr>spawned := ns\<rparr>) = wf_worker w"
  by (simp_all add: wf_worker_def)

interpretation wf: run_relation "keeps_wf :: ('n, 'h, 's) worker \<Rightarrow> ('n, 'h, 's) worker \<Rightarrow> bool"
  by unfold_locales auto

subsection \<open>The parts keep it\<close>

lemma wf_writeConn: "relates keeps_wf (writeConn bs)"
  by (rule relatesI) (simp add: writeConn_def split: list.splits option.splits)

lemma wf_subscribe: "relates keeps_wf (subscribeFresh h)"
  by (simp add: relates_session wf_worker_def session_ok_Subscribe session_fresh_Subscribe)

lemma wf_unsubscribe: "relates keeps_wf (unsubscribeCommunity F W h)"
  by (simp add: relates_session wf_worker_def session_ok_Unsubscribe session_fresh_Unsubscribe)

lemma wf_answer:
  fixes w :: "('n, 'h, 's) worker"
  assumes "PendingStatus w i = Some ch"
  shows "keeps_wf w (w\<lparr>PendingStatus := (PendingStatus w)(i := None), answered := answered w @ [(ch, d)]\<rparr>)"
  using pend_answer [OF assms] by (auto simp: wf_worker_def)

lemma wf_Cancel: "relates keeps_wf (Cancel i)"
  using relatesD [OF pend_Cancel, of _ i] by (auto simp: relates_def wf_worker_def Cancel_def)

text \<open>The identifier of a request is the counter, which is a Go integer.\<close>

lemma wf_writeMessageAsync: "relates keeps_wf (writeMessageAsync verb format args)"
proof (rule relatesI)
  fix w :: "('n, 'h, 's) worker"
  let ?i = "nextMessageID w"
  let ?w = "w\<lparr>nextMessageID := wrap64 (?i + 1), nextChan := Suc (nextChan w),
               PendingStatus := (PendingStatus w)(?i \<mapsto> nextChan w)\<rparr>"
  have keep: "relates keeps_wf (errorOf (writeMessageWithID ?i verb format args))"
    unfolding writeMessageWithID_def
    by (intro relatesI) (auto simp: errorOf_def seqM_def onErr_def writeConn_def fail_def split: list.splits option.splits)
  have "keeps_wf w ?w"
    by (auto simp: wf_worker_def pending_inv_def table_ok_store simp del: fun_upd_apply)
      (auto split: if_splits)
  then have "keeps_wf w (snd (seqM (errorOf (writeMessageWithID ?i verb format args))
               (\<lambda>err. ret (nextChan w, ?i, err)) ?w))"
    using relatesD [OF wf.rel_seqM [OF keep, of "\<lambda>err. ret (nextChan w, ?i, err)"], of ?w]
    by (simp add: wf.rel_rules)
  then show "keeps_wf w (snd (writeMessageAsync verb format args w))"
    by (simp add: writeMessageAsync_def seqM_def [of getNextMessageID] getNextMessageID_def
        seqM_def [of "storePending _"] storePending_def)
qed

subsection \<open>The operations keep it\<close>

interpretation handlers_wf:
  handler_relation "keeps_wf :: ('n, 'h, 's) worker \<Rightarrow> ('n, 'h, 's) worker \<Rightarrow> bool"
  by unfold_locales (auto intro: wf_writeConn wf_subscribe wf_unsubscribe)

interpretation worker_wf:
  conn_relation "keeps_wf :: ('n, 'h, 's) worker \<Rightarrow> ('n, 'h, 's) worker \<Rightarrow> bool" "workerHooks F W"
  for F :: "('h, 'n) forest" and W :: "('h, 'n, 's) world"
  by unfold_locales (auto dest: wf_answer simp: handlers_wf.rel_workerHooks)

interpretation requests_wf:
  request_relation "keeps_wf :: ('n, 'h, 's) worker \<Rightarrow> ('n, 'h, 's) worker \<Rightarrow> bool"
  by unfold_locales (auto intro: wf_writeMessageAsync wf_Cancel)

interpretation background_wf:
  background_relation "keeps_wf :: ('n, 'h, 's) worker \<Rightarrow> ('n, 'h, 's) worker \<Rightarrow> bool"
  by unfold_locales (auto intro: wf_subscribe)

subsection \<open>The life of a worker\<close>

text \<open>
  \<open>lives F W w\<close>: the state \<open>w\<close> can be reached.  Besides the calls of \<open>step\<close>, the goroutines
  of \<open>OnAnnounce\<close>, \<open>HandleNewNode\<close> and the bootstrap run, \<open>Run\<close> sets up and cleans up, and the
  environment chooses the answers that will come and what others do to the store.
\<close>

inductive lives :: "('h, 'n) forest \<Rightarrow> ('h, 'n, 's) world \<Rightarrow> ('n, 'h, 's) worker \<Rightarrow> bool"
  for F :: "('h, 'n) forest" and W :: "('h, 'n, 's) world" where
  start: "lives F W (NewWorker transport faults s)"
| calls: "lives F W w \<Longrightarrow> step F W k w v \<Longrightarrow> lives F W v"
| announce: "lives F W w \<Longrightarrow> lives F W (snd (HandleNewNode F wake n w))"
| ingest: "lives F W w \<Longrightarrow> lives F W (snd (IngestNode F W n w))"
| bootstrap: "lives F W w \<Longrightarrow> lives F W (snd (BootstrapLocalStore F W k w))"
| subscribe: "lives F W w \<Longrightarrow> lives F W (subscribeStore W w)"
| close: "lives F W w \<Longrightarrow> lives F W (cleanup W w)"
| environment: "lives F W w \<Longrightarrow> lives F W (w\<lparr>theStore := s, wakes := wk, others := fs\<rparr>)"

lemma step_wf: "step F W k w v \<Longrightarrow> keeps_wf w v"
  by (erule step_relates [where R = keeps_wf])
    (auto intro: worker_wf.rel_ReadMessage wf_writeMessageAsync wf_Cancel)

lemma wf_Run_ends:
  "wf_worker (subscribeStore W w) = wf_worker w" "wf_worker (cleanup W w) = wf_worker w"
  by (simp_all add: subscribeStore_def cleanup_def split: prod.split)

lemma lives_wf: "lives F W w \<Longrightarrow> wf_worker w"
proof (induction rule: lives.induct)
  case (announce w wake n)
  with relatesD [OF requests_wf.rel_HandleNewNode, of w F wake n] show ?case by simp
next
  case (ingest w n)
  with relatesD [OF background_wf.rel_IngestNode, of w F W n] show ?case by simp
next
  case (bootstrap w k)
  with relatesD [OF background_wf.rel_BootstrapLocalStore, of w F W k] show ?case by simp
qed (auto simp: wf_NewWorker wf_Run_ends dest: step_wf)

lemma wf_session_good:
  "wf_worker w \<Longrightarrow> equals_ok F \<Longrightarrow> visit_ok (visitMap W) \<Longrightarrow>
   session_good F (visitMap W) (nextPtr w) (Communities w)"
  by (simp add: wf_worker_def session_good_def)



end
