(* ===== verification/Relay_System.thy ===== *)
theory Relay_System
  imports Startup Well_Formed
begin

text \<open>
  A whole relay: one message store, the set of recently added identifiers, and any number of
  workers on connections of their own.  Each part acts in turn; while a worker ingests or
  bootstraps, the others change the store before each of its operations in the ways that the
  program has.
\<close>

subsection \<open>Changes of the store\<close>

text \<open>
  Every way in which the program changes the store: insertions of nodes that are valid in it,
  the insertion of a community by the bootstrap, which does not validate it, and subscriptions.
\<close>

definition store_changes :: "('h, 'n) forest \<Rightarrow> ('h, 'n, 's) world \<Rightarrow> ('s \<Rightarrow> 's) set" where
  "store_changes F W =
     (\<Union>n sub. {\<lambda>s. if ValidateDeep W n s = Inr () then snd (AddAs W n sub s) else s})
   \<union> {f. \<exists>n a sub. nodeKind F n = CommunityNode a \<and> f = (\<lambda>s. snd (AddAs W n sub s))}
   \<union> {\<lambda>s. snd (SubscribeToNewMessages W s)} \<union> range (UnsubscribeToNewMessages W)"

lemma store_changesI [intro]:
  "(\<lambda>s. if ValidateDeep W n s = Inr () then snd (AddAs W n sub s) else s) \<in> store_changes F W"
  "nodeKind F n = CommunityNode a \<Longrightarrow> (\<lambda>s. snd (AddAs W n sub s)) \<in> store_changes F W"
  "(\<lambda>s. snd (SubscribeToNewMessages W s)) \<in> store_changes F W"
  "UnsubscribeToNewMessages W k \<in> store_changes F W"
  unfolding store_changes_def by blast+

definition keeps_inv :: "('s \<Rightarrow> bool) \<Rightarrow> ('s \<Rightarrow> 's) set \<Rightarrow> bool" where
  "keeps_inv Inv E \<longleftrightarrow> (\<forall>f\<in>E. \<forall>s. Inv s \<longrightarrow> Inv (f s))"

lemma keeps_invD: "keeps_inv Inv E \<Longrightarrow> f \<in> E \<Longrightarrow> Inv s \<Longrightarrow> Inv (f s)"
  by (simp add: keeps_inv_def)

lemma inv_insert:
  assumes "keeps_inv Inv (store_changes F W)" and "Inv s" and "ValidateDeep W n s = Inr ()"
  shows "Inv (snd (AddAs W n sub s))"
  using keeps_invD [OF assms(1) store_changesI(1) [of W n sub] assms(2)] assms(3) by simp

lemma inv_steps:
  assumes "keeps_inv Inv (store_changes F W)"
  shows "(store_step W (store_changes F W) sub)\<^sup>*\<^sup>* s s' \<Longrightarrow> Inv s \<Longrightarrow> Inv s'"
proof (induction rule: rtranclp_induct)
  case (step t u)
  then show ?case
    using inv_insert [OF assms] keeps_invD [OF assms] by (auto simp: store_step_def)
qed

subsection \<open>The bootstrap\<close>

lemma grows_attempt:
  "relates (grows W E) m \<Longrightarrow> (\<And>a. relates (grows W E) (f a)) \<Longrightarrow> relates (grows W E) (attempt m f)"
  unfolding relates_def attempt_def
  by (auto split: prod.split res.split) (metis growth.R_trans snd_conv)+

lemma grows_add_community:
  fixes W :: "('h, 'n, 's) world"
  assumes "nodeKind F n = CommunityNode a"
  shows "relates (grows W (store_changes F W)) (addAs W n)"
proof (rule relatesI)
  fix w :: "('n, 'h, 's) worker"
  let ?i = "snd (interfere w)" and ?E = "store_changes F W"
  have i: "grows W ?E w ?i" using relatesD [OF grows_interfere] .
  have "store_step W ?E (subscriptionID w) (theStore ?i) (theStore (snd (addAs W n w)))"
    unfolding addAs_store store_step_def
    by (rule disjI2, rule bexI [OF _ store_changesI(2) [OF assms]]) simp
  then show "grows W ?E w (snd (addAs W n w))"
    using i by (auto simp: grows_def addAs_store intro: rtranclp.rtrancl_into_rtrancl)
qed

lemma grows_bootstrap: "relates (grows W (store_changes F W)) (BootstrapLocalStore F W k)"
proof -
  have fresh: "relates (grows W E) (subscribeFresh h)" for E h
    by (rule relatesI) (simp add: subscribeFresh_def grows_def)
  have one: "relates (grows W (store_changes F W)) (bootstrapCommunity F W k n)" for n
    unfolding bootstrapCommunity_def
    by (auto intro!: grows_attempt grows_ensureAuthor grows_add_community growth.rel_rules grows_quiet fresh
        grows_synchronizeFullTree split: node_kind.split)
  have "relates (grows W (store_changes F W)) (bootstrapCommunities F W k ns)" for ns
    by (induction ns) (auto intro: growth.rel_rules one)
  then show ?thesis unfolding BootstrapLocalStore_def by (intro grows_attempt grows_quiet)
qed

subsection \<open>What a worker does\<close>

text \<open>
  The calls on one worker, as functions of its state.  The answers \<open>wk\<close> that will come and the
  changes \<open>fs\<close> that others will make are chosen when an ingestion or a bootstrap starts.
\<close>

inductive peer_op :: "('h, 'n) forest \<Rightarrow> ('h, 'n, 's) world \<Rightarrow> (('n, 'h, 's) worker \<Rightarrow> ('n, 'h, 's) worker) \<Rightarrow> bool"
  for F :: "('h, 'n) forest" and W :: "('h, 'n, 's) world" where
  arrive: "peer_op F W (\<lambda>w. w\<lparr>BufferedConn := BufferedConn w @ rs\<rparr>)"
| read: "peer_op F W (\<lambda>w. snd (ReadMessage F (workerHooks F W) w))"
| send: "peer_op F W (\<lambda>w. snd (sendAsync F r w))"
| cancel: "peer_op F W (\<lambda>w. snd (Cancel i w))"
| announce: "peer_op F W (\<lambda>w. snd (HandleNewNode F wake n w))"
| ingest: "set fs \<subseteq> store_changes F W \<Longrightarrow>
    peer_op F W (\<lambda>w. snd (IngestNode F W n (w\<lparr>wakes := wk, others := fs\<rparr>)))"
| bootstrap: "set fs \<subseteq> store_changes F W \<Longrightarrow>
    peer_op F W (\<lambda>w. snd (BootstrapLocalStore F W k (w\<lparr>wakes := wk, others := fs\<rparr>)))"
| close: "peer_op F W (cleanup W)"

lemma same_db_sendAsync: "same_db w (snd (sendAsync F r w))"
proof -
  obtain verb format args where "sendAsync F r w = writeMessageAsync verb format args w"
    using sendAsync_writes by blast
  then show ?thesis using relatesD [OF db.R_request, where s = w] by simp
qed

lemma inv_grown:
  assumes "keeps_inv Inv (store_changes F W)" and "rely_ok W (store_changes F W)"
    and "relates (grows W (store_changes F W)) m" and "set fs \<subseteq> store_changes F W" and "Inv (theStore w)"
  shows "Inv (theStore (snd (m (w\<lparr>wakes := wk, others := fs\<rparr>))))"
  using relatesD [OF assms(3), of "w\<lparr>wakes := wk, others := fs\<rparr>"] assms(2,4,5) inv_steps [OF assms(1)]
  by (auto simp: grows_def relied_def)

lemma peer_op_inv:
  assumes "peer_op F W f" and "keeps_inv Inv (store_changes F W)" and "rely_ok W (store_changes F W)"
    and "Inv (theStore w)"
  shows "Inv (theStore (f w))"
  using assms(1)
proof cases
  case read
  have "relates same_store (ReadMessage F (workerHooks F W))" by (rule worker_store.rel_ReadMessage)
  from relatesD [OF this, of w] read assms(4) show ?thesis by simp
next
  case (send r)
  then show ?thesis using same_db_sendAsync [where w = w and F = F and r = r] assms(4) by simp
next
  case (announce wake n)
  then show ?thesis using relatesD [OF db.rel_HandleNewNode [where F = F and wake = wake and n = n], of w] assms(4) by simp
next
  case (ingest fs n wk)
  then show ?thesis using inv_grown [OF assms(2,3) grows_IngestNode _ assms(4)] by simp
next
  case (bootstrap fs k wk)
  then show ?thesis using inv_grown [OF assms(2,3) grows_bootstrap _ assms(4)] by simp
next
  case close
  then show ?thesis using keeps_invD [OF assms(2) store_changesI(4) assms(4)] by (simp add: cleanup_def)
qed (use assms(4) in \<open>simp_all add: Cancel_def\<close>)

lemma wf_environment [simp]:
  fixes w :: "('n, 'h, 's) worker"
  shows "wf_worker (w\<lparr>wakes := wk, others := fs\<rparr>) = wf_worker w"
  by (simp add: wf_worker_def pending_inv_def)

lemma peer_op_wf:
  assumes "peer_op F W f" and "wf_worker w"
  shows "wf_worker (f w)"
  using assms(1)
proof cases
  case read
  have "relates keeps_wf (ReadMessage F (workerHooks F W))" by (rule worker_wf.rel_ReadMessage)
  from relatesD [OF this, of w] read assms(2) show ?thesis by simp
next
  case (send r)
  then show ?thesis using step_wf [OF step.send [where F = F and w = w and r = r]] assms(2) by simp
next
  case (cancel i)
  then show ?thesis using relatesD [OF wf_Cancel [where i = i], of w] assms(2) by simp
next
  case (announce wake n)
  then show ?thesis using relatesD [OF requests_wf.rel_HandleNewNode [where F = F and wake = wake and n = n], of w] assms(2) by simp
next
  case (ingest fs n wk)
  then show ?thesis
    using relatesD [OF background_wf.rel_IngestNode [where F = F and W = W and n = n],
      of "w\<lparr>wakes := wk, others := fs\<rparr>"] assms(2) by simp
next
  case (bootstrap fs k wk)
  then show ?thesis
    using relatesD [OF background_wf.rel_BootstrapLocalStore [where F = F and W = W and k = k],
      of "w\<lparr>wakes := wk, others := fs\<rparr>"] assms(2) by simp
qed (use assms(2) in \<open>simp_all add: wf_Run_ends\<close>)

subsection \<open>The relay\<close>

record ('n, 'h, 's) relay_system =
  hub :: "'s relay"
  peers :: "('n, 'h, 's) worker list"

text \<open>One worker acts on the shared store.\<close>

definition at_peer :: "nat \<Rightarrow> (('n, 'h, 's) worker \<Rightarrow> ('n, 'h, 's) worker) \<Rightarrow> ('n, 'h, 's) relay_system
     \<Rightarrow> ('n, 'h, 's) relay_system" where
  "at_peer j f sys =
     (let w = f ((peers sys ! j)\<lparr>theStore := messages (hub sys)\<rparr>)
      in sys\<lparr>hub := (hub sys)\<lparr>messages := theStore w\<rparr>, peers := (peers sys)[j := w]\<rparr>)"

text \<open>
  The archive, as \<open>handleFile\<close> uses it: validation is the one of the workers, and \<open>Add\<close> is
  \<open>AddAs\<close> for some subscription.
\<close>

definition archive_of :: "('h, 'n, 's) world \<Rightarrow> ('n, 's) relay_world \<Rightarrow> bool" where
  "archive_of W P \<longleftrightarrow> validateFile P = ValidateDeep W
     \<and> (\<forall>n r. \<exists>sub. messages (snd (addMessage P n r)) = snd (AddAs W n sub (messages r)))"

text \<open>
  A connection, accepted or dialed, gets a worker that subscribes to the store; the callbacks of
  the store remember nodes; a file event is handled; or a worker acts.
\<close>

inductive relay_runs :: "('h, 'n) forest \<Rightarrow> ('h, 'n, 's) world \<Rightarrow> ('n, 's) relay_world \<Rightarrow> 's
     \<Rightarrow> ('n, 'h, 's) relay_system \<Rightarrow> bool"
  for F :: "('h, 'n) forest" and W :: "('h, 'n, 's) world" and P :: "('n, 's) relay_world" and s0 :: 's where
  start: "relay_runs F W P s0 \<lparr>hub = \<lparr>addedOurselves = NewExpiringSet, messages = s0\<rparr>, peers = []\<rparr>"
| connect: "relay_runs F W P s0 sys \<Longrightarrow> w = subscribeStore W (NewWorker transport faults (messages (hub sys))) \<Longrightarrow>
    relay_runs F W P s0 (sys\<lparr>hub := (hub sys)\<lparr>messages := theStore w\<rparr>, peers := peers sys @ [w]\<rparr>)"
| peer: "relay_runs F W P s0 sys \<Longrightarrow> j < length (peers sys) \<Longrightarrow> peer_op F W f \<Longrightarrow>
    relay_runs F W P s0 (at_peer j f sys)"
| remember: "relay_runs F W P s0 sys \<Longrightarrow> relay_runs F W P s0 (sys\<lparr>hub := rememberAdded F now now' n (hub sys)\<rparr>)"
| watched: "relay_runs F W P s0 sys \<Longrightarrow>
    relay_runs F W P s0 (sys\<lparr>hub := snd (handleFile F P now filename (hub sys))\<rparr>)"

lemma handleFile_cases:
  "messages (snd (handleFile F P now filename r)) = messages r
   \<or> (\<exists>n els. validateFile P n (messages r) = Inr ()
        \<and> messages (snd (handleFile F P now filename r)) = messages (snd (addMessage P n (r\<lparr>addedOurselves := els\<rparr>))))"
proof (cases "ReadFile P filename")
  case (Inr bytes)
  show ?thesis
  proof (cases "UnmarshalBinaryNode F bytes")
    case (Inr n)
    obtain ok els where has: "Has now (HashString F (ID F n)) (addedOurselves r) = (ok, els)"
      by (cases "Has now (HashString F (ID F n)) (addedOurselves r)")
    have step: "snd (handleFile F P now filename r) = (let r' = r\<lparr>addedOurselves := els\<rparr> in
        if ok \<or> isl (validateFile P n (messages r)) then r' else snd (addMessage P n r'))"
      using Inr has \<open>ReadFile P filename = Inr bytes\<close>
      by (simp add: handleFile_def Let_def split: prod.splits sum.splits)
    show ?thesis
    proof (cases "ok \<or> isl (validateFile P n (messages r))")
      case False
      then have "validateFile P n (messages r) = Inr ()" by (cases "validateFile P n (messages r)") auto
      with False step show ?thesis by (auto simp: Let_def)
    qed (use step in simp)
  qed (use Inr in \<open>simp add: handleFile_def\<close>)
qed (simp add: handleFile_def)

lemma handleFile_store:
  assumes "archive_of W P"
  shows "messages (snd (handleFile F P now filename r)) = messages r
    \<or> (\<exists>n sub. ValidateDeep W n (messages r) = Inr ()
         \<and> messages (snd (handleFile F P now filename r)) = snd (AddAs W n sub (messages r)))"
proof -
  have "\<exists>sub. messages (snd (addMessage P n (r\<lparr>addedOurselves := els\<rparr>))) = snd (AddAs W n sub (messages r))" for n els
  proof -
    have "\<exists>sub. messages (snd (addMessage P n q)) = snd (AddAs W n sub (messages q))" for q
      using assms unfolding archive_of_def by blast
    from this [of "r\<lparr>addedOurselves := els\<rparr>"] show ?thesis by simp
  qed
  moreover have "validateFile P = ValidateDeep W" using assms by (simp add: archive_of_def)
  ultimately show ?thesis using handleFile_cases [of F P now filename r] by metis
qed

lemma relay_runs_inv:
  assumes "relay_runs F W P s0 sys" and "keeps_inv Inv (store_changes F W)"
    and "rely_ok W (store_changes F W)" and "archive_of W P" and "Inv s0"
  shows "Inv (messages (hub sys)) \<and> list_all wf_worker (peers sys)"
  using assms(1)
proof (induction rule: relay_runs.induct)
  case start
  then show ?case using assms(5) by simp
next
  case (connect sys w transport faults)
  then show ?case
    using keeps_invD [OF assms(2) store_changesI(3), of "messages (hub sys)"]
    by (simp add: wf_Run_ends wf_NewWorker)
      (simp add: subscribeStore_def NewWorker_def conn.defs split: prod.splits)
next
  case (peer sys j f)
  let ?w = "(peers sys ! j)\<lparr>theStore := messages (hub sys)\<rparr>"
  have "wf_worker ?w" using peer by (simp add: list_all_length)
  then have "wf_worker (f ?w)" by (rule peer_op_wf [OF peer.hyps(3)])
  moreover have "Inv (theStore (f ?w))"
    by (rule peer_op_inv [OF peer.hyps(3) assms(2,3)]) (use peer.IH in simp)
  ultimately show ?case
    using peer.IH peer.hyps(2) by (auto simp: at_peer_def Let_def list_all_length nth_list_update)
next
  case (remember sys now now' n)
  then show ?case by (simp add: rememberAdded_def)
next
  case (watched sys now filename)
  then show ?case
    using handleFile_store [OF assms(4), of F now filename "hub sys"] inv_insert [OF assms(2)] by auto
qed


definition demo_archive :: "(demo_node, demo_node list) relay_world" where
  "demo_archive = \<lparr>ReadFile = (\<lambda>_. Inr ''n''), validateFile = ValidateDeep demo_world,
     addMessage = (\<lambda>n r. (Inr (), r\<lparr>messages := messages r @ [n]\<rparr>))\<rparr>"

text \<open>A relay that a peer connects to, whose worker then ingests a node from it.\<close>

definition demo_relay :: "(demo_node, nat, demo_node list) relay_system" where
  "demo_relay =
     (let w = subscribeStore demo_world (NewWorker [] [] demo_chain)
      in at_peer 0 (\<lambda>w. snd (IngestNode one_forest demo_world one_node (w\<lparr>wakes := [], others := [\<lambda>s. s]\<rparr>)))
           \<lparr>hub = \<lparr>addedOurselves = NewExpiringSet, messages = theStore w\<rparr>, peers = [w]\<rparr>)"


end
