(* ===== verification/Catch_Up.thy ===== *)
theory Catch_Up
  imports Ingest_Props
begin

text \<open>
  Catching up with an honest peer: a worker that is given a node whose ancestors it lacks asks
  the peer for its ancestry, and with the answer that the peer's worker gives, everything
  from the root down to the node gets into its store.
\<close>

subsection \<open>Laws of the store\<close>

text \<open>
  Documented behaviour of a store: lookups work and find a node under its own identifier;
  insertions succeed, the inserted node is there afterwards, and nothing is lost.
\<close>

definition keeps_store :: "('h, 'n, 's) world \<Rightarrow> 's \<Rightarrow> 's \<Rightarrow> bool" where
  "keeps_store W s s' \<longleftrightarrow>
     (\<forall>h. stored W s h \<noteq> None \<longrightarrow> stored W s' h \<noteq> None) \<and>
     (\<forall>h x. GetIdentity W s h = Inr (Some x) \<longrightarrow> (\<exists>y. GetIdentity W s' h = Inr (Some y)))"

definition store_ok :: "('h, 'n) forest \<Rightarrow> ('h, 'n, 's) world \<Rightarrow> bool" where
  "store_ok F W \<longleftrightarrow>
     (\<forall>s. get_works W s) \<and> (\<forall>s h n. stored W s h = Some n \<longrightarrow> ID F n = h) \<and>
     (\<forall>n sub s. fst (AddAs W n sub s) = Inr () \<and> stored W (snd (AddAs W n sub s)) (ID F n) \<noteq> None
        \<and> keeps_store W s (snd (AddAs W n sub s)))"

text \<open>
  Documented behaviour of \<open>ValidateDeep\<close> on a node that is what it claims to be: it accepts
  the node when its author is in the store, and its parent, if it has one.
\<close>

definition has_parent :: "('h, 'n) forest \<Rightarrow> ('h, 'n, 's) world \<Rightarrow> 's \<Rightarrow> 'n \<Rightarrow> bool" where
  "has_parent F W s n \<longleftrightarrow> Equals F (ParentID F n) (NullHash F) \<or> stored W s (ParentID F n) \<noteq> None"

definition genuine :: "('h, 'n) forest \<Rightarrow> ('h, 'n, 's) world \<Rightarrow> 'n \<Rightarrow> bool" where
  "genuine F W n \<longleftrightarrow> (\<forall>s. author_known F W s n \<and> has_parent F W s n \<longrightarrow> ValidateDeep W n s = Inr ())"

lemma keeps_store_refl [simp]: "keeps_store W s s"
  by (simp add: keeps_store_def)

lemma keeps_store_trans: "keeps_store W s t \<Longrightarrow> keeps_store W t u \<Longrightarrow> keeps_store W s u"
  unfolding keeps_store_def by meson

lemma keeps_author: "keeps_store W s t \<Longrightarrow> author_known F W s n \<Longrightarrow> author_known F W t n"
  unfolding author_known_def keeps_store_def by (auto split: node_kind.splits)

lemma addAs_ok:
  assumes "store_ok F W" and "others w = []"
  obtains s where "addAs W n w = (Ret (), w\<lparr>theStore := s\<rparr>)" "stored W s (ID F n) \<noteq> None" "keeps_store W (theStore w) s"
proof -
  let ?add = "AddAs W n (subscriptionID w) (theStore w)"
  have "fst ?add = Inr () \<and> stored W (snd ?add) (ID F n) \<noteq> None \<and> keeps_store W (theStore w) (snd ?add)"
    using assms(1) by (simp add: store_ok_def)
  then show thesis
    using assms(2) by (intro that [of "snd ?add"]) (simp_all add: addAs_run Let_def case_prod_beta)
qed

subsection \<open>From the root down\<close>

text \<open>Each node of the list is the parent of the next; \<open>par\<close> holds for the first one's parent.\<close>

fun downward :: "('h, 'n) forest \<Rightarrow> ('h \<Rightarrow> bool) \<Rightarrow> 'n list \<Rightarrow> bool" where
  "downward F par [] = True"
| "downward F par (a # as) = (par (ParentID F a) \<and> downward F (\<lambda>h. h = ID F a) as)"

lemma downward_append:
  "downward F par (as @ [b]) \<longleftrightarrow>
     downward F par as \<and> (if as = [] then par (ParentID F b) else ParentID F b = ID F (last as))"
  by (induction as arbitrary: par) auto

text \<open>The first node of a complete lineage has no parent.\<close>

lemma lineage_downward:
  assumes "store_ok F W"
  shows "lineage F W s n ps \<Longrightarrow> Equals F (ParentID F (last (n # ps))) (NullHash F) \<Longrightarrow>
    downward F (\<lambda>h. Equals F h (NullHash F)) (rev ps @ [n])"
proof (induction ps arbitrary: n)
  case Nil
  then show ?case by simp
next
  case (Cons p ps)
  then have "stored W s (ParentID F n) = Some p" by (simp add: is_parent_def)
  then have "ParentID F n = ID F p" using assms by (simp add: store_ok_def)
  with Cons show ?case by (simp add: downward_append [of F _ "rev ps @ [p]", simplified])
qed

lemma validateDeep_genuine:
  assumes "genuine F W a" and "others w = []" and "author_known F W (theStore w) a" and "has_parent F W (theStore w) a"
  shows "validateDeep W a w = (Ret (), w)"
  using assms by (auto simp: validateDeep_run genuine_def)

lemma ingestAncestors_downward:
  assumes "store_ok F W"
  shows "others w = [] \<Longrightarrow> downward F par as \<Longrightarrow>
    \<forall>h. par h \<longrightarrow> Equals F h (NullHash F) \<or> stored W (theStore w) h \<noteq> None \<Longrightarrow>
    \<forall>a\<in>set as. genuine F W a \<and> author_known F W (theStore w) a \<Longrightarrow>
    \<exists>s. ingestAncestors F W as w = (Ret (), w\<lparr>theStore := s\<rparr>) \<and> keeps_store W (theStore w) s
      \<and> (\<forall>a\<in>set as. stored W s (ID F a) \<noteq> None)"
proof (induction as arbitrary: w par)
  case Nil
  then show ?case by (intro exI [of _ "theStore w"]) simp
next
  case (Cons a as)
  have get: "readStore c (\<lambda>s. Get W s h) w = (Ret (stored W (theStore w) h), w)" for c h
    using assms Cons.prems(1) by (simp add: readStore_alone store_ok_def get_works_stored)
  obtain s where step: "ingestAncestors F W (a # as) w = ingestAncestors F W as (w\<lparr>theStore := s\<rparr>)"
      and s: "stored W s (ID F a) \<noteq> None" "keeps_store W (theStore w) s"
  proof (cases "stored W (theStore w) (ID F a)")
    case None
    obtain s where add: "addAs W a w = (Ret (), w\<lparr>theStore := s\<rparr>)" and "stored W s (ID F a) \<noteq> None"
        "keeps_store W (theStore w) s"
      using addAs_ok [OF assms Cons.prems(1)] by blast
    moreover have "validateDeep W a w = (Ret (), w)"
      using Cons.prems by (intro validateDeep_genuine [where F = F]) (auto simp: has_parent_def)
    moreover have "ensureAuthorAvailable F W a w = (Ret (), w)"
      using Cons.prems by (intro author_known_ensures) auto
    ultimately show thesis
      using get None by (intro that [of s]) (simp_all add: seqM_def onErr_def)
  next
    case (Some b)
    then show thesis using get by (intro that [of "theStore w"]) (simp_all add: seqM_def)
  qed
  let ?w = "w\<lparr>theStore := s\<rparr>"
  have "\<exists>t. ingestAncestors F W as ?w = (Ret (), ?w\<lparr>theStore := t\<rparr>) \<and> keeps_store W (theStore ?w) t
      \<and> (\<forall>b\<in>set as. stored W t (ID F b) \<noteq> None)"
    using Cons.prems s by (intro Cons.IH [where par = "\<lambda>h. h = ID F a"]) (auto intro: keeps_author)
  then obtain t where t: "ingestAncestors F W as ?w = (Ret (), ?w\<lparr>theStore := t\<rparr>)" "keeps_store W s t"
      "\<forall>b\<in>set as. stored W t (ID F b) \<noteq> None"
    by auto
  moreover have "stored W t (ID F a) \<noteq> None" using s(1) t(2) by (simp add: keeps_store_def)
  ultimately show ?case
    using step keeps_store_trans [OF s(2) t(2)] by (intro exI [of _ t]) simp
qed

subsection \<open>Complete ancestries\<close>

text \<open>
  Documented behaviour of the depth of stored nodes: that of a root is zero, that of any other
  node one more than that of its parent, which is stored too.
\<close>

definition depth_exact :: "('h, 'n) forest \<Rightarrow> ('h, 'n, 's) world \<Rightarrow> 's \<Rightarrow> bool" where
  "depth_exact F W s \<longleftrightarrow> (\<forall>h n. stored W s h = Some n \<longrightarrow>
     0 \<le> TreeDepth F n \<and> (TreeDepth F n = 0 \<longrightarrow> Equals F (ParentID F n) (NullHash F)) \<and>
     (\<not> Equals F (ParentID F n) (NullHash F) \<longrightarrow>
        (\<exists>p. stored W s (ParentID F n) = Some p \<and> TreeDepth F n = TreeDepth F p + 1)))"

lemma depth_exact_ok: "depth_exact F W s \<Longrightarrow> depth_ok F W s"
  unfolding depth_exact_def depth_ok_def is_parent_def by fastforce

lemma lineage_complete:
  assumes "depth_exact F W s"
  shows "stored W s h = Some n \<Longrightarrow> lineage F W s n ps \<Longrightarrow> length ps \<le> nat (TreeDepth F n) \<Longrightarrow>
    length ps < nat (TreeDepth F n) \<longrightarrow> (\<forall>p. \<not> is_parent F W s (last (n # ps)) p) \<Longrightarrow>
    Equals F (ParentID F (last (n # ps))) (NullHash F)"
proof (induction ps arbitrary: n h)
  case Nil
  show ?case
  proof (rule ccontr)
    assume no: "\<not> Equals F (ParentID F (last [n])) (NullHash F)"
    then have "0 < TreeDepth F n" "\<exists>p. is_parent F W s n p"
      using assms Nil.prems(1) unfolding depth_exact_def is_parent_def by force+
    with Nil.prems(4) show False by simp
  qed
next
  case (Cons p ps)
  then have p: "stored W s (ParentID F n) = Some p" "\<not> Equals F (ParentID F n) (NullHash F)"
      "lineage F W s p ps"
    by (simp_all add: is_parent_def)
  then have "TreeDepth F n = TreeDepth F p + 1" "0 \<le> TreeDepth F p"
    using assms Cons.prems(1) unfolding depth_exact_def by fastforce+
  with Cons.prems(3,4) Cons.IH [OF p(1,3)] show ?case by (simp add: nat_add_distrib)
qed

subsection \<open>One ancestry request\<close>

lemma OnAncestry_complete:
  assumes "writeFaults p = []" and "store_ok F W" and "sort_ok W" and "depth_exact F W (theStore p)"
    and n: "stored W (theStore p) (ID F n) = Some n"
  shows "\<exists>ps. OnAncestry F W i (ID F n) (TreeDepth F n) p =
      (Ret (), p\<lparr>written := written p @ render F (ResponseMsg i (rev ps))\<rparr>)
    \<and> lineage F W (theStore p) n ps \<and> Equals F (ParentID F (last (n # ps))) (NullHash F)"
proof -
  have works: "get_works W (theStore p)" using assms(2) by (simp add: store_ok_def)
  obtain ps where ps: "OnAncestry F W i (ID F n) (TreeDepth F n) p =
        (Ret (), p\<lparr>written := written p @ render F (ResponseMsg i (rev ps))\<rparr>)"
      "lineage F W (theStore p) n ps" "length ps \<le> nat (TreeDepth F n)"
      "length ps < nat (TreeDepth F n) \<longrightarrow> (\<forall>q. \<not> is_parent F W (theStore p) (last (n # ps)) q)"
    using OnAncestry_run [OF assms(1) works assms(3) n depth_exact_ok [OF assms(4)]] by blast
  with lineage_complete [OF assms(4) n ps(2-4)] show ?thesis by blast
qed

lemma IngestNode_with_ancestry:
  assumes "writeFaults w = []" and "others w = []" and "store_ok F W"
    and "ValidateDeep W n (theStore w) = Inl e"
    and "downward F (\<lambda>h. Equals F h (NullHash F)) (as @ [n])"
    and all: "\<forall>m\<in>set (as @ [n]). genuine F W m \<and> author_known F W (theStore w) m"
  shows "\<exists>v. IngestNode F W n (w\<lparr>wakes := [Received (ResponseReply as)]\<rparr>) = (Ret (), v)
    \<and> written v = written w @ render F (AncestryMsg (nextMessageID w) (ID F n) (TreeDepth F n))
    \<and> (\<forall>m\<in>set (as @ [n]). stored W (theStore v) (ID F m) \<noteq> None) \<and> keeps_store W (theStore w) (theStore v)"
proof -
  let ?w = "w\<lparr>wakes := [Received (ResponseReply as)]\<rparr>"
  let ?t = "requested (render F (AncestryMsg (nextMessageID w) (ID F n) (TreeDepth F n))) (w\<lparr>wakes := []\<rparr>)"
  have t: "theStore ?t = theStore w" "others ?t = []" "subscriptionID ?t = subscriptionID w"
      "written ?t = written w @ render F (AncestryMsg (nextMessageID w) (ID F n) (TreeDepth F n))"
    using assms(2) by (simp_all add: requested_def del: render.simps)
  have author: "ensureAuthorAvailable F W n ?w = (Ret (), ?w)"
    using all assms(2) by (intro author_known_ensures) auto
  have invalid: "validateDeep W n ?w = (Fail (External e), ?w)"
    using assms(2,4) by (simp add: validateDeep_run)
  have await: "awaiting (SendAncestry F (ID F n) (TreeDepth F n)) ?w = (Ret as, ?t)"
    using assms(1) by (simp add: awaiting_def nextWake_def seqM_def SendAncestry_def Send_requested ticket_def
        handleExpectedResponse_def del: render.simps)
  have down: "downward F (\<lambda>h. Equals F h (NullHash F)) as"
    and last: "if as = [] then Equals F (ParentID F n) (NullHash F) else ParentID F n = ID F (last as)"
    using assms(5) by (simp_all add: downward_append)
  obtain s where s: "ingestAncestors F W as ?t = (Ret (), ?t\<lparr>theStore := s\<rparr>)" "keeps_store W (theStore w) s"
      "\<forall>a\<in>set as. stored W s (ID F a) \<noteq> None"
    using ingestAncestors_downward [OF assms(3) t(2) down] all t(1) by auto
  let ?u = "?t\<lparr>theStore := s\<rparr>"
  have "has_parent F W s n"
    using last s(3) by (cases "as = []") (auto simp: has_parent_def)
  then have valid: "validateDeep W n ?u = (Ret (), ?u)"
    using all t(2) keeps_author [OF s(2), of F n] by (intro validateDeep_genuine [where F = F]) auto
  obtain s' where s': "addAs W n ?u = (Ret (), ?u\<lparr>theStore := s'\<rparr>)" "stored W s' (ID F n) \<noteq> None" "keeps_store W s s'"
    using addAs_ok [OF assms(3), of ?u n] t(2) by auto
  have "IngestNode F W n ?w = (Ret (), ?u\<lparr>theStore := s'\<rparr>)"
    using author invalid await s(1) valid s'(1)
    by (simp add: IngestNode_def validateWithAncestry_def seqM_def errorOf_def onErr_def del: render.simps)
  moreover have "\<forall>m\<in>set (as @ [n]). stored W s' (ID F m) \<noteq> None"
    using s(3) s'(2,3) by (auto simp: keeps_store_def)
  ultimately show ?thesis
    using t(4) keeps_store_trans [OF s(2) s'(3)] by (intro exI [of _ "?u\<lparr>theStore := s'\<rparr>"]) simp
qed


text \<open>A concrete world, used by the witness: a node is valid when its parent is in the store.\<close>

definition strict_world :: "(nat, demo_node, demo_node list) world" where
  "strict_world = demo_world\<lparr>ValidateDeep := \<lambda>m s.
     if demo_parent m = 0 \<or> list_ex (\<lambda>x. demo_id x = demo_parent m) s then Inr () else Inl ''no parent''\<rparr>"

lemma strict_stored [simp]: "stored strict_world s h = find (\<lambda>n. demo_id n = h) s"
  by (simp add: strict_world_def stored_def demo_world_def)

lemma find_None: "find P xs \<noteq> None \<longleftrightarrow> list_ex P xs"
  by (induction xs) auto

lemma find_append_Some: "find P xs = Some x \<Longrightarrow> find P (xs @ ys) = Some x"
  by (induction xs) (auto split: if_splits)

lemma strict_world_simps [simp]:
  "GetIdentity strict_world s h = Inr (find (\<lambda>n. demo_id n = h) s)"
  "AddAs strict_world n sub s = (Inr (), s @ [n])" "get_works strict_world s" "sort_ok strict_world"
  by (simp_all add: strict_world_def demo_world_def get_works_def sort_ok_def)

lemma strict_store_ok: "store_ok one_forest strict_world"
  unfolding store_ok_def
proof (intro conjI allI impI)
  fix s h n
  assume "stored strict_world s h = Some n"
  then show "ID one_forest n = h" by (auto simp: find_Some_iff one_forest_def demo_forest_def)
next
  fix n sub s
  have "find (\<lambda>x. demo_id x = demo_id n) (s @ [n]) \<noteq> None"
    by (simp add: find_None del: not_None_eq)
  then show "stored strict_world (snd (AddAs strict_world n sub s)) (ID one_forest n) \<noteq> None"
    by (simp add: one_forest_def demo_forest_def)
  show "keeps_store strict_world s (snd (AddAs strict_world n sub s))"
    by (auto simp: keeps_store_def intro: find_append_Some)
qed simp_all

lemma strict_genuine: "genuine one_forest strict_world n"
  by (auto simp: genuine_def has_parent_def find_None one_forest_def demo_forest_def simp del: not_None_eq)
    (auto simp: strict_world_def)

lemma strict_depth: "depth_exact one_forest strict_world demo_chain"
  by (auto simp: depth_exact_def demo_chain_def one_forest_def demo_forest_def split: if_splits)

lemma lineage_stored: "lineage F W s n ps \<Longrightarrow> m \<in> set ps \<Longrightarrow> \<exists>h. stored W s h = Some m"
  by (induction ps arbitrary: n) (auto simp: is_parent_def)


end
