(* ===== verification/Service.thy ===== *)
theory Service
  imports Well_Formed
begin

text \<open>
  What a worker promises its peer, without the connection: a service whose state is the content
  of the node store, the communities of the peer and the nodes whose ingestion was started.
  The read loop of a worker implements it.
\<close>

subsection \<open>The service\<close>

record ('n, 'h, 's) service =
  content :: 's
  subscriptions :: "'h multiset"
  started :: "'n list"

definition reported_absent :: "('h, 'n) forest \<Rightarrow> ('h, 'n, 's) world \<Rightarrow> 's \<Rightarrow> 'n \<Rightarrow> bool" where
  "reported_absent F W s n \<longleftrightarrow> IsExpired W n = Inr False \<and> Get W s (ID F n) = Inr None"

text \<open>Announced nodes that are fetched, and those of a kind the program does not know.\<close>

definition welcomed :: "('h, 'n) forest \<Rightarrow> ('h, 'n, 's) world \<Rightarrow> ('n, 'h, 's) service \<Rightarrow> 'n \<Rightarrow> bool" where
  "welcomed F W a n \<longleftrightarrow> reported_absent F W (content a) n \<and>
     (case nodeKind F n of
        IdentityNode \<Rightarrow> True
      | CommunityNode _ \<Rightarrow> True
      | ReplyNode _ community \<Rightarrow> community \<in># subscriptions a
      | OtherNode \<Rightarrow> False)"

definition alien :: "('h, 'n) forest \<Rightarrow> ('h, 'n, 's) world \<Rightarrow> ('n, 'h, 's) service \<Rightarrow> 'n \<Rightarrow> bool" where
  "alien F W a n \<longleftrightarrow> reported_absent F W (content a) n \<and> nodeKind F n = OtherNode"

text \<open>
  The chain of stored ancestors, nearest first, at most \<open>levels\<close> long and not cut short without
  need; the newest of the stored descendants, oldest first.
\<close>

definition ancestry :: "('h, 'n) forest \<Rightarrow> ('h, 'n, 's) world \<Rightarrow> 's \<Rightarrow> 'n \<Rightarrow> int \<Rightarrow> 'n list \<Rightarrow> bool" where
  "ancestry F W s n levels ps \<longleftrightarrow>
     lineage F W s n ps \<and> length ps \<le> nat levels
   \<and> (length ps < nat levels \<longrightarrow> (\<forall>p. \<not> is_parent F W s (last (n # ps)) p))"

definition newest_of :: "('h, 'n) forest \<Rightarrow> ('h, 'n, 's) world \<Rightarrow> 's \<Rightarrow> 'h list \<Rightarrow> int \<Rightarrow> 'n list \<Rightarrow> bool" where
  "newest_of F W s ids q newest \<longleftrightarrow>
     (\<exists>older. mset (older @ newest) = mset (List.map_filter (stored W s) ids)
        \<and> sorted (map (CreatedAt F) (older @ newest))
        \<and> length newest = min (nat q) (length (older @ newest)))"

text \<open>The answer to a request; \<open>None\<close> is an error instead of an answer.\<close>

fun answers :: "('h, 'n) forest \<Rightarrow> ('h, 'n, 's) world \<Rightarrow> ('n, 'h, 's) service \<Rightarrow> ('h, 'n) message
     \<Rightarrow> ('h, 'n) message option \<Rightarrow> bool" where
  "answers F W a (VersionMsg i major minor) r \<longleftrightarrow> r = Some (StatusMsg i (version_verdict major))"
| "answers F W a (ListMsg i t q) r \<longleftrightarrow>
     r = (case Recent W (content a) t q of Inl _ \<Rightarrow> None | Inr ns \<Rightarrow> Some (ResponseMsg i ns))"
| "answers F W a (QueryMsg i hs) r \<longleftrightarrow> r = Some (ResponseMsg i (List.map_filter (stored W (content a)) hs))"
| "answers F W a (AncestryMsg i h l) r \<longleftrightarrow>
     (case stored W (content a) h of
        None \<Rightarrow> r = None
      | Some n \<Rightarrow> \<exists>ps. r = Some (ResponseMsg i (rev ps)) \<and> ancestry F W (content a) n l ps)"
| "answers F W a (LeavesOfMsg i h q) r \<longleftrightarrow>
     (case DescendantsOf W (content a) h of
        Inl _ \<Rightarrow> r = None
      | Inr ids \<Rightarrow> if q < 0 then r = None
                   else \<exists>ns. r = Some (ResponseMsg i ns) \<and> newest_of F W (content a) ids q ns)"
| "answers F W a (SubscribeMsg i h) r \<longleftrightarrow> r = Some (StatusMsg i StatusOk)"
| "answers F W a (UnsubscribeMsg i h) r \<longleftrightarrow> r = Some (StatusMsg i StatusOk)"
| "answers F W a (AnnounceMsg i ns) r \<longleftrightarrow>
     r = Some (StatusMsg i (if list_ex (alien F W a) ns then ErrorUnknownNode else StatusOk))"
| "answers F W a _ r \<longleftrightarrow> r = None"

fun effect :: "('h, 'n) forest \<Rightarrow> ('h, 'n, 's) world \<Rightarrow> ('h, 'n) message \<Rightarrow> ('n, 'h, 's) service
     \<Rightarrow> ('n, 'h, 's) service" where
  "effect F W (SubscribeMsg i h) a = a\<lparr>subscriptions := add_mset h (subscriptions a)\<rparr>"
| "effect F W (UnsubscribeMsg i h) a = a\<lparr>subscriptions := subscriptions a - {#h#}\<rparr>"
| "effect F W (AnnounceMsg i ns) a =
     a\<lparr>started := started a @ filter (welcomed F W a) (takeWhile (\<lambda>n. \<not> alien F W a n) ns)\<rparr>"
| "effect F W _ a = a"

text \<open>A run of the service on a list of requests ends at the first one that has no answer.\<close>

inductive serves :: "('h, 'n) forest \<Rightarrow> ('h, 'n, 's) world \<Rightarrow> ('n, 'h, 's) service \<Rightarrow> ('h, 'n) message list
     \<Rightarrow> ('h, 'n) message list \<Rightarrow> ('n, 'h, 's) service \<Rightarrow> bool"
  for F :: "('h, 'n) forest" and W :: "('h, 'n, 's) world" where
  idle: "serves F W a [] [] a"
| answer: "answers F W a m (Some r) \<Longrightarrow> serves F W (effect F W m a) ms rs b \<Longrightarrow> serves F W a (m # ms) (r # rs) b"
| refuse: "answers F W a m None \<Longrightarrow> serves F W a (m # ms) [] (effect F W m a)"

inductive_simps serves_simps:
  "serves F W a [] rs b"
  "serves F W a (m # ms) rs b"

subsection \<open>The worker as a service\<close>

definition abs_worker :: "('n, 'h, 's) worker \<Rightarrow> ('n, 'h, 's) service" where
  "abs_worker w =
     \<lparr>content = theStore w, subscriptions = session_bag (Communities w), started = spawned w\<rparr>"

lemma abs_worker_simps [simp]:
  fixes w :: "('n, 'h, 's) worker"
  shows "abs_worker (w\<lparr>BufferedConn := rs\<rparr>) = abs_worker w"
    and "abs_worker (w\<lparr>written := bs\<rparr>) = abs_worker w"
    and "content (abs_worker w) = theStore w"
    and "subscriptions (abs_worker w) = session_bag (Communities w)"
    and "started (abs_worker w) = spawned w"
  by (simp_all add: abs_worker_def)

text \<open>What the worker needs of its environment, and of its own session.\<close>

definition honest :: "('h, 'n) forest \<Rightarrow> ('h, 'n, 's) world \<Rightarrow> 's \<Rightarrow> bool" where
  "honest F W s \<longleftrightarrow> get_works W s \<and> sort_ok W \<and> depth_ok F W s
     \<and> (\<forall>h ids. DescendantsOf W s h = Inr ids \<longrightarrow> int64 (int (length ids)))"

abbreviation ready :: "('h, 'n) forest \<Rightarrow> ('h, 'n, 's) world \<Rightarrow> ('n, 'h, 's) worker \<Rightarrow> bool" where
  "ready F W w \<equiv> writeFaults w = [] \<and> honest F W (theStore w)
     \<and> equals_ok F \<and> visit_ok (visitMap W) \<and> wf_worker w"
subsection \<open>One request\<close>

lemma welcomed_judge: "equals_ok F \<Longrightarrow> judge F W w n = Ingest \<longleftrightarrow> welcomed F W (abs_worker w) n"
  by (auto simp: judge_Ingest wanted_def new_here_def welcomed_def reported_absent_def IsSubscribed_bag
      split: node_kind.splits)

lemma alien_judge: "judge F W w n = Unknown \<longleftrightarrow> alien F W (abs_worker w) n"
  by (simp add: judge_Unknown objectionable_def new_here_def alien_def reported_absent_def)

text \<open>The result of a call and the state it leaves are what the service allows.\<close>

definition meets :: "('h, 'n) forest \<Rightarrow> ('h, 'n, 's) world \<Rightarrow> ('h, 'n) message \<Rightarrow> ('n, 'h, 's) worker
     \<Rightarrow> unit res \<times> ('n, 'h, 's) worker \<Rightarrow> bool" where
  "meets F W m w out \<longleftrightarrow>
     (\<exists>r. answers F W (abs_worker w) m r \<and> (fst out = Ret () \<longleftrightarrow> r \<noteq> None)
        \<and> written (snd out) = written w @ (case r of None \<Rightarrow> [] | Some x \<Rightarrow> render F x)
        \<and> abs_worker (snd out) = effect F W m (abs_worker w))"

lemma meets_answer:
  assumes "answers F W (abs_worker w) m (Some x)" and "f w = (Ret (), v\<lparr>written := written w @ render F x\<rparr>)"
    and "abs_worker v = effect F W m (abs_worker w)"
  shows "meets F W m w (f w)"
  using assms unfolding meets_def by (intro exI [of _ "Some x"]) (simp del: render.simps)

lemma meets_refuse:
  assumes "answers F W (abs_worker w) m None" and "f w = (r, w)" and "r \<noteq> Ret ()"
    and "effect F W m (abs_worker w) = abs_worker w"
  shows "meets F W m w (f w)"
  using assms unfolding meets_def by (intro exI [of _ None]) simp

lemma meets_onErr: "meets F W m w (onErr c f w) = meets F W m w (f w)"
  by (auto simp: meets_def onErr_def split: prod.split res.split)

lemma meets_hooks:
  assumes "ready F W w"
  shows "meets F W (VersionMsg i a b) w (OnVersion i a b w)"
    and "meets F W (ListMsg i t q) w (OnList F W i t q w)"
    and "meets F W (QueryMsg i hs) w (OnQuery F W i hs w)"
    and "meets F W (SubscribeMsg i h) w (OnSubscribe i h w)"
    and "meets F W (UnsubscribeMsg i h) w (OnUnsubscribe F W i h w)"
    and "meets F W (AnnounceMsg i ns) w (OnAnnounce F W i ns w)"
proof -
  have w: "writeFaults w = []" "get_works W (theStore w)" and good: "session_good F (visitMap W) (nextPtr w) (Communities w)"
    using assms by (simp_all add: honest_def wf_session_good)
  show "meets F W (VersionMsg i a b) w (OnVersion i a b w)"
    by (rule meets_answer [where v = w]) (simp_all add: OnVersion_run [OF w(1), of _ _ _ F] del: render.simps)
  show "meets F W (ListMsg i t q) w (OnList F W i t q w)"
  proof (cases "Recent W (theStore w) t q")
    case (Inl e)
    then have "OnList F W i t q w = (Fail (Wrapped (InHandler ListingRecent) (External e)), w)"
      by (simp add: OnList_def seqM_def)
    with Inl show ?thesis by (intro meets_refuse [where r = "Fail _"]) simp_all
  next
    case (Inr ns)
    then show ?thesis
      by (intro meets_answer [where v = w]) (simp_all add: OnList_def seqM_def SendResponse_ok [OF w(1)] del: render.simps)
  qed
  show "meets F W (QueryMsg i hs) w (OnQuery F W i hs w)"
    by (rule meets_answer [where v = w])
      (simp_all add: OnQuery_def seqM_def getPresent_ok [OF w(2)] SendResponse_ok [OF w(1)] del: render.simps)
  have fresh: "session_fresh (nextPtr w) (Communities w)" using good by (simp add: session_good_def)
  show "meets F W (SubscribeMsg i h) w (OnSubscribe i h w)"
    using w fresh
    by (intro meets_answer [where v = "snd (subscribeFresh h w)"])
      (simp_all add: OnSubscribe_def subscribeFresh_def seqM_def onErr_def SendStatus_ok [of _ _ _ F]
        session.bag_sub [OF good] abs_worker_def del: render.simps)
  show "meets F W (UnsubscribeMsg i h) w (OnUnsubscribe F W i h w)"
    using w
    by (intro meets_answer [where v = "snd (unsubscribeCommunity F W h w)"])
      (simp_all add: OnUnsubscribe_def unsubscribeCommunity_def seqM_def onErr_def SendStatus_ok [of _ _ _ F]
        session.bag_unsub [OF good] abs_worker_def del: render.simps)
  have "equals_ok F" using good by (simp add: session_good_def)
  then show "meets F W (AnnounceMsg i ns) w (OnAnnounce F W i ns w)"
    by (intro meets_answer [where v = "w\<lparr>spawned := spawned w @ filter (\<lambda>n. judge F W w n = Ingest)
          (takeWhile (\<lambda>n. judge F W w n \<noteq> Unknown) ns)\<rparr>"])
      (simp_all add: OnAnnounce_run [OF w(1)] welcomed_judge alien_judge abs_worker_def del: render.simps)
qed

lemma meets_OnAncestry:
  assumes "ready F W w"
  shows "meets F W (AncestryMsg i h l) w (OnAncestry F W i h l w)"
proof (cases "stored W (theStore w) h")
  case None
  then have "OnAncestry F W i h l w = (Fail AncestryOfUnknown, w)"
    using assms by (simp add: OnAncestry_def seqM_def get_works_stored honest_def)
  with None show ?thesis by (intro meets_refuse [where r = "Fail _"]) simp_all
next
  case (Some n)
  have "writeFaults w = []" "get_works W (theStore w)" "sort_ok W" "depth_ok F W (theStore w)"
    using assms by (simp_all add: honest_def)
  from OnAncestry_run [OF this(1-3) Some this(4)] obtain ps where
      "OnAncestry F W i h l w = (Ret (), w\<lparr>written := written w @ render F (ResponseMsg i (rev ps))\<rparr>)"
      "ancestry F W (theStore w) n l ps"
    unfolding ancestry_def by blast
  with Some show ?thesis
    by (intro meets_answer [where v = w and x = "ResponseMsg i (rev ps)"]) (auto simp del: render.simps)
qed

lemma meets_OnLeavesOf:
  assumes "ready F W w" and "int64 q"
  shows "meets F W (LeavesOfMsg i h q) w (OnLeavesOf F W i h q w)"
proof (cases "DescendantsOf W (theStore w) h")
  case (Inl e)
  then have "OnLeavesOf F W i h q w = (Fail (Wrapped (InHandler FindingDescendants) (External e)), w)"
    by (simp add: OnLeavesOf_def seqM_def)
  with Inl show ?thesis by (intro meets_refuse [where r = "Fail _"]) simp_all
next
  case (Inr ids)
  have w: "writeFaults w = []" "get_works W (theStore w)" "sort_ok W" and "knows_descendants W (theStore w) h ids"
    using assms(1) Inr by (auto simp: honest_def knows_descendants_def)
  show ?thesis
  proof (cases "q < 0")
    case True
    have "OnLeavesOf F W i h q w = (Panic SliceBounds, w)" by (rule OnLeavesOf_negative) fact+
    with Inr True show ?thesis by (intro meets_refuse [where r = "Panic _"]) simp_all
  next
    case False
    then have "0 \<le> q" by simp
    from OnLeavesOf_run [OF w \<open>knows_descendants W (theStore w) h ids\<close> this] obtain newest where
        "OnLeavesOf F W i h q w = (Ret (), w\<lparr>written := written w @ render F (ResponseMsg i newest)\<rparr>)"
        "newest_of F W (theStore w) ids q newest"
      unfolding newest_of_def by blast
    with Inr False show ?thesis
      by (intro meets_answer [where v = w and x = "ResponseMsg i newest"]) (auto simp del: render.simps)
  qed
qed

lemma meets_dispatch:
  assumes "ready F W w" and "message_ok F m" and "request_id m = Some i"
  shows "meets F W m w (dispatch (workerHooks F W) m w)"
  using assms
  by (cases m) (simp_all add: workerHooks_def runHook_def meets_onErr meets_hooks meets_OnAncestry meets_OnLeavesOf)

subsection \<open>Requests in a row\<close>

lemma serve_one:
  assumes "ready F W w" and "message_ok F m" and "request_id m = Some i"
    and read: "ReadMessage F (workerHooks F W) (w\<lparr>BufferedConn := runes (render F m) @ rest\<rparr>) = (r, v)"
  shows "meets F W m w (r, v)" and "ready F W v"
proof -
  let ?w = "w\<lparr>BufferedConn := rest\<rparr>"
  have v: "dispatch (workerHooks F W) m ?w = (r, v)"
    using read by (simp add: ReadMessage_dispatch [OF assms(2)])
  have w: "ready F W ?w" using assms(1) by simp
  from meets_dispatch [OF this assms(2,3)] v show "meets F W m w (r, v)"
    by (simp add: meets_def)
  have "relates keeps_wf (dispatch (workerHooks F W) m)"
    by (rule rel_dispatch [OF _ assms(3)], rule handlers_wf.rel_workerHooks, unfold_locales)
  from relatesD [OF this, of ?w] v assms(1) have "wf_worker v" by simp
  moreover have "theStore v = theStore w"
    using relatesD [OF rel_dispatch_worker(2) [where F = F and W = W, OF assms(3)], of ?w] v by simp
  moreover have "writeFaults v = []"
    using serve_request(2) [OF _ assms(2,3) read] assms(1) by simp
  ultimately show "ready F W v" using assms(1) by simp
qed


lemma demo_honest: "honest one_forest demo_world demo_chain"
  by (auto simp: honest_def demo_chain_depth) (simp add: demo_world_def demo_chain_def int64_def)


end
