(* ===== verification/Requests.thy ===== *)
theory Requests
  imports Reach
begin

text \<open>
  The synchronous operations of a connection, all of them at once: how each ends, by the case
  of its \<open>select\<close> statement, and when its message cannot be written.
\<close>

fun request_verb :: "('h, 'n) request \<Rightarrow> string" where
  "request_verb RVersion = VersionVerb"
| "request_verb (RList t q) = ListVerb"
| "request_verb (RQuery hs) = QueryVerb"
| "request_verb (RAncestry h l) = AncestryVerb"
| "request_verb (RLeavesOf h q) = LeavesOfVerb"
| "request_verb (RSubscribe h) = SubscribeVerb"
| "request_verb (RUnsubscribe h) = UnsubscribeVerb"
| "request_verb (RAnnounce ns) = AnnounceVerb"

fun wants_nodes :: "('h, 'n) request \<Rightarrow> bool" where
  "wants_nodes (RList t q) = True"
| "wants_nodes (RQuery hs) = True"
| "wants_nodes (RAncestry h l) = True"
| "wants_nodes (RLeavesOf h q) = True"
| "wants_nodes _ = False"

text \<open>The message of a request, and the operation; one that returns no nodes returns none here.\<close>

fun request_message :: "('n, 'x) conn_scheme \<Rightarrow> ('h, 'n) request \<Rightarrow> ('h, 'n) message" where
  "request_message s RVersion = VersionMsg (nextMessageID s) (Major s) (Minor s)"
| "request_message s (RList t q) = ListMsg (nextMessageID s) t q"
| "request_message s (RQuery hs) = QueryMsg (nextMessageID s) hs"
| "request_message s (RAncestry h l) = AncestryMsg (nextMessageID s) h l"
| "request_message s (RLeavesOf h q) = LeavesOfMsg (nextMessageID s) h q"
| "request_message s (RSubscribe h) = SubscribeMsg (nextMessageID s) h"
| "request_message s (RUnsubscribe h) = UnsubscribeMsg (nextMessageID s) h"
| "request_message s (RAnnounce ns) = AnnounceMsg (nextMessageID s) ns"

fun sendSync :: "('h, 'n) forest \<Rightarrow> ('h, 'n) request \<Rightarrow> 'n wakeup \<Rightarrow> (('n, 'x) conn_scheme, 'n list) go" where
  "sendSync F RVersion wake = seqM (SendVersion wake) (\<lambda>_. ret [])"
| "sendSync F (RList t q) wake = SendList t q wake"
| "sendSync F (RQuery hs) wake = SendQuery F hs wake"
| "sendSync F (RAncestry h l) wake = SendAncestry F h l wake"
| "sendSync F (RLeavesOf h q) wake = SendLeavesOf F h q wake"
| "sendSync F (RSubscribe h) wake = seqM (SendSubscribeByID F h wake) (\<lambda>_. ret [])"
| "sendSync F (RUnsubscribe h) wake = seqM (SendUnsubscribeByID F h wake) (\<lambda>_. ret [])"
| "sendSync F (RAnnounce ns) wake = seqM (SendAnnounce F ns wake) (\<lambda>_. ret [])"

text \<open>Every synchronous operation is its asynchronous one, then the wait for its kind of answer.\<close>

definition awaitAnswer :: "('h, 'n) request \<Rightarrow> 'n wakeup \<Rightarrow> async \<Rightarrow> (('n, 'x) conn_scheme, 'n list) go" where
  "awaitAnswer r wake a =
     (if wants_nodes r then handleExpectedResponse (request_verb r) wake a
      else seqM (handleExpectedStatus (request_verb r) wake a) (\<lambda>_. ret []))"

lemma sendSync_awaits: "sendSync F r wake = seqM (sendAsync F r) (awaitAnswer r wake)"
  by (cases r) (simp_all add: awaitAnswer_def [abs_def] SendVersion_def SendList_def SendQuery_def SendAncestry_def
      SendLeavesOf_def SendSubscribeByID_def SendUnsubscribeByID_def subscribeOpID_def SendSubscribeByIDAsync_def
      SendUnsubscribeByIDAsync_def SendAnnounce_def seqM_assoc)

lemma sendAsync_requested:
  "writeFaults s = [] \<Longrightarrow> sendAsync F r s = (Ret (ticket s), requested (render F (request_message s r)) s)"
  by (cases r) (simp_all add: Send_requested [where F = F] del: render.simps)

subsection \<open>The end of a wait\<close>

fun outcome :: "('h, 'n) request \<Rightarrow> 'n wakeup \<Rightarrow> 'n list res" where
  "outcome r TimeoutFired = Fail (TimedOut (request_verb r))"
| "outcome r (Received (ResponseReply ns)) = (if wants_nodes r then Ret ns else Fail NonStatus)"
| "outcome r (Received (StatusReply c)) =
     (if c \<noteq> StatusOk then Fail (StatusError c) else if wants_nodes r then Fail StatusOkNotResponse else Ret [])"

text \<open>
  C13.  Every synchronous request ends.  For each of the eight: the message of the request is
  written; nodes are returned if nodes were asked for and came, nil if a status was asked for and
  was ok, and an error otherwise that names the status, the wrong kind of answer or the timed out
  verb; after a timeout the table of pending requests is as it was before, so that an answer
  that arrives later is unsolicited.
\<close>

theorem every_request_ends:
  assumes "writeFaults s = []" and "PendingStatus s (nextMessageID s) = None"
  shows "fst (sendSync F r wake s) = outcome r wake
       \<and> written (snd (sendSync F r wake s)) = written s @ render F (request_message s r)
       \<and> (wake = TimeoutFired \<longrightarrow> PendingStatus (snd (sendSync F r wake s)) = PendingStatus s)"
proof -
  have table: "(PendingStatus s)(nextMessageID s := None) = PendingStatus s"
    using assms(2) by (auto simp: fun_eq_iff)
  let ?t = "requested (render F (request_message s r)) s"
  have sync: "sendSync F r wake s = awaitAnswer r wake (ticket s) ?t" for wake
    by (simp add: sendSync_awaits seqM_def sendAsync_requested [OF assms(1)] del: render.simps)
  show ?thesis
  proof (cases wake)
    case (Received d)
    then show ?thesis
      by (cases d; cases "wants_nodes r")
        (simp_all add: sync awaitAnswer_def seqM_def ticket_def handleExpectedResponse_def
          handleExpectedStatus_def requested_def del: render.simps)
  next
    case TimeoutFired
    then show ?thesis
      by (cases "wants_nodes r")
        (simp_all add: sync awaitAnswer_def seqM_def ticket_def handleExpectedResponse_def
          handleExpectedStatus_def requested_def Cancel_def table del: render.simps)
  qed
qed

theorem every_request_ends_witness:
  "fst (sendSync one_forest (RQuery [3]) (Received (StatusReply 4)) (NewConn [] [])) = Fail (StatusError 4)
   \<and> PendingStatus (snd (sendSync one_forest (RSubscribe 3) TimeoutFired (NewConn [] []))) = Map.empty"
  using every_request_ends [of "NewConn [] [] :: demo_node conn" one_forest "RQuery [3]" "Received (StatusReply 4)"]
    every_request_ends [of "NewConn [] [] :: demo_node conn" one_forest "RSubscribe 3" TimeoutFired]
  by (simp add: NewConn_def StatusOk_def)

subsection \<open>A failed write\<close>

lemma sendAsync_fails:
  assumes "writeFaults s = Some k # fs"
  shows "\<exists>e t. sendAsync F r s = (Ret (nextChan s, nextMessageID s, Some e), t)
    \<and> PendingStatus t = (PendingStatus s)(nextMessageID s \<mapsto> nextChan s)"
proof -
  obtain verb format args where "sendAsync F r s = writeMessageAsync verb format args s"
    using sendAsync_writes by blast
  then show ?thesis
    using assms by (simp add: writeMessageAsync_def seqM_def getNextMessageID_def storePending_def errorOf_def
        writeMessageWithID_def onErr_def writeConn_def)
qed

text \<open>
  C34.  A request that could not be written stays in the table.  When the transport fails, each
  of the eight synchronous operations returns an error that says so without cancelling, so the
  entry and its channel remain although no answer can come.
\<close>

theorem failed_send_stays_pending:
  assumes "writeFaults s = Some k # fs"
  shows "(\<exists>e. fst (sendSync F r wake s) = Fail (Wrapped (InConn (FailedSending (request_verb r))) e))
       \<and> PendingStatus (snd (sendSync F r wake s)) = (PendingStatus s)(nextMessageID s \<mapsto> nextChan s)"
proof -
  obtain e t where "sendAsync F r s = (Ret (nextChan s, nextMessageID s, Some e), t)"
      "PendingStatus t = (PendingStatus s)(nextMessageID s \<mapsto> nextChan s)"
    using sendAsync_fails [OF assms] by blast
  then show ?thesis
    by (simp add: sendSync_awaits awaitAnswer_def seqM_def handleExpectedResponse_def handleExpectedStatus_def)
qed

theorem failed_send_stays_pending_witness:
  "PendingStatus (snd (sendSync one_forest RVersion TimeoutFired (NewConn [] [Some 3]))) 0 = Some 0"
  using failed_send_stays_pending [of "NewConn [] [Some 3] :: demo_node conn" 3 "[]" one_forest RVersion TimeoutFired]
  by (simp add: NewConn_def)

end
