(* ===== verification/Bounds.thy ===== *)
theory Bounds
  imports Read_Props
begin

text \<open>
  Ranges of what is read.  The runes on a connection are chosen by the peer; every number
  that a scan returns nevertheless fits the Go type of its operand, so the arguments that a
  hook is called with are values of their types.
\<close>

subsection \<open>What a successful call returns\<close>

definition yields :: "('a \<Rightarrow> bool) \<Rightarrow> ('s, 'a) go \<Rightarrow> bool" where
  "yields P m \<longleftrightarrow> (\<forall>s a t. m s = (Ret a, t) \<longrightarrow> P a)"

named_theorems yields_rules "results of the scanning operations"

lemma yieldsI: "(\<And>s a t. m s = (Ret a, t) \<Longrightarrow> P a) \<Longrightarrow> yields P m"
  by (simp add: yields_def)

lemma yieldsD: "yields P m \<Longrightarrow> m s = (Ret a, t) \<Longrightarrow> P a"
  unfolding yields_def by blast

lemma yields_ret: "P a \<Longrightarrow> yields P (ret a)"
  by (simp add: yields_def)

lemma yields_fail [yields_rules]: "yields P (fail e)"
  by (simp add: yields_def)

lemma yields_panic [yields_rules]: "yields P (panic p)"
  by (simp add: yields_def)

lemma yields_bind: "yields Q m \<Longrightarrow> (\<And>a. Q a \<Longrightarrow> yields P (f a)) \<Longrightarrow> yields P (seqM m f)"
  unfolding yields_def by (blast elim!: seqM_RetE)

lemma yields_seqM: "(\<And>a. yields P (f a)) \<Longrightarrow> yields P (seqM m f)"
  unfolding yields_def by (blast elim!: seqM_RetE)

lemma yields_onErr: "yields P m \<Longrightarrow> yields P (onErr w m)"
  unfolding yields_def by (blast dest: onErr_RetD)

lemma yields_onInput: "yields P m \<Longrightarrow> yields P (onInput m)"
  unfolding yields_def onInput_def by (auto split: prod.splits)

lemma yields_if: "(b \<Longrightarrow> yields P m) \<Longrightarrow> (\<not> b \<Longrightarrow> yields P m') \<Longrightarrow> yields P (if b then m else m')"
  by simp

text \<open>Continuations that agree on the results that can occur.\<close>

lemma seqM_cong_yields: "yields P m \<Longrightarrow> (\<And>a. P a \<Longrightarrow> f a = g a) \<Longrightarrow> seqM m f = seqM m g"
  by (rule ext) (auto simp: seqM_def dest: yieldsD split: prod.splits res.splits)

subsection \<open>Numbers\<close>

text \<open>The values of an operand's type; a scan of a string stores no number.\<close>

definition in_range :: "operand \<Rightarrow> int \<Rightarrow> bool" where
  "in_range k i \<longleftrightarrow>
     (case k of
        KInt b \<Rightarrow> int64 i \<and> - (2 ^ (b - 1)) \<le> i \<and> i < 2 ^ (b - 1)
      | KUint b \<Rightarrow> 0 \<le> i \<and> i < 2 ^ 64 \<and> i < 2 ^ b
      | KString \<Rightarrow> i = 0)"

lemma in_range_GoInt [simp]: "in_range KGoInt i \<longleftrightarrow> int64 i"
  by (auto simp: in_range_def int64_def)

lemma scan_int_range [yields_rules]: "yields (in_range (KInt b)) (scan_int b)"
  unfolding scan_int_def Let_def
  by (intro yields_seqM yields_if yields_fail yields_ret) (simp add: in_range_def)

lemma scan_uint_range [yields_rules]: "yields (in_range (KUint b)) (scan_uint b)"
proof -
  have "int n < 2 ^ c" if "n < 2 ^ c" for n c :: nat
    using that by (metis of_nat_less_iff of_nat_numeral of_nat_power)
  then show ?thesis
    unfolding scan_uint_def
    by (intro yields_seqM yields_if yields_fail yields_ret) (simp add: in_range_def not_le)
qed

lemma scanOne_range: "yields (\<lambda>v. in_range k (vint v)) (scanOne c k)"
proof (cases k)
  case (KInt b)
  then show ?thesis
    by (cases "c = 100") (simp_all add: yields_fail yields_bind [OF scan_int_range] yields_ret)
next
  case (KUint b)
  then show ?thesis
    by (cases "c = 100") (simp_all add: yields_fail yields_bind [OF scan_uint_range] yields_ret)
next
  case KString
  then show ?thesis
    by (simp add: yields_fail yields_seqM yields_ret in_range_def)
qed

definition stored_ok :: "operand list \<Rightarrow> sval list \<Rightarrow> bool" where
  "stored_ok ks vs \<longleftrightarrow> list_all2 (\<lambda>k v. in_range k (vint v)) (take (length vs) ks) vs \<and> length vs \<le> length ks"

lemma stored_ok_Nil [simp]: "stored_ok ks []"
  by (simp add: stored_ok_def)

lemma stored_ok_Cons [simp]: "stored_ok (k # ks) (v # vs) \<longleftrightarrow> in_range k (vint v) \<and> stored_ok ks vs"
  by (auto simp: stored_ok_def)

lemma doScanf_range: "yields (stored_ok ks) (doScanf fmt ks)"
proof (induction fmt ks rule: doScanf.induct)
  case (1 ks)
  then show ?case by (simp add: yields_def)
next
  case (2 c fmt ks)
  show ?case
  proof (cases "isSpace c \<or> c \<noteq> 37")
    case True
    with 2(1,2) show ?thesis by (auto intro!: yields_seqM)
  next
    case False
    then have c: "\<not> isSpace c" "c = 37" by simp_all
    show ?thesis
    proof (cases fmt)
      case Nil
      with c show ?thesis by (simp add: yields_def)
    next
      case (Cons v fmt')
      show ?thesis
      proof (cases "v = 37 \<or> ks = []")
        case True
        with 2(3) c Cons show ?thesis by (auto simp: yields_fail intro!: yields_seqM)
      next
        case False
        then obtain k ks' where ks: "ks = k # ks'" by (cases ks) auto
        have "yields (stored_ok ks') (doScanf fmt' ks')"
          using False 2(4) c Cons ks by simp
        then have "yields (stored_ok ks) (seqM (scanOne v k) (\<lambda>x. seqM (doScanf fmt' ks') (\<lambda>xs. ret (x # xs))))"
          unfolding ks
            by (intro yields_bind [OF scanOne_range] yields_bind [of "stored_ok ks'"]) (auto intro: yields_ret)
        with False c Cons ks show ?thesis by (auto intro!: yields_seqM)
      qed
    qed
  qed
qed

text \<open>After the check of the count every operand has been stored.\<close>

lemma scanOp_range: "yields (list_all2 (\<lambda>k v. in_range k (vint v)) ks) (scanOp verb ks)"
  unfolding scanOp_def Fscanf_def
  by (rule yields_bind [OF yields_onErr [OF yields_onInput [OF doScanf_range]]])
    (auto simp: stored_ok_def yields_fail intro!: yields_ret)

subsection \<open>Lists\<close>

definition parsed_id :: "('h, 'n) forest \<Rightarrow> 'h \<Rightarrow> bool" where
  "parsed_id F h \<longleftrightarrow> (\<exists>t. UnmarshalText F t = Inr h)"

lemma yields_parse: "yields (parsed_id F) (lift_sum w (UnmarshalText F t))"
  by (rule yieldsI) (auto simp: parsed_id_def dest: lift_sum_Ret)

lemma yields_target: "yields (parsed_id F) (unmarshalTarget F verb t)"
  unfolding unmarshalTarget_def by (rule yields_parse)

lemma yields_fillSlice: "yields P m \<Longrightarrow> yields (\<lambda>xs. length xs = n \<and> list_all P xs) (fillSlice n m)"
  by (rule yieldsI) (rule fillSlice_Ret [OF yieldsD])

lemma yields_readNodeIDs:
  "yields (\<lambda>hs. makeslice_ok 8 (int (length hs)) \<and> list_all (parsed_id F) hs) (readNodeIDs F n)"
proof -
  have "yields (parsed_id F) (readNodeID F)"
    unfolding readNodeID_def by (intro yields_seqM yields_parse)
  from yields_fillSlice [OF this, of "nat n"] show ?thesis
    by (auto simp: readNodeIDs_def yields_panic makeslice_ok_def yields_def)
qed

lemma yields_readNodeLines:
  "yields (\<lambda>ns. makeslice_ok 16 (int (length ns)) \<and> list_all (checked_node F) ns) (readNodeLines F n)"
proof -
  have "yields (checked_node F) (readNodeLine F)" by (rule yieldsI) (rule readNodeLine_checked)
  from yields_fillSlice [OF this, of "nat n"] show ?thesis
    by (auto simp: readNodeLines_def yields_panic makeslice_ok_def yields_def)
qed

subsection \<open>The arguments of the hooks\<close>

text \<open>The hooks, except that a call with an argument outside its type does \<open>bad\<close> instead.\<close>

definition guarded ::
    "('h, 'n) forest \<Rightarrow> ('s, unit) go \<Rightarrow> ('h, 'n, 's) hooks \<Rightarrow> ('h, 'n, 's) hooks" where
  "guarded F bad H =
     (let both = (\<lambda>i p. int64 i \<and> p) in
     \<lparr>onVersion = map_option (\<lambda>f i a b. if both i (int64 a \<and> int64 b) then f i a b else bad) (onVersion H),
      onList = map_option (\<lambda>f i t q. if both i (in_range (NodeTypeOperand F) t \<and> int64 q) then f i t q else bad) (onList H),
      onQuery = map_option (\<lambda>f i hs. if both i (makeslice_ok 8 (int (length hs)) \<and> list_all (parsed_id F) hs)
        then f i hs else bad) (onQuery H),
      onAncestry = map_option (\<lambda>f i h l. if both i (parsed_id F h \<and> int64 l) then f i h l else bad) (onAncestry H),
      onLeavesOf = map_option (\<lambda>f i h q. if both i (parsed_id F h \<and> int64 q) then f i h q else bad) (onLeavesOf H),
      onSubscribe = map_option (\<lambda>f i h. if both i (parsed_id F h) then f i h else bad) (onSubscribe H),
      onUnsubscribe = map_option (\<lambda>f i h. if both i (parsed_id F h) then f i h else bad) (onUnsubscribe H),
      onAnnounce = map_option (\<lambda>f i ns. if both i (makeslice_ok 16 (int (length ns)) \<and> list_all (checked_node F) ns)
        then f i ns else bad) (onAnnounce H)\<rparr>)"

lemma runHook_map: "runHook verb (map_option g hook) call = runHook verb hook (\<lambda>f. call (g f))"
  by (cases hook) (simp_all add: runHook_def)

lemmas scan3_cong =
  seqM_cong_yields [OF scanOp_range [where ks = "[k, l, m]" for k l m]]
lemmas scan2_cong =
  seqM_cong_yields [OF scanOp_range [where ks = "[k, l]" for k l]]
lemmas ids_cong = seqM_cong_yields [OF yields_onErr [OF yields_onInput [OF yields_readNodeIDs]]]
lemmas nodes_cong = seqM_cong_yields [OF yields_onErr [OF yields_onInput [OF yields_readNodeLines]]]
lemmas target_cong = seqM_cong_yields [OF yields_target]

lemma guarded_numbers:
  "readVersion (guarded F bad H) = readVersion H" "readList F (guarded F bad H) = readList F H"
  unfolding readVersion_def readList_def
  by (rule scan3_cong, auto simp: guarded_def runHook_map list_all2_Cons1)+

lemma guarded_targets:
  "readAncestry F (guarded F bad H) = readAncestry F H" "readLeavesOf F (guarded F bad H) = readLeavesOf F H"
  unfolding readAncestry_def readLeavesOf_def
  by (rule scan3_cong, rule target_cong, auto simp: guarded_def runHook_map list_all2_Cons1)+

lemma guarded_subscription: "readSubscription F (guarded F bad H) verb = readSubscription F H verb"
  unfolding readSubscription_def
  by (rule scan2_cong, rule target_cong) (auto simp: guarded_def runHook_map list_all2_Cons1)

lemma guarded_lists:
  "readQuery F (guarded F bad H) = readQuery F H" "readAnnounce F (guarded F bad H) = readAnnounce F H"
  unfolding readQuery_def readAnnounce_def
  by (rule scan2_cong, rule ids_cong, auto simp: guarded_def runHook_map list_all2_Cons1)
    (rule scan2_cong, rule nodes_cong, auto simp: guarded_def runHook_map list_all2_Cons1)


end
