(* ===== verification/Spec2Isabelle.thy ===== *)
theory Spec2Isabelle
  imports Relay_System Catch_Up Service Requests Bounds
begin

text \<open>
  Verification library of sprout-go: the Sprout protocol connection, the worker that serves
  a node store over it, and the relay programs around them.

  The program and its theories.  A \<open>Conn\<close> (sprout.go) writes requests with fresh identifiers,
  keeps a channel for each in \<open>PendingStatus\<close>, and reads messages in \<open>ReadMessage\<close>, which runs
  a hook for a request and hands an answer to the waiting channel.  A \<open>Worker\<close> (worker.go)
  embeds a \<open>Conn\<close> and a \<open>Session\<close> (session.go), sets the hooks, runs the read loop, announces
  new nodes and fetches what it lacks.  supervisor.go keeps a worker connected; the relay
  (cmd/relay) accepts connections and watches its directory (watch).

  \<^item> \<open>Prelude\<close>: errors, panics, sequencing, \<open>relates\<close> (a relation between the states before and
    after a call, closed under sequencing: locale \<open>run_relation\<close>), Go integers and slices.
  \<^item> \<open>Utf8\<close>, \<open>Fmt_Print\<close>, \<open>Fmt_Scan\<close>, \<open>Fmt_Laws\<close>, \<open>Base64\<close>: what sprout.go uses of the Go library:
    reading runes, \<open>Fprintf\<close>, \<open>Fscanf\<close> and \<open>Fscanln\<close> with the verbs \<open>%d\<close> and \<open>%s\<close>, base64; the laws
    say that a printed operand is scanned back (locale \<open>token\<close>).
  \<^item> \<open>Forest\<close>: forest-go as a record of functions, with its documented behaviour as predicates,
    and a small instance for the witnesses.
  \<^item> \<open>Conn\<close>, \<open>Send\<close>, \<open>Receive\<close>: sprout.go, in its order.  The record \<open>conn\<close> is the struct \<open>Conn\<close>;
    \<open>Receive\<close> has one definition per case of the switch of \<open>ReadMessage\<close>.
  \<^item> \<open>Wire\<close>, \<open>Exchange\<close>: the messages as a datatype, their text (\<open>render\<close>) and what reading it does
    (\<open>dispatch\<close>); the abstract protocol that the text level refines (\<open>ReadMessage_dispatch\<close>), and
    whole exchanges between two connections.  Locale \<open>frame\<close> is the interface of a line format.
  \<^item> \<open>Consume\<close>, \<open>Conn_Inv\<close>, \<open>Read_Props\<close>: reading only consumes input; the interface of relations kept
    by \<open>ReadMessage\<close> (locale \<open>conn_relation\<close>); the invariant of the pending table; properties of
    \<open>ReadMessage\<close> on arbitrary input.  \<open>Bounds\<close>: whatever is read, hooks are called with values of
    their types.
  \<^item> \<open>Session\<close>: session.go, refining a bag of communities (locale \<open>community_bag\<close>).
  \<^item> \<open>Worker\<close>, \<open>Worker_Props\<close>, \<open>Gossip\<close>, \<open>Answers\<close>: the handlers, what each answers, announcements, and
    what all have in common (locale \<open>handler_relation\<close>): one answer per request.
  \<^item> \<open>Run\<close>, \<open>Reach\<close>, \<open>Rendezvous\<close>: the read loop and its termination; the states that interleavings of
    reads, sends and timeouts reach; the race between an answer and the timeout of its request.
    \<open>Requests\<close>: how each of the synchronous operations ends.
  \<^item> \<open>Ingest\<close>, \<open>Background\<close>: how nodes get into the store, with other goroutines changing it before
    each of its operations; the interface of relations kept by this work in the background
    (locales \<open>request_relation\<close>, \<open>background_relation\<close>).  \<open>Store_Growth\<close>, \<open>Ingest_Props\<close>: only
    validated nodes are added, as far as the others keep that too (with the exceptions that are
    stated).  \<open>Catch_Up\<close>: with an honest peer one request brings the whole missing ancestry.
  \<^item> \<open>Well_Formed\<close>, \<open>Service\<close>: the type invariant of a worker, kept all its life; the service a worker
    promises its peer, which its read loop refines.
  \<^item> \<open>Expiring_Set\<close>, \<open>Relay\<close>, \<open>Startup\<close>: the relay's set of recent identifiers, the watcher, the file
    and accept callbacks, the supervisor, and \<open>main\<close>.  \<open>Relay_System\<close>: a whole relay as a transition
    system, many workers on one store, and the integrity of that store.
  \<^item> This theory: two workers together.

  Conventions.  A function that may fail or panic returns \<open>Ret\<close>, \<open>Fail\<close> or \<open>Panic\<close> with the new
  state; \<open>fmt.Errorf\<close> with \<open>%w\<close> is \<open>Wrapped\<close>, with \<open>%v\<close> is \<open>Flattened\<close>.  An argument \<open>F\<close> is
  forest-go, \<open>W\<close> the store, validation, expiration, \<open>sort.Slice\<close> and the order of map ranges.  What
  the environment decides is an input: the runes the peer sends until it closes, which writes
  fail and after how many bytes, whether an answer or the timeout ends a wait, what \<open>Accept\<close>,
  dialing, the clock and the file watcher deliver.

  Bounds.  \<open>int\<close> has 64 bits: \<open>wrap64\<close> is written where arithmetic can leave the range, scanning
  rejects what does not fit, and \<open>make\<close> and slicing panic as the run-time system does.  The only
  recursion that is not on a list or a number is \<open>runLoop\<close>, a partial function proved to return
  on every input (each round consumes at least one rune).  No fuel is used.

  Not modelled: logging; read errors of the transport other than its end; the limit of the
  scanner on the length of one operand (2^30 runes) and exhaustion of memory; the parsing of the
  command line, and what TLS, HTTP, signals and the purging of expired nodes do once \<open>main\<close> has
  started them.  Steps of different goroutines interleave in \<open>Reach\<close>, \<open>Well_Formed\<close>,
  \<open>Relay_System\<close> and \<open>Rendezvous\<close>, whole calls in the first three; an ingestion, synchronization or bootstrap interleaves
  with other users of the store at each of its store operations, but the messages that the read
  loop handles meanwhile appear in it only as the ends of its waits.
\<close>

section \<open>Two workers\<close>

text \<open>
  C17.  A node travels.  A node new on one relay that its worker shares with the peer, and
  that the peer's worker wants, is announced in one message; reading it, the peer's worker
  starts exactly the ingestion of that node and answers ok; and that ingestion, when the
  node is valid there and its author known, puts it into the peer's store.
\<close>

theorem node_travels:
  assumes "writeFaults a = []" and "int64 (nextMessageID a)" and "shared_with_peer F a n" and "node_ok F n"
    and "writeFaults b = []" and "others b = []" and "wanted F W b n"
    and "author_known F W (theStore b) n" and "ValidateDeep W n (theStore b) = Inr ()"
    and "AddAs W n (subscriptionID b) (theStore b) = (Inr (), s)"
  shows "\<exists>text b'. written (snd (HandleNewNode F wake n a)) = written a @ text
       \<and> ReadMessage F (workerHooks F W) (b\<lparr>BufferedConn := runes text @ rest\<rparr>) = (Ret (), b')
       \<and> spawned b' = spawned b @ [n]
       \<and> written b' = written b @ render F (StatusMsg (nextMessageID a) StatusOk)
       \<and> fst (IngestNode F W n b') = Ret () \<and> theStore (snd (IngestNode F W n b')) = s"
proof -
  let ?m = "AnnounceMsg (nextMessageID a) [n]" and ?b = "b\<lparr>BufferedConn := rest\<rparr>"
  let ?b' = "b\<lparr>BufferedConn := rest, spawned := spawned b @ [n],
      written := written b @ render F (StatusMsg (nextMessageID a) StatusOk)\<rparr>"
  have sent: "written (snd (HandleNewNode F wake n a)) = written a @ render F ?m"
    using HandleNewNode_writes [OF assms(1)] assms(3) by (simp del: render.simps)
  have "message_ok F ?m" using assms(2,4) by (simp add: makeslice_ok_def)
  moreover have "judge F W ?b n = Ingest"
    using assms(7) by (auto simp: judge_Ingest wanted_def new_here_def split: node_kind.splits)
  ultimately have read: "ReadMessage F (workerHooks F W) (b\<lparr>BufferedConn := runes (render F ?m) @ rest\<rparr>) = (Ret (), ?b')"
    using assms(5) by (simp add: ReadMessage_dispatch workerHooks_def runHook_def onErr_def seqM_def spawnIngest_def
        SendStatus_ok [of _ _ _ F] del: render.simps)
  have "IngestNode F W n ?b' = addAs W n ?b'"
    by (rule IngestNode_valid) (use assms(6,8,9) in simp_all)
  then have "fst (IngestNode F W n ?b') = Ret ()" "theStore (snd (IngestNode F W n ?b')) = s"
    using assms(6,10) by (simp_all add: addAs_store del: render.simps)
  with sent read show ?thesis
    by (intro exI [of _ "render F ?m"] exI [of _ ?b'] conjI) (assumption | simp del: render.simps)+
qed

theorem node_travels_witness:
  "\<exists>text b'. written (snd (HandleNewNode one_forest TimeoutFired one_node demo_worker)) = text
     \<and> ReadMessage one_forest (workerHooks one_forest demo_world) (demo_worker\<lparr>BufferedConn := runes text @ []\<rparr>) = (Ret (), b')
     \<and> spawned b' = [one_node]
     \<and> theStore (snd (IngestNode one_forest demo_world one_node b')) = demo_chain @ [one_node]"
proof -
  have kind: "nodeKind one_forest one_node = IdentityNode"
    by (simp add: one_forest_def demo_forest_def one_node_def)
  have "int64 (nextMessageID demo_worker)"
    by (simp add: demo_worker_def NewWorker_def NewConn_def conn.defs int64_def)
  moreover have "wanted one_forest demo_world demo_worker one_node"
    by (simp add: wanted_def new_here_def kind)
      (simp add: demo_world_def demo_chain_def one_forest_def demo_forest_def one_node_def)
  moreover have "ValidateDeep demo_world one_node (theStore demo_worker) = Inr ()"
      "AddAs demo_world one_node (subscriptionID demo_worker) (theStore demo_worker) = (Inr (), demo_chain @ [one_node])"
    by (simp_all add: demo_world_def)
  ultimately obtain msg b' where
      "written (snd (HandleNewNode one_forest TimeoutFired one_node demo_worker)) = written demo_worker @ msg"
      "ReadMessage one_forest (workerHooks one_forest demo_world) (demo_worker\<lparr>BufferedConn := runes msg @ []\<rparr>) = (Ret (), b')"
      "spawned b' = spawned demo_worker @ [one_node]"
      "theStore (snd (IngestNode one_forest demo_world one_node b')) = demo_chain @ [one_node]"
    using node_travels [of demo_worker one_forest one_node demo_worker demo_world "demo_chain @ [one_node]" TimeoutFired "[]"]
    by (auto simp: shared_with_peer_def author_known_def kind)
  then show ?thesis by (intro exI [of _ msg] exI [of _ b']) simp
qed

text \<open>
  C25.  Subscriptions gate announcements.  A worker tells its peer nothing about a reply in a
  community the peer has not subscribed to; once it has read the peer's subscribe message,
  which it answers with ok, it announces each such reply.
\<close>

theorem subscription_gates_announcements:
  assumes "writeFaults w = []" and "equals_ok F" and "hash_ok F c" and "int64 i"
    and "nodeKind F n = ReplyNode a c" and "session_fresh (nextPtr w) (Communities w)"
    and "\<not> IsSubscribed F (Communities w) c"
  shows "written (snd (HandleNewNode F wake n w)) = written w
       \<and> (\<exists>w'. ReadMessage F (workerHooks F W) (w\<lparr>BufferedConn := runes (render F (SubscribeMsg i c)) @ rest\<rparr>) = (Ret (), w')
            \<and> written w' = written w @ render F (StatusMsg i StatusOk)
            \<and> written (snd (HandleNewNode F wake n w')) = written w' @ render F (AnnounceMsg (nextMessageID w') [n]))"
proof -
  have before: "written (snd (HandleNewNode F wake n w)) = written w"
    using assms(5,7) by (simp add: HandleNewNode_def)
  let ?cs = "Subscribe (nextPtr w) c (Communities w)"
  let ?w' = "w\<lparr>BufferedConn := rest, Communities := ?cs, nextPtr := Suc (nextPtr w),
      written := written w @ render F (StatusMsg i StatusOk)\<rparr>"
  have "message_ok F (SubscribeMsg i c)" using assms(3,4) by simp
  then have read: "ReadMessage F (workerHooks F W) (w\<lparr>BufferedConn := runes (render F (SubscribeMsg i c)) @ rest\<rparr>) = (Ret (), ?w')"
    using assms(1) by (simp add: ReadMessage_dispatch workerHooks_def runHook_def OnSubscribe_def onErr_def seqM_def
        subscribeFresh_def SendStatus_ok [of _ _ _ F] del: render.simps)
  have "IsSubscribed F ?cs c"
    using assms(2,6) by (auto simp: Subscribe_def IsSubscribed_def session_fresh_def list_ex_iff list_all_iff)
  then have "shared_with_peer F ?w' n" using assms(5) by (simp add: shared_with_peer_def)
  with HandleNewNode_writes [of ?w' F wake n] assms(1)
  have "written (snd (HandleNewNode F wake n ?w')) = written ?w' @ render F (AnnounceMsg (nextMessageID ?w') [n])"
    by (simp del: render.simps)
  with before read show ?thesis
    by (intro conjI exI [of _ ?w']) (assumption | simp del: render.simps)+
qed

theorem subscription_gates_announcements_witness:
  "written (snd (HandleNewNode one_forest TimeoutFired (DemoNode 6 1 (ReplyNode 9 1) 1 5) demo_worker)) = []
   \<and> (\<exists>w'. ReadMessage one_forest (workerHooks one_forest demo_world)
        (demo_worker\<lparr>BufferedConn := runes (render one_forest (SubscribeMsg 5 1)) @ []\<rparr>) = (Ret (), w'))"
proof -
  have kind: "nodeKind one_forest (DemoNode 6 1 (ReplyNode 9 1) 1 5) = ReplyNode 9 1"
    by (simp add: one_forest_def demo_forest_def)
  have "int64 5" "hash_ok one_forest 1" "session_fresh (nextPtr demo_worker) (Communities demo_worker)"
      "\<not> IsSubscribed one_forest (Communities demo_worker) 1"
    by (simp_all add: int64_def session_fresh_def IsSubscribed_def)
  from subscription_gates_announcements [where F = one_forest and W = demo_world and wake = TimeoutFired
      and rest = "[]", OF demo_worker_simps(1) one_equals_ok this(2,1) kind this(3,4)]
  show ?thesis by auto
qed

end
